(* ===== verification/Prelude.thy ===== *)
theory Prelude
  imports Complex_Main "HOL-Library.Word" "HOL-Library.Sublist"
    "HOL-Library.Char_ord" "HOL-Library.List_Lexorder"
begin

text \<open>
  What every component of the model shares: the machine integers and instants, IEEE doubles,
  the rendering of numbers that the source's \<open>format!\<close> strings use, and the
  generic lemmas on lists, options and sums that carry the component proofs.

  \<^item> A Rust \<open>u32\<close> or \<open>u64\<close> is a word of that width.  A surrogate key
    (\<open>RowId = i64\<close>) is only compared and printed, so it is an \<open>int\<close>.
  \<^item> A \<open>DateTime<Utc>\<close> is the number of nanoseconds since the epoch and a
    \<open>Duration\<close> a number of nanoseconds; comparing and subtracting them is comparing and
    subtracting integers.  The conversions of the \<open>chrono\<close> package that round or format
    are parameters of the definitions that use them.
  \<^item> A Rust string is a \<open>string\<close>, one \<open>char\<close> per character: the text is
    ASCII, where bytes and characters coincide.  Strings are ordered as Rust orders them, by
    \<open>List_Lexorder\<close> over \<open>Char_ord\<close>.
  \<^item> \<open>Result<T, E>\<close> is \<open>E + T\<close>: \<open>Inl\<close> is \<open>Err\<close>, \<open>Inr\<close> is \<open>Ok\<close>.
\<close>

subsection \<open>Collections\<close>

text \<open>
  \<open>outcome\<close> decomposes what a chain of fallible steps returned; \<open>gate_eval\<close>
  evaluates one gate of an operation; \<open>keeps\<close> holds the facts that an operation
  preserves an invariant.
\<close>

named_theorems outcome
named_theorems gate_eval
named_theorems keeps

subsection \<open>Integers, instants and identifiers\<close>

type_synonym u32 = "32 word"
type_synonym u64 = "64 word"
type_synonym row_id = int
type_synonym utc = int
type_synonym duration = int

definition nanos_per_sec :: int where
  "nanos_per_sec = 1000000000"

lemma unat_of_nat_small: "n < 2 ^ LENGTH('a) \<Longrightarrow> unat (of_nat n :: 'a::len word) = n"
  by (simp add: unsigned_of_nat take_bit_nat_eq_self)

lemma unat_ucast_u64 [simp]: "unat (ucast (w :: u32) :: u64) = unat w"
proof -
  have "unat w < 2 ^ 32"
    using unsigned_less [of w] by simp
  then show ?thesis
    by (simp add: unsigned_ucast_eq take_bit_nat_eq_self)
qed

text \<open>Truncating division, as \<open>chrono\<close> documents for the whole seconds of a duration.\<close>

definition trunc_div :: "int \<Rightarrow> int \<Rightarrow> int" where
  "trunc_div n k = (if n < 0 then - ((- n) div k) else n div k)"

lemma trunc_div_nonneg: "0 \<le> n \<Longrightarrow> trunc_div n k = n div k"
  by (simp add: trunc_div_def)

lemma abs_trunc_div: "0 < k \<Longrightarrow> \<bar>trunc_div n k\<bar> = \<bar>n\<bar> div k"
  by (simp add: trunc_div_def pos_imp_zdiv_nonneg_iff)

subsection \<open>Doubles\<close>

text \<open>
  An \<open>f64\<close>: not a number, an infinity, the negative zero (it compares equal to zero but
  prints differently) or a finite value, which is a rational number.
\<close>

datatype f64 = F_NaN | F_NegInf | F_NegZero | F_Fin rat | F_PosInf

definition is_nan :: "f64 \<Rightarrow> bool" where
  "is_nan x \<longleftrightarrow> x = F_NaN"

fun f64_val :: "f64 \<Rightarrow> rat" where
  "f64_val (F_Fin q) = q"
| "f64_val _ = 0"

text \<open>The IEEE comparison \<open>a <= b\<close>: false as soon as one side is not a number.\<close>

fun f64_le :: "f64 \<Rightarrow> f64 \<Rightarrow> bool" where
  "f64_le F_NaN b = False"
| "f64_le a F_NaN = False"
| "f64_le F_NegInf b = True"
| "f64_le a F_PosInf = True"
| "f64_le a F_NegInf = False"
| "f64_le F_PosInf b = False"
| "f64_le a b = (f64_val a \<le> f64_val b)"

lemma f64_le_refl: "\<not> is_nan x \<Longrightarrow> f64_le x x"
  by (cases x) (auto simp: is_nan_def)

lemma f64_le_nan_right [simp]: "\<not> f64_le a F_NaN"
  by (cases a) auto

lemma f64_le_trans: "f64_le a b \<Longrightarrow> f64_le b c \<Longrightarrow> f64_le a c"
  by (cases a; cases b; cases c) auto

lemma f64_le_not_nan: "f64_le a b \<Longrightarrow> \<not> is_nan a \<and> \<not> is_nan b"
  by (cases a; cases b) (auto simp: is_nan_def)

subsection \<open>Rendering\<close>

definition digit_char :: "nat \<Rightarrow> char" where
  "digit_char d = char_of (48 + d)"

fun show_nat :: "nat \<Rightarrow> string" where
  "show_nat n = (if n < 10 then [digit_char n] else show_nat (n div 10) @ [digit_char (n mod 10)])"

declare show_nat.simps [simp del]

definition show_int :: "int \<Rightarrow> string" where
  "show_int i = (if i < 0 then CHR ''-'' # show_nat (nat (- i)) else show_nat (nat i))"

definition show_word :: "'a::len word \<Rightarrow> string" where
  "show_word w = show_nat (unat w)"

fun join_with :: "string \<Rightarrow> string list \<Rightarrow> string" where
  "join_with sep [] = []"
| "join_with sep [x] = x"
| "join_with sep (x # y # xs) = x @ sep @ join_with sep (y # xs)"

text \<open>The \<open>Debug\<close> rendering of a vector and of an option.\<close>

definition debug_list :: "('a \<Rightarrow> string) \<Rightarrow> 'a list \<Rightarrow> string" where
  "debug_list f xs = ''['' @ join_with '', '' (map f xs) @ '']''"

fun debug_option :: "('a \<Rightarrow> string) \<Rightarrow> 'a option \<Rightarrow> string" where
  "debug_option f None = ''None''"
| "debug_option f (Some x) = ''Some('' @ f x @ '')''"

text \<open>The \<open>Debug\<close> rendering of ASCII text, and lower-case hexadecimal.\<close>

definition hex_digit :: "nat \<Rightarrow> char" where
  "hex_digit d = (if d < 10 then char_of (48 + d) else char_of (87 + d))"

fun show_hex :: "nat \<Rightarrow> string" where
  "show_hex n = (if n < 16 then [hex_digit n] else show_hex (n div 16) @ [hex_digit (n mod 16)])"

declare show_hex.simps [simp del]

definition debug_char :: "char \<Rightarrow> string" where
  "debug_char c =
     (let n = (of_char c :: nat) in
      if n = 34 \<or> n = 92 then [char_of (92 :: nat), c]
      else if n = 0 then [char_of (92 :: nat), CHR ''0'']
      else if n = 9 then [char_of (92 :: nat), CHR ''t'']
      else if n = 10 then [char_of (92 :: nat), CHR ''n'']
      else if n = 13 then [char_of (92 :: nat), CHR ''r'']
      else if 32 \<le> n \<and> n < 127 then [c]
      else char_of (92 :: nat) # ''u{'' @ show_hex n @ ''}'')"

definition debug_string :: "string \<Rightarrow> string" where
  "debug_string s = CHR 0x22 # concat (map debug_char s) @ [CHR 0x22]"

lemma show_nat_nonempty [simp]: "show_nat n \<noteq> []"
  by (subst show_nat.simps) simp

lemma of_char_digit_char [simp]: "d < 10 \<Longrightarrow> (of_char (digit_char d) :: nat) = 48 + d"
  by (simp add: digit_char_def)

lemma digit_char_inject: "d < 10 \<Longrightarrow> e < 10 \<Longrightarrow> digit_char d = digit_char e \<longleftrightarrow> d = e"
  by (metis add_left_cancel of_char_digit_char)

definition is_digit_char :: "char \<Rightarrow> bool" where
  "is_digit_char c \<longleftrightarrow> 48 \<le> (of_char c :: nat) \<and> (of_char c :: nat) \<le> 57"

lemma is_digit_char_digit [simp]: "d < 10 \<Longrightarrow> is_digit_char (digit_char d)"
  by (simp add: is_digit_char_def)

lemma show_nat_digits: "c \<in> set (show_nat n) \<Longrightarrow> is_digit_char c"
proof (induction n arbitrary: c rule: show_nat.induct)
  case (1 n)
  then show ?case
    by (cases "n < 10") (auto simp: show_nat.simps [of n])
qed

text \<open>Decimal text determines the number.\<close>

definition digit_val :: "char \<Rightarrow> nat" where
  "digit_val c = (of_char c :: nat) - 48"

definition read_nat :: "string \<Rightarrow> nat" where
  "read_nat s = foldl (\<lambda>n c. 10 * n + digit_val c) 0 s"

lemma read_nat_snoc: "read_nat (s @ [c]) = 10 * read_nat s + digit_val c"
  by (simp add: read_nat_def)

lemma read_nat_show [simp]: "read_nat (show_nat n) = n"
proof (induction n rule: show_nat.induct)
  case (1 n)
  show ?case
  proof (cases "n < 10")
    case True
    then show ?thesis
      by (simp add: show_nat.simps [of n] read_nat_def digit_val_def)
  next
    case False
    then show ?thesis
      using "1.IH" by (simp add: show_nat.simps [of n] read_nat_snoc digit_val_def)
  qed
qed

lemma show_nat_inject [simp]: "show_nat m = show_nat n \<longleftrightarrow> m = n"
  by (metis read_nat_show)

lemma show_word_inject [simp]: "show_word v = show_word w \<longleftrightarrow> v = w"
  by (simp add: show_word_def word_unat_eq_iff)

lemma minus_not_digit: "\<not> is_digit_char CHR ''-''"
  by (simp add: is_digit_char_def)

lemma show_int_inject [simp]: "show_int i = show_int j \<longleftrightarrow> i = j"
proof
  assume eq: "show_int i = show_int j"
  have no_minus: "show_nat n \<noteq> CHR ''-'' # s" for n s
    using show_nat_digits [of "CHR ''-''" n] minus_not_digit by auto
  show "i = j"
    using eq no_minus no_minus [symmetric]
    by (auto simp: show_int_def split: if_splits)
qed simp

subsection \<open>Reading text\<close>

text \<open>Splitting at every occurrence of a character, and at the first one.\<close>

fun split_on :: "char \<Rightarrow> string \<Rightarrow> string list" where
  "split_on sep [] = [[]]"
| "split_on sep (c # cs) =
     (if c = sep then [] # split_on sep cs
      else case split_on sep cs of [] \<Rightarrow> [[c]] | p # ps \<Rightarrow> (c # p) # ps)"

fun split_once :: "char \<Rightarrow> string \<Rightarrow> (string \<times> string) option" where
  "split_once sep [] = None"
| "split_once sep (c # cs) =
     (if c = sep then Some ([], cs) else map_option (\<lambda>(a, b). (c # a, b)) (split_once sep cs))"

lemma split_on_none: "sep \<notin> set s \<Longrightarrow> split_on sep s = [s]"
  by (induction s) auto

lemma split_on_nonempty [simp]: "split_on sep s \<noteq> []"
  by (induction s) (auto split: list.splits)

lemma split_on_append: "sep \<notin> set s \<Longrightarrow> split_on sep (s @ sep # rest) = s # split_on sep rest"
  by (induction s) auto

lemma split_once_append: "sep \<notin> set s \<Longrightarrow> split_once sep (s @ sep # rest) = Some (s, rest)"
  by (induction s) auto

lemma split_on_parts: "p \<in> set (split_on sep s) \<Longrightarrow> sep \<notin> set p \<and> set p \<subseteq> set s"
proof (induction s arbitrary: p)
  case (Cons c s)
  then show ?case
    by (cases "split_on sep s") (fastforce split: if_splits)+
qed simp

text \<open>
  Rust's \<open>parse::<i64>()\<close>: an optional sign, then at least one digit and nothing else,
  within the range of the type.
\<close>

type_synonym i64 = "64 word"

definition parse_i64 :: "string \<Rightarrow> i64 option" where
  "parse_i64 s =
     (let negative = (s \<noteq> [] \<and> hd s = CHR ''-'');
          digits = (if s \<noteq> [] \<and> (hd s = CHR ''-'' \<or> hd s = CHR ''+'') then tl s else s);
          value = (if negative then - int (read_nat digits) else int (read_nat digits))
      in if digits = [] \<or> \<not> list_all is_digit_char digits then None
         else if value < - (2 ^ 63) \<or> 2 ^ 63 \<le> value then None
         else Some (word_of_int value))"

text \<open>An unsigned JSON integer that fits.\<close>

definition parse_u64 :: "string \<Rightarrow> u64 option" where
  "parse_u64 s =
     (if s = [] \<or> \<not> list_all is_digit_char s \<or> 2 ^ 64 \<le> read_nat s then None
      else Some (of_nat (read_nat s)))"

text \<open>Adding one, saturating at the largest value of the type.\<close>

definition sat_inc :: "'a::len word \<Rightarrow> 'a word" where
  "sat_inc w = (if w = - 1 then w else w + 1)"

lemma unat_sat_inc: "unat (sat_inc w) = (if w = - 1 then unat w else Suc (unat w))"
proof (cases "w = - 1")
  case False
  then have "1 + w \<noteq> 0"
    by (metis add.commute add_eq_0_iff)
  then show ?thesis
    using unatSuc [of w] False by (simp add: sat_inc_def add.commute)
qed (simp add: sat_inc_def)

lemma show_nat_no_sign: "hd (show_nat n) \<noteq> CHR ''-'' \<and> hd (show_nat n) \<noteq> CHR ''+''"
proof -
  have "is_digit_char (hd (show_nat n))"
    by (rule show_nat_digits [OF hd_in_set]) simp
  then show ?thesis
    by (auto simp: is_digit_char_def)
qed

lemma parse_i64_show [simp]: "parse_i64 (show_int (sint w)) = Some w"
proof -
  have r: "- (2 ^ 63) \<le> sint w" "sint w < 2 ^ 63" for w :: i64
    using sint_ge [of w] sint_lt [of w] by simp_all
  have d: "list_all is_digit_char (show_nat n)" for n
    by (auto simp: list_all_iff dest: show_nat_digits)
  show ?thesis
    using r [of w] show_nat_no_sign
    by (auto simp: parse_i64_def show_int_def Let_def d)
qed

subsection \<open>Lists, options and sums\<close>

lemma find_Some_iff_mem: "find P xs = Some x \<Longrightarrow> x \<in> set xs \<and> P x"
  by (induction xs) (auto split: if_splits)

lemma find_None_all: "find P xs = None \<longleftrightarrow> (\<forall>x \<in> set xs. \<not> P x)"
  by (auto simp: find_None_iff)

lemma filter_empty_all: "filter P xs = [] \<longleftrightarrow> (\<forall>x \<in> set xs. \<not> P x)"
  by (simp add: filter_empty_conv)

lemma find_distinct_key:
  "distinct (map f xs) \<Longrightarrow> x \<in> set xs \<Longrightarrow> find (\<lambda>y. f y = f x) xs = Some x"
  by (induction xs) (auto simp: image_iff)

text \<open>The first step of a \<open>?\<close>-chain: run the continuation on \<open>Ok\<close>, pass an error on.\<close>

fun and_then :: "'e + 'a \<Rightarrow> ('a \<Rightarrow> 'e + 'b) \<Rightarrow> 'e + 'b" where
  "and_then (Inr good) next_step = next_step good"
| "and_then (Inl bad) next_step = Inl bad"

lemma and_then_ok [outcome]:
  "and_then r k = Inr b \<longleftrightarrow> (\<exists>good. r = Inr good \<and> k good = Inr b)"
  by (cases r) simp_all

lemma and_then_err [outcome]:
  "and_then r k = Inl bad \<longleftrightarrow> (\<exists>good. r = Inr good \<and> k good = Inl bad) \<or> r = Inl bad"
  by (cases r) auto

definition is_ok :: "'e + 'a \<Rightarrow> bool" where
  "is_ok r = (case r of Inl _ \<Rightarrow> False | Inr _ \<Rightarrow> True)"

lemma is_ok_simps [simp]: "is_ok (Inr a)" "\<not> is_ok (Inl e)"
  by (simp_all add: is_ok_def)

lemma is_ok_iff: "is_ok r \<longleftrightarrow> (\<exists>a. r = Inr a)"
  by (cases r) auto

subsection \<open>Escaping\<close>

text \<open>
  An escape gives each character a text without control characters; it is a code when no
  character's text starts another's, and then nothing is lost.
\<close>

locale text_escape =
  fixes esc :: "char \<Rightarrow> string" and control :: "char \<Rightarrow> bool"
  assumes esc_safe: "d \<in> set (esc c) \<Longrightarrow> \<not> control d"
begin

lemma escaped_safe: "filter control (concat (map esc s)) = []"
  using esc_safe by (induction s) (auto simp: filter_empty_all)

end

locale text_code = text_escape +
  assumes esc_prefix_free: "prefix (esc c) (esc d) \<Longrightarrow> c = d"
begin

lemma esc_nonempty: "esc c \<noteq> []"
proof
  assume empty: "esc c = []"
  have "c = d" for d
    by (rule esc_prefix_free) (simp add: empty)
  then have "CHR ''a'' = CHR ''b''"
    by metis
  then show False
    by simp
qed

lemma escaped_inject: "concat (map esc s) = concat (map esc t) \<longleftrightarrow> s = t"
proof (induction s arbitrary: t)
  case Nil
  then show ?case
    by (cases t) (simp_all add: esc_nonempty)
next
  case (Cons c s)
  show ?case
  proof (cases t)
    case t: (Cons d u)
    have "c = d" if "esc c @ x = esc d @ y" for x y
    proof -
      have "prefix (esc c) (esc d) \<or> prefix (esc d) (esc c)"
        using that prefix_same_cases [of "esc c" "esc c @ x" "esc d"] by (metis prefixI)
      then show ?thesis
        using esc_prefix_free by blast
    qed
    then show ?thesis
      using Cons.IH [of u] by (auto simp: t)
  qed (simp add: esc_nonempty)
qed

end

end
