(* ===== verification/Ident.thy ===== *)
theory Ident
  imports Prelude
begin

text \<open>
  Identifiers and domain errors: \<open>crates/trace-core/src/id.rs\<close> and
  \<open>crates/trace-core/src/error.rs\<close>.  A ULID is the 128-bit number of the
  \<open>ulid\<close> package; its text form and its parser are that package's and are parameters,
  collected with the other library functions the domain model calls in the record
  \<open>externals\<close>.  The identifiers drawn from the clock and a random source
  (\<open>generate\<close>) are inputs of the operations that store them.
\<close>

section \<open>The libraries the domain model calls\<close>

type_synonym ulid = "128 word"

text \<open>
  \<open>ulid_text\<close>, \<open>ulid_from_string\<close> and \<open>ulid_timestamp_ms\<close> are the
  \<open>ulid\<close> package's; \<open>dbg_f64\<close> is the shortest-round-trip rendering of a double;
  \<open>rfc3339\<close> and \<open>num_seconds\<close> are the \<open>chrono\<close> package's.
\<close>

record externals =
  ulid_text :: "ulid \<Rightarrow> string"
  ulid_from_string :: "string \<Rightarrow> ulid option"
  ulid_timestamp_ms :: "ulid \<Rightarrow> u64"
  dbg_f64 :: "f64 \<Rightarrow> string"
  rfc3339 :: "utc \<Rightarrow> string"
  num_seconds :: "duration \<Rightarrow> int"

text \<open>What the \<open>ulid\<close> package documents: parsing the canonical text gives the number back.\<close>

definition ulid_text_parses :: "externals \<Rightarrow> bool" where
  "ulid_text_parses x \<longleftrightarrow> (\<forall>u. ulid_from_string x (ulid_text x u) = Some u)"

section \<open>Errors\<close>

datatype core_error =
    MalformedId string
  | InvalidRoute string
  | IllegalTransition string string
  | RetiredUid string
  | StationCannotServe string
  | ValueTypeMismatch string string
  | HashChainBroken u64 string string

text \<open>The message each error displays.\<close>

fun core_error_display :: "core_error \<Rightarrow> string" where
  "core_error_display (MalformedId s) = ''malformed identifier: '' @ s"
| "core_error_display (InvalidRoute s) = ''invalid route definition: '' @ s"
| "core_error_display (IllegalTransition from action) =
     ''illegal transition: unit is '' @ from @ '', cannot '' @ action"
| "core_error_display (RetiredUid s) =
     ''uid '' @ s @ '' is retired: scrapped units are never reissued''"
| "core_error_display (StationCannotServe station) =
     ''station '' @ station @ '' cannot serve unit at this point in its route''"
| "core_error_display (ValueTypeMismatch v dt) =
     ''value '' @ debug_string v @ '' is not valid for datatype '' @ dt"
| "core_error_display (HashChainBroken sq expected found) =
     ''hash chain broken at sequence '' @ show_word sq @ '': expected '' @ expected @ '', found ''
     @ found"

section \<open>Public identifiers\<close>

datatype public_id = PublicId ulid

fun public_id_parse :: "externals \<Rightarrow> string \<Rightarrow> core_error + public_id" where
  "public_id_parse x s =
     (case ulid_from_string x s of Some u \<Rightarrow> Inr (PublicId u) | None \<Rightarrow> Inl (MalformedId s))"

fun public_id_timestamp_ms :: "externals \<Rightarrow> public_id \<Rightarrow> u64" where
  "public_id_timestamp_ms x (PublicId u) = ulid_timestamp_ms x u"

fun as_ulid :: "public_id \<Rightarrow> ulid" where
  "as_ulid (PublicId u) = u"

fun public_id_display :: "externals \<Rightarrow> public_id \<Rightarrow> string" where
  "public_id_display x (PublicId u) = ulid_text x u"

text \<open>
  The newtypes the macro \<open>public_id_newtype\<close> declares.  Each has the same parser and
  the same display, through the public id it wraps.
\<close>

datatype unit_uid = UnitUid public_id
datatype event_id = EventId public_id
datatype measurement_id = MeasurementId public_id
datatype mark_id = MarkId public_id

fun unit_uid_display :: "externals \<Rightarrow> unit_uid \<Rightarrow> string" where
  "unit_uid_display x (UnitUid p) = public_id_display x p"

fun event_id_display :: "externals \<Rightarrow> event_id \<Rightarrow> string" where
  "event_id_display x (EventId p) = public_id_display x p"

fun measurement_id_display :: "externals \<Rightarrow> measurement_id \<Rightarrow> string" where
  "measurement_id_display x (MeasurementId p) = public_id_display x p"

fun mark_id_display :: "externals \<Rightarrow> mark_id \<Rightarrow> string" where
  "mark_id_display x (MarkId p) = public_id_display x p"

text \<open>The macro's parser, for the newtype whose constructor is \<open>mk\<close>.\<close>

definition newtype_parse ::
  "(public_id \<Rightarrow> 'a) \<Rightarrow> externals \<Rightarrow> string \<Rightarrow> core_error + 'a" where
  "newtype_parse mk x s = and_then (public_id_parse x s) (\<lambda>p. Inr (mk p))"

lemma public_id_round_trip:
  "ulid_text_parses x \<Longrightarrow> public_id_parse x (public_id_display x p) = Inr p"
  by (cases p) (simp add: ulid_text_parses_def)

lemma public_id_display_inject:
  "ulid_text_parses x \<Longrightarrow> public_id_display x p = public_id_display x q \<longleftrightarrow> p = q"
  by (metis public_id_round_trip sum.inject(2))

lemma unit_uid_display_inject:
  "ulid_text_parses x \<Longrightarrow> unit_uid_display x u = unit_uid_display x v \<longleftrightarrow> u = v"
  by (cases u; cases v) (simp add: public_id_display_inject)

section \<open>Codes\<close>

datatype code = Code string

fun as_str :: "code \<Rightarrow> string" where
  "as_str (Code s) = s"

text \<open>White space and upper case, on ASCII.\<close>

definition is_space :: "char \<Rightarrow> bool" where
  "is_space c \<longleftrightarrow> (let n = (of_char c :: nat) in n = 32 \<or> (9 \<le> n \<and> n \<le> 13))"

definition trim :: "string \<Rightarrow> string" where
  "trim s = rev (dropWhile is_space (rev (dropWhile is_space s)))"

definition upper_char :: "char \<Rightarrow> char" where
  "upper_char c = (let n = (of_char c :: nat) in if 97 \<le> n \<and> n \<le> 122 then char_of (n - 32) else c)"

definition to_uppercase :: "string \<Rightarrow> string" where
  "to_uppercase s = map upper_char s"

definition code_new :: "string \<Rightarrow> core_error + code" where
  "code_new raw =
     (let norm = to_uppercase (trim raw) in
      if norm = [] \<or> length norm > 64 then Inl (MalformedId raw) else Inr (Code norm))"

lemma of_char_of_small: "n < 256 \<Longrightarrow> (of_char (char_of (n :: nat) :: char) :: nat) = n"
  by simp

lemma upper_char_idem [simp]: "upper_char (upper_char c) = upper_char c"
proof -
  have "(of_char c :: nat) < 256"
    by (rule nat_of_char_less_256)
  then show ?thesis
    by (auto simp: upper_char_def Let_def)
qed

lemma is_space_upper [simp]: "is_space (upper_char c) = is_space c"
proof -
  have "(of_char c :: nat) < 256"
    by (rule nat_of_char_less_256)
  then show ?thesis
    by (auto simp: upper_char_def is_space_def Let_def)
qed

text \<open>Text that starts and ends with a visible character, which is what trimming leaves.\<close>

definition trimmed :: "string \<Rightarrow> bool" where
  "trimmed s \<longleftrightarrow> s = [] \<or> (\<not> is_space (hd s) \<and> \<not> is_space (last s))"

lemma trimmed_trim: "trimmed (trim s)"
proof -
  let ?a = "dropWhile is_space s"
  let ?b = "dropWhile is_space (rev ?a)"
  have last: "?b \<noteq> [] \<Longrightarrow> \<not> is_space (hd ?b)"
    by (metis hd_dropWhile)
  have "?b \<noteq> [] \<Longrightarrow> \<not> is_space (last ?b)"
  proof -
    assume b: "?b \<noteq> []"
    have "last ?b = last (rev ?a)"
      using b by (metis dropWhile_eq_Nil_conv last_appendR takeWhile_dropWhile_id)
    moreover have "?a \<noteq> []"
      using b by fastforce
    ultimately show "\<not> is_space (last ?b)"
      by (metis hd_dropWhile last_rev)
  qed
  with last show ?thesis
    by (auto simp: trimmed_def trim_def hd_rev last_rev)
qed

lemma trim_trimmed: "trimmed s \<Longrightarrow> trim s = s"
  unfolding trim_def trimmed_def by (metis dropWhile_eq_self_iff hd_rev rev_is_Nil_conv rev_rev_ident)

lemma trim_upper: "trim (to_uppercase s) = to_uppercase (trim s)"
  by (simp add: trim_def to_uppercase_def dropWhile_map rev_map o_def)

lemma to_uppercase_idem [simp]: "to_uppercase (to_uppercase s) = to_uppercase s"
  by (simp add: to_uppercase_def)

lemma code_new_normal:
  assumes "code_new s = Inr c"
  shows "as_str c = to_uppercase (trim s)" and "trim (as_str c) = as_str c"
    and "to_uppercase (as_str c) = as_str c" and "as_str c \<noteq> []" and "length (as_str c) \<le> 64"
proof -
  show norm: "as_str c = to_uppercase (trim s)"
    using assms by (auto simp: code_new_def Let_def split: if_splits)
  show "trim (as_str c) = as_str c"
    by (simp add: norm trim_upper trim_trimmed [OF trimmed_trim])
  show "to_uppercase (as_str c) = as_str c" "as_str c \<noteq> []" "length (as_str c) \<le> 64"
    using assms by (auto simp: norm code_new_def Let_def split: if_splits)
qed

end
