(* ===== verification/Clock.thy ===== *)
theory Clock
  imports Ident
begin

text \<open>
  Clock discipline: \<open>crates/trace-core/src/clock.rs\<close>.  Every runtime row carries the
  device's time and the edge's; the skew between them is flagged, never rejected.
\<close>

definition DEFAULT_SKEW_THRESHOLD_SECS :: int where
  "DEFAULT_SKEW_THRESHOLD_SECS = 30"

record stamps =
  recorded_at :: utc
  received_at :: utc

definition stamps_new :: "utc \<Rightarrow> utc \<Rightarrow> stamps" where
  "stamps_new recorded received = \<lparr>recorded_at = recorded, received_at = received\<rparr>"

definition skew :: "stamps \<Rightarrow> duration" where
  "skew s = recorded_at s - received_at s"

definition is_skewed :: "externals \<Rightarrow> stamps \<Rightarrow> int \<Rightarrow> bool" where
  "is_skewed x s threshold_secs \<longleftrightarrow> \<bar>num_seconds x (skew s)\<bar> > threshold_secs"

definition is_skewed_default :: "externals \<Rightarrow> stamps \<Rightarrow> bool" where
  "is_skewed_default x s = is_skewed x s DEFAULT_SKEW_THRESHOLD_SECS"

definition spool_latency :: "stamps \<Rightarrow> duration" where
  "spool_latency s = (let d = received_at s - recorded_at s in if d < 0 then 0 else d)"

text \<open>What \<open>chrono\<close> documents of \<open>num_seconds\<close>: whole seconds, truncated towards zero.\<close>

definition whole_seconds :: "externals \<Rightarrow> bool" where
  "whole_seconds x \<longleftrightarrow> (\<forall>d. num_seconds x d = trunc_div d nanos_per_sec)"

lemma le_div_iff_mult_le_pos: "m \<le> n div k \<longleftrightarrow> m * k \<le> n" if k: "0 < k" for m n k :: int
proof
  have split: "n = k * (n div k) + n mod k" "0 \<le> n mod k" "n mod k < k"
    using k by simp_all
  show "m * k \<le> n" if "m \<le> n div k"
  proof -
    have "k * m \<le> k * (n div k)"
      using that k by (intro mult_left_mono) auto
    then show ?thesis
      using split by (simp only: mult.commute [of m k])
  qed
  show "m \<le> n div k" if "m * k \<le> n"
  proof (rule ccontr)
    assume "\<not> m \<le> n div k"
    then have "k * (n div k + 1) \<le> k * m"
      using k by (intro mult_left_mono) auto
    then show False
      using that split by (simp add: algebra_simps)
  qed
qed

lemma is_skewed_nanos:
  assumes "whole_seconds x"
  shows "is_skewed x s t \<longleftrightarrow> (t + 1) * nanos_per_sec \<le> \<bar>recorded_at s - received_at s\<bar>"
proof -
  have pos: "0 < nanos_per_sec"
    by (simp add: nanos_per_sec_def)
  have "\<bar>num_seconds x (skew s)\<bar> = \<bar>skew s\<bar> div nanos_per_sec"
    using assms pos by (simp add: whole_seconds_def abs_trunc_div)
  moreover have "t < n div nanos_per_sec \<longleftrightarrow> (t + 1) * nanos_per_sec \<le> n" for n
    using pos by (metis add1_zle_eq le_div_iff_mult_le_pos)
  ultimately show ?thesis
    by (simp add: is_skewed_def skew_def)
qed

text \<open>
  An event is flagged exactly when the two clocks differ by more than the threshold in whole
  seconds, in either direction; which of the two ran ahead does not matter, and an event whose
  latency in the spool is zero or more than it was early is the same event seen from the other
  side.
\<close>

lemma skew_flag_exact:
  assumes "whole_seconds x"
  shows "is_skewed_default x s \<longleftrightarrow> 31 * nanos_per_sec \<le> max (spool_latency s) (skew s)"
  using is_skewed_nanos [OF assms, of s 30]
  by (auto simp: is_skewed_default_def DEFAULT_SKEW_THRESHOLD_SECS_def spool_latency_def skew_def
      nanos_per_sec_def Let_def)

text \<open>The sources of time: \<open>system\<close> is what the system clock shows.\<close>

datatype clock = SystemClock | FixedClock utc

fun clock_now :: "utc \<Rightarrow> clock \<Rightarrow> utc" where
  "clock_now system SystemClock = system"
| "clock_now system (FixedClock t) = t"

definition demo_externals :: externals where
  "demo_externals = \<lparr>ulid_text = (\<lambda>u. show_nat (unat u)),
     ulid_from_string = (\<lambda>s. Some (of_nat (read_nat s))), ulid_timestamp_ms = (\<lambda>u. ucast (drop_bit 80 u)),
     dbg_f64 = (\<lambda>_. ''0.0''), rfc3339 = show_int, num_seconds = (\<lambda>d. trunc_div d nanos_per_sec)\<rparr>"

lemma skew_flag_exact_witness:
  "\<not> is_skewed_default demo_externals \<lparr>recorded_at = 30999999999, received_at = 0\<rparr>"
proof -
  have "whole_seconds demo_externals"
    by (simp add: whole_seconds_def demo_externals_def)
  from skew_flag_exact [OF this, of "\<lparr>recorded_at = 30999999999, received_at = 0\<rparr>"] show ?thesis
    by (simp add: spool_latency_def skew_def nanos_per_sec_def)
qed

end
