(* ===== verification/Dcp.thy ===== *)
theory Dcp
  imports Ident
begin

text \<open>
  Data collection points: \<open>crates/trace-core/src/dcp.rs\<close>.  What must be captured at an
  operation, the limits it is judged by, and the verdict on a captured value.
\<close>

datatype data_type = DT_Numeric | DT_Text | DT_Boolean | DT_Barcode

fun data_type_name :: "data_type \<Rightarrow> string" where
  "data_type_name DT_Numeric = ''NUMERIC''"
| "data_type_name DT_Text = ''TEXT''"
| "data_type_name DT_Boolean = ''BOOLEAN''"
| "data_type_name DT_Barcode = ''BARCODE''"

datatype value_source = Src_Device | Src_Manual

datatype val = V_Numeric f64 | V_Text string | V_Boolean bool | V_Barcode string

fun datatype_of :: "val \<Rightarrow> data_type" where
  "datatype_of (V_Numeric _) = DT_Numeric"
| "datatype_of (V_Text _) = DT_Text"
| "datatype_of (V_Boolean _) = DT_Boolean"
| "datatype_of (V_Barcode _) = DT_Barcode"

fun as_numeric :: "val \<Rightarrow> f64 option" where
  "as_numeric (V_Numeric n) = Some n"
| "as_numeric _ = None"

fun show_bool :: "bool \<Rightarrow> string" where
  "show_bool True = ''true''"
| "show_bool False = ''false''"

fun canonical :: "externals \<Rightarrow> val \<Rightarrow> string" where
  "canonical x (V_Numeric n) = dbg_f64 x n"
| "canonical x (V_Text s) = s"
| "canonical x (V_Barcode s) = s"
| "canonical x (V_Boolean b) = show_bool b"

record limits =
  lim_min :: "f64 option"
  lim_max :: "f64 option"
  lim_nominal :: "f64 option"

fun is_none_or :: "('a \<Rightarrow> bool) \<Rightarrow> 'a option \<Rightarrow> bool" where
  "is_none_or P None = True"
| "is_none_or P (Some a) = P a"

definition accepts :: "limits \<Rightarrow> f64 \<Rightarrow> bool" where
  "accepts l v =
     (if is_nan v then False
      else is_none_or (\<lambda>m. f64_le m v) (lim_min l) \<and> is_none_or (\<lambda>m. f64_le v m) (lim_max l))"

definition is_bounded :: "limits \<Rightarrow> bool" where
  "is_bounded l \<longleftrightarrow> lim_min l \<noteq> None \<or> lim_max l \<noteq> None"

definition is_coherent :: "limits \<Rightarrow> bool" where
  "is_coherent l =
     (case (lim_min l, lim_max l) of (Some a, Some b) \<Rightarrow> f64_le a b | _ \<Rightarrow> True)"

datatype sample_rule = Every | FirstOff | EveryNth u32

fun applies_to :: "sample_rule \<Rightarrow> u64 \<Rightarrow> bool" where
  "applies_to Every i = True"
| "applies_to FirstOff i = (i = 0)"
| "applies_to (EveryNth n) i = (if n = 0 then True else i mod ucast n = 0)"

record data_collection_point =
  dcp_id :: row_id
  dcp_name :: string
  dcp_label :: string
  dcp_unit :: "string option"
  dcp_datatype :: data_type
  dcp_limits :: limits
  dcp_sample_rule :: sample_rule
  dcp_mandatory :: bool
  dcp_device_id :: "row_id option"

datatype verdict = V_Pass | V_Fail

definition is_pass :: "verdict \<Rightarrow> bool" where
  "is_pass v \<longleftrightarrow> v = V_Pass"

definition evaluate :: "externals \<Rightarrow> data_collection_point \<Rightarrow> val \<Rightarrow> core_error + verdict" where
  "evaluate x d v =
     (if datatype_of v \<noteq> dcp_datatype d
      then Inl (ValueTypeMismatch (canonical x v) (data_type_name (dcp_datatype d)))
      else Inr (case v of
          V_Numeric n \<Rightarrow>
            if is_bounded (dcp_limits d)
            then (if accepts (dcp_limits d) n then V_Pass else V_Fail) else V_Pass
        | _ \<Rightarrow> V_Pass))"

section \<open>Limits\<close>

lemma accepts_iff:
  "accepts l v \<longleftrightarrow> \<not> is_nan v \<and> (\<forall>m. lim_min l = Some m \<longrightarrow> f64_le m v)
     \<and> (\<forall>m. lim_max l = Some m \<longrightarrow> f64_le v m)"
  by (cases "lim_min l"; cases "lim_max l") (auto simp: accepts_def)

text \<open>Limits that accept anything are coherent: an incoherent pair fails every reading.\<close>

lemma accepts_coherent: "accepts l v \<Longrightarrow> is_coherent l"
  by (auto simp: accepts_iff is_coherent_def intro: f64_le_trans split: option.splits)

text \<open>The accepted readings are an interval.\<close>

lemma accepts_convex:
  "accepts l a \<Longrightarrow> accepts l b \<Longrightarrow> f64_le a v \<Longrightarrow> f64_le v b \<Longrightarrow> accepts l v"
  unfolding accepts_iff by (meson f64_le_not_nan f64_le_trans)

lemma evaluate_mismatch_iff:
  "(\<exists>e. evaluate x d v = Inl e) \<longleftrightarrow> datatype_of v \<noteq> dcp_datatype d"
  by (simp add: evaluate_def)

lemma evaluate_fail_iff:
  "evaluate x d v = Inr V_Fail \<longleftrightarrow>
     datatype_of v = dcp_datatype d \<and> is_bounded (dcp_limits d) \<and>
     (\<exists>n. v = V_Numeric n \<and> \<not> accepts (dcp_limits d) n)"
  by (cases v) (auto simp: evaluate_def)

text \<open>A reading violates limits that are set: it is no number, or beyond one of the bounds.\<close>

definition violates :: "limits \<Rightarrow> f64 \<Rightarrow> bool" where
  "violates l n \<longleftrightarrow>
     (\<exists>m. (lim_min l = Some m \<and> \<not> f64_le m n) \<or> (lim_max l = Some m \<and> \<not> f64_le n m))"

lemma violates_nan: "is_bounded l \<Longrightarrow> violates l F_NaN"
  by (auto simp: violates_def is_bounded_def)

lemma violates_iff: "violates l n \<longleftrightarrow> is_bounded l \<and> \<not> accepts l n"
  using violates_nan [of l] by (auto simp: violates_def accepts_iff is_bounded_def is_nan_def)

text \<open>
  A reading is recorded as the unit's fault only when it is a number, of the declared
  datatype, beyond a configured bound (or no number at all, when a bound is configured); every
  other value of the declared datatype passes, and a value of another datatype is an error,
  never a failure.
\<close>

theorem evaluate_outcomes:
  "(case evaluate x d v of
      Inl e \<Rightarrow> datatype_of v \<noteq> dcp_datatype d
        \<and> e = ValueTypeMismatch (canonical x v) (data_type_name (dcp_datatype d))
    | Inr res \<Rightarrow> datatype_of v = dcp_datatype d
        \<and> (res = V_Fail \<longleftrightarrow> (\<exists>n. v = V_Numeric n \<and> violates (dcp_limits d) n)))"
  by (cases v) (auto simp: evaluate_def violates_iff)

section \<open>Sampling\<close>

lemma applies_to_nth:
  "n \<noteq> 0 \<Longrightarrow> applies_to (EveryNth n) i \<longleftrightarrow> unat n dvd unat i"
  by (simp add: word_unat_eq_iff unat_mod dvd_eq_mod_eq_0)

text \<open>
  A rule that captures every \<open>n\<close>-th unit captures exactly one unit of every run of
  \<open>n\<close> consecutive units of the job card, wherever the run starts.
\<close>

theorem every_nth_one_per_window:
  assumes "n \<noteq> 0" and "s + unat n \<le> 2 ^ 64"
  shows "\<exists>!j. s \<le> j \<and> j < s + unat n \<and> applies_to (EveryNth n) (of_nat j)"
proof -
  let ?n = "unat n"
  have pos: "0 < ?n"
    using assms(1) by (simp add: unat_gt_0)
  have ap: "applies_to (EveryNth n) (of_nat j) \<longleftrightarrow> ?n dvd j" if "j < s + ?n" for j
    using that assms by (simp add: applies_to_nth unat_of_nat_small del: applies_to.simps)
  let ?j = "?n * ((s + ?n - 1) div ?n)"
  have "?j + (s + ?n - 1) mod ?n = s + ?n - 1" "(s + ?n - 1) mod ?n < ?n"
    using pos by (simp_all only: mult_div_mod_eq mod_less_divisor)
  then have j: "s \<le> ?j" "?j < s + ?n"
    using pos by linarith+
  have uniq: "i = ?j" if "s \<le> i" "i < s + ?n" "?n dvd i" for i
  proof -
    from that(3) obtain k where k: "i = ?n * k"
      by blast
    let ?q = "(s + ?n - 1) div ?n"
    have "?n * k < ?n * (?q + 1)" "?n * ?q < ?n * (k + 1)"
      using that j k by (simp_all add: algebra_simps)
    then have "k < ?q + 1" "?q < k + 1"
      using pos by (meson mult_less_cancel1)+
    then show ?thesis
      using k by simp
  qed
  show ?thesis
  proof (rule ex1I)
    show "s \<le> ?j \<and> ?j < s + ?n \<and> applies_to (EveryNth n) (of_nat ?j)"
      using j ap [OF j(2)] dvd_triv_left by blast
    show "i = ?j" if "s \<le> i \<and> i < s + ?n \<and> applies_to (EveryNth n) (of_nat i)" for i
      using that ap uniq by blast
  qed
qed

lemma every_nth_one_per_window_witness:
  "\<exists>!j. 7 \<le> j \<and> j < 7 + unat (5::u32) \<and> applies_to (EveryNth 5) (of_nat j)"
  by (rule every_nth_one_per_window) simp_all

end
