(* ===== verification/Config.thy ===== *)
theory Config
  imports Ident
begin

text \<open>
  Configuration entities: \<open>crates/trace-core/src/config.rs\<close>.  Everything here is data
  loaded from the database; a \<open>BTreeSet\<close> of surrogate keys is a set.
\<close>

record tenant =
  tenant_id :: row_id
  tenant_code :: code
  tenant_name :: string

record plant =
  plant_id :: row_id
  plant_tenant_id :: row_id
  plant_code :: code
  plant_name :: string
  plant_trace_base_url :: string

record line =
  line_id :: row_id
  line_plant_id :: row_id
  line_code :: code
  line_name :: string

record station =
  station_id :: row_id
  station_line_id :: row_id
  station_code :: code
  station_name :: string
  station_operations :: "row_id set"
  station_active :: bool

definition can_perform :: "station \<Rightarrow> row_id \<Rightarrow> bool" where
  "can_perform s operation_def_id \<longleftrightarrow> operation_def_id \<in> station_operations s"

record product =
  product_id :: row_id
  product_tenant_id :: row_id
  product_model_no :: code
  product_name :: string

datatype mark_method = LaserDpm | Label | Both | NoMark

datatype material = Aluminium | Plastic | Steel | Pcb | Other

record product_revision =
  rev_id :: row_id
  rev_product_id :: row_id
  rev_revision :: code
  rev_material :: material
  rev_mark_method :: mark_method
  rev_min_mark_grade :: "char option"
  rev_active :: bool

datatype tracking_mode = Serialised | LotTracked | NonTracked

record bom_line =
  bl_id :: row_id
  bl_position :: string
  bl_part_no :: code
  bl_qty :: f64
  bl_tracking :: tracking_mode

record bom =
  bom_id :: row_id
  bom_product_revision_id :: row_id
  bom_revision :: code
  bom_lines :: "bom_line list"

definition line_for_part :: "bom \<Rightarrow> string \<Rightarrow> bom_line option" where
  "line_for_part b part_no = find (\<lambda>l. as_str (bl_part_no l) = part_no) (bom_lines b)"

record operator =
  opr_id :: row_id
  opr_tenant_id :: row_id
  opr_username :: string
  opr_display_name :: string
  opr_certifications :: "row_id set"
  opr_active :: bool

definition is_certified_for :: "operator \<Rightarrow> row_id \<Rightarrow> bool" where
  "is_certified_for p skill \<longleftrightarrow> skill \<in> opr_certifications p"

text \<open>The line found carries the part number; none is found only when no line carries it.\<close>

lemma line_for_part_Some:
  "line_for_part b n = Some l \<Longrightarrow> l \<in> set (bom_lines b) \<and> as_str (bl_part_no l) = n"
  unfolding line_for_part_def using find_Some_iff_mem by fastforce

lemma line_for_part_None:
  "line_for_part b n = None \<longleftrightarrow> (\<forall>l \<in> set (bom_lines b). as_str (bl_part_no l) \<noteq> n)"
  by (simp add: line_for_part_def find_None_all)

end
