(* ===== verification/JobCard.thy ===== *)
theory JobCard
  imports Ident
begin

text \<open>
  Job cards and the sources they come from: \<open>crates/trace-core/src/jobcard.rs\<close>.  The
  trait \<open>JobCardSource\<close> is the locale \<open>job_card_source\<close>: what every caller
  relies on is that a resolved card is the one asked for and that a miss names what was asked.
\<close>

type_synonym i32 = "32 word"

record job_card =
  jc_id :: row_id
  jc_tenant_id :: row_id
  jc_number :: code
  jc_product_revision_id :: row_id
  jc_qty :: u32
  jc_priority :: i32
  jc_due_date :: "utc option"
  jc_external_ref :: "string option"

datatype job_card_error =
    JC_NotFound string
  | JC_NotImplemented string
  | JC_Source string

section \<open>The sources\<close>

record local_source =
  cards :: "job_card list"

definition local_new :: "job_card list \<Rightarrow> local_source" where
  "local_new cs = \<lparr>cards = cs\<rparr>"

definition local_insert :: "local_source \<Rightarrow> job_card \<Rightarrow> local_source" where
  "local_insert src c = src\<lparr>cards := cards src @ [c]\<rparr>"

definition local_resolve :: "local_source \<Rightarrow> code \<Rightarrow> job_card_error + job_card" where
  "local_resolve src number =
     (case find (\<lambda>c. jc_number c = number) (cards src) of
        Some c \<Rightarrow> Inr c
      | None \<Rightarrow> Inl (JC_NotFound (as_str number)))"

definition mes_resolve :: "unit \<Rightarrow> code \<Rightarrow> job_card_error + job_card" where
  "mes_resolve src number = Inl (JC_NotImplemented ''MES'')"

definition erp_resolve :: "unit \<Rightarrow> code \<Rightarrow> job_card_error + job_card" where
  "erp_resolve src number = Inl (JC_NotImplemented ''ERP'')"

text \<open>A boxed source of any of the three kinds, and what the trait's two methods dispatch to.\<close>

datatype any_source = LocalSource local_source | MesSource | ErpSource

fun any_resolve :: "any_source \<Rightarrow> code \<Rightarrow> job_card_error + job_card" where
  "any_resolve (LocalSource src) number = local_resolve src number"
| "any_resolve MesSource number = mes_resolve () number"
| "any_resolve ErpSource number = erp_resolve () number"

fun any_name :: "any_source \<Rightarrow> string" where
  "any_name (LocalSource _) = ''local''"
| "any_name MesSource = ''mes''"
| "any_name ErpSource = ''erp''"

section \<open>The interface\<close>

locale job_card_source =
  fixes resolve :: "'s \<Rightarrow> code \<Rightarrow> job_card_error + job_card"
  assumes resolved_number: "resolve s n = Inr c \<Longrightarrow> jc_number c = n"
    and miss_names_request: "resolve s n = Inl (JC_NotFound m) \<Longrightarrow> m = as_str n"
begin

lemma card_has_one_number: "resolve s n = Inr c \<Longrightarrow> resolve s' m = Inr c \<Longrightarrow> n = m"
  using resolved_number by blast

lemma miss_has_one_number:
  "resolve s n = Inl (JC_NotFound t) \<Longrightarrow> resolve s' m = Inl (JC_NotFound t) \<Longrightarrow> n = m"
  using miss_names_request by (metis as_str.elims)

end

interpretation local_src: job_card_source local_resolve
proof
  fix s n c
  show "local_resolve s n = Inr c \<Longrightarrow> jc_number c = n"
    using find_Some_iff_mem by (fastforce simp: local_resolve_def split: option.splits)
qed (auto simp: local_resolve_def split: option.splits)

interpretation mes_src: job_card_source mes_resolve
  by unfold_locales (auto simp: mes_resolve_def)

interpretation erp_src: job_card_source erp_resolve
  by unfold_locales (auto simp: erp_resolve_def)

text \<open>Behind the trait a caller need not know which source it holds.\<close>

interpretation any_src: job_card_source any_resolve
proof
  show "any_resolve s n = Inr c \<Longrightarrow> jc_number c = n" for s n c
    by (cases s) (auto dest: local_src.resolved_number mes_src.resolved_number erp_src.resolved_number)
  show "any_resolve s n = Inl (JC_NotFound m) \<Longrightarrow> m = as_str n" for s n m
    by (cases s) (auto dest: local_src.miss_names_request mes_src.miss_names_request erp_src.miss_names_request)
qed

lemma local_resolve_insert:
  "local_resolve (local_insert src c) n =
     (case local_resolve src n of
        Inr d \<Rightarrow> Inr d
      | Inl e \<Rightarrow> if jc_number c = n then Inr c else Inl e)"
proof -
  have "find P (xs @ [c]) = (case find P xs of Some d \<Rightarrow> Some d | None \<Rightarrow> if P c then Some c else None)"
    for P and xs :: "job_card list"
    by (induction xs) auto
  then show ?thesis
    by (auto simp: local_resolve_def local_insert_def split: option.splits)
qed

text \<open>
  Adding cards to a local source never changes what an earlier number resolves to, and a card
  whose number was not taken resolves to itself.
\<close>

theorem local_insert_stable:
  "(case local_resolve src n of
      Inr d \<Rightarrow> local_resolve (local_insert src c) n = Inr d \<and> jc_number d = n
    | Inl e \<Rightarrow> e = JC_NotFound (as_str n)
        \<and> (local_resolve (local_insert src c) n = Inr c \<longleftrightarrow> jc_number c = n))"
proof (cases "local_resolve src n")
  case (Inl e)
  then have "e = JC_NotFound (as_str n)"
    by (simp add: local_resolve_def split: option.splits)
  with Inl show ?thesis
    by (simp add: local_resolve_insert)
next
  case (Inr d)
  then show ?thesis
    using local_src.resolved_number [OF Inr] by (simp add: local_resolve_insert)
qed

end
