(* ===== verification/BTree.thy ===== *)
theory BTree
  imports Prelude
begin

text \<open>
  \<open>std::collections::BTreeMap\<close> as the ordered association list its iterators walk.
  The interface its users rely on is the locale \<open>ordered_map\<close>, interpreted on the
  list operations at the end.
\<close>

type_synonym ('k, 'v) btree = "('k \<times> 'v) list"

fun bt_insert :: "'k::linorder \<Rightarrow> 'v \<Rightarrow> ('k, 'v) btree \<Rightarrow> ('k, 'v) btree" where
  "bt_insert k v [] = [(k, v)]"
| "bt_insert k v ((k', v') # m) =
     (if k < k' then (k, v) # (k', v') # m
      else if k = k' then (k, v) # m
      else (k', v') # bt_insert k v m)"

definition bt_get :: "('k, 'v) btree \<Rightarrow> 'k \<Rightarrow> 'v option" where
  "bt_get m k = map_of m k"

definition bt_keys :: "('k, 'v) btree \<Rightarrow> 'k list" where
  "bt_keys m = map fst m"

text \<open>Writing through \<open>get_mut\<close>: the entry keeps its place.\<close>

fun bt_set :: "'k \<Rightarrow> 'v \<Rightarrow> ('k, 'v) btree \<Rightarrow> ('k, 'v) btree" where
  "bt_set k v [] = []"
| "bt_set k v ((k', v') # m) = (if k = k' then (k, v) # m else (k', v') # bt_set k v m)"

text \<open>Collecting an iterator of pairs: each pair is inserted in turn, so a later one wins.\<close>

definition bt_collect :: "('k::linorder \<times> 'v) list \<Rightarrow> ('k, 'v) btree" where
  "bt_collect kvs = fold (\<lambda>(k, v). bt_insert k v) kvs []"

text \<open>What every tree built by insertion satisfies: its keys ascend strictly.\<close>

definition bt_ok :: "('k::linorder, 'v) btree \<Rightarrow> bool" where
  "bt_ok m \<longleftrightarrow> sorted_wrt (<) (map fst m)"

section \<open>The interface\<close>

locale ordered_map =
  fixes emp :: "'m"
    and ins :: "'k::linorder \<Rightarrow> 'v \<Rightarrow> 'm \<Rightarrow> 'm"
    and get :: "'m \<Rightarrow> 'k \<Rightarrow> 'v option"
    and keys :: "'m \<Rightarrow> 'k list"
    and ok :: "'m \<Rightarrow> bool"
  assumes ok_emp: "ok emp"
    and ok_ins: "ok m \<Longrightarrow> ok (ins k v m)"
    and get_emp: "get emp k = None"
    and get_ins: "ok m \<Longrightarrow> get (ins k v m) k' = (if k' = k then Some v else get m k')"
    and keys_ascend: "ok m \<Longrightarrow> sorted_wrt (<) (keys m)"
    and set_keys: "ok m \<Longrightarrow> set (keys m) = {k. get m k \<noteq> None}"
    and determined: "ok m \<Longrightarrow> ok m' \<Longrightarrow> (\<And>k. get m k = get m' k) \<Longrightarrow> m = m'"
begin

lemma keys_distinct: "ok m \<Longrightarrow> distinct (keys m)"
  using keys_ascend strict_sorted_iff by blast

lemma ok_fold: "ok m \<Longrightarrow> ok (fold (\<lambda>(k, v). ins k v) kvs m)"
  by (induction kvs arbitrary: m) (auto simp: ok_ins)

lemma get_fold:
  "ok m \<Longrightarrow> get (fold (\<lambda>(k, v). ins k v) kvs m) k =
     (case map_of (rev kvs) k of Some v \<Rightarrow> Some v | None \<Rightarrow> get m k)"
proof (induction kvs arbitrary: m)
  case (Cons kv kvs)
  then show ?case
    by (cases kv) (auto simp: ok_ins get_ins map_add_def split: option.splits)
qed simp

text \<open>The pairs inserted determine the map: their order matters only among equal keys.\<close>

lemma fold_permuted:
  assumes "distinct (map fst kvs)" and "distinct (map fst kvs')" and "set kvs = set kvs'"
  shows "fold (\<lambda>(k, v). ins k v) kvs emp = fold (\<lambda>(k, v). ins k v) kvs' emp"
proof (rule determined)
  fix k
  have "map_of (rev kvs) = map_of (rev kvs')"
    using assms by (intro map_of_inject_set [THEN iffD2]) (simp_all add: rev_map [symmetric])
  then show "get (fold (\<lambda>(k, v). ins k v) kvs emp) k = get (fold (\<lambda>(k, v). ins k v) kvs' emp) k"
    by (simp add: get_fold ok_emp)
qed (simp_all add: ok_fold ok_emp)

end

section \<open>The list implementation provides it\<close>

lemma bt_keys_insert: "set (map fst (bt_insert k v m)) = insert k (set (map fst m))"
  by (induction k v m rule: bt_insert.induct) auto

lemma bt_ok_insert [keeps]: "bt_ok m \<Longrightarrow> bt_ok (bt_insert k v m)"
  unfolding bt_ok_def
proof (induction k v m rule: bt_insert.induct)
  case (2 k v k' v' m)
  then show ?case
    using bt_keys_insert [of k v m] by (auto simp del: set_map)
qed simp

lemma bt_get_insert:
  "bt_ok m \<Longrightarrow> bt_get (bt_insert k v m) k' = (if k' = k then Some v else bt_get m k')"
  unfolding bt_ok_def bt_get_def by (induction k v m rule: bt_insert.induct) auto

lemma bt_determined:
  assumes "bt_ok m" and "bt_ok m'" and "\<And>k. bt_get m k = bt_get m' k"
  shows "m = m'"
proof -
  have d: "distinct (map fst m)" "distinct (map fst m')"
      and s: "sorted (map fst m)" "sorted (map fst m')"
    using assms(1,2) by (simp_all add: bt_ok_def strict_sorted_iff)
  have "map_of m = map_of m'"
    using assms(3) by (auto simp: bt_get_def)
  then have set_eq: "set m = set m'"
    using d map_of_inject_set by blast
  then have "inj_on fst (set m \<union> set m')"
    using d(1) by (simp add: distinct_map)
  then show ?thesis
    using map_sorted_distinct_set_unique s d set_eq by blast
qed

interpretation bt: ordered_map "[]" bt_insert bt_get bt_keys bt_ok
proof unfold_locales
  fix m :: "('a::linorder, 'b) btree"
  show "bt_ok m \<Longrightarrow> set (bt_keys m) = {k. bt_get m k \<noteq> None}"
    by (auto simp: bt_keys_def bt_get_def map_of_eq_None_iff)
qed (auto simp: bt_ok_insert bt_get_insert bt_determined bt_ok_def [of "[]"] bt_get_def [of "[]"],
     simp add: bt_ok_def bt_keys_def)

lemma bt_keys_set [simp]: "bt_keys (bt_set k v m) = bt_keys m"
  by (induction m) (auto simp: bt_keys_def)

lemma bt_get_set:
  "bt_get (bt_set k v m) k' = (if k' = k \<and> bt_get m k \<noteq> None then Some v else bt_get m k')"
  by (induction m) (auto simp: bt_get_def)

lemma bt_ok_set [keeps]: "bt_ok m \<Longrightarrow> bt_ok (bt_set k v m)"
  using bt_keys_set [of k v m] by (simp add: bt_ok_def bt_keys_def)

lemma bt_collect_ok [keeps]: "bt_ok (bt_collect kvs)"
  unfolding bt_collect_def by (rule bt.ok_fold [OF bt.ok_emp])

lemma bt_get_collect: "bt_get (bt_collect kvs) k = map_of (rev kvs) k"
  unfolding bt_collect_def by (simp add: bt.get_fold bt.ok_emp bt.get_emp split: option.splits)

end
