(* ===== verification/Route.thy ===== *)
theory Route
  imports Ident BTree
begin

text \<open>
  Routes: \<open>crates/trace-core/src/route.rs\<close>.  A route is a directed graph of operations,
  declared by explicit predecessors, validated once when it is loaded.  The set of completed
  operations (\<open>BTreeSet<OperationSeq>\<close>) is a set.  The \<open>usize\<close> counters of the
  cycle detector are natural numbers, and a subtraction below zero, which panics, is the value
  \<open>None\<close>; \<open>validate_returns\<close> shows that it never happens.
\<close>

type_synonym operation_seq = u32

record operation_def =
  od_id :: row_id
  od_name :: string
  od_label :: string
  od_dcp_ids :: "row_id list"
  od_required_skill :: "row_id option"

datatype requirement = Required | Optional

datatype failure_path =
    Retry u32
  | Rework operation_seq "operation_seq list"
  | Quarantine
  | Scrap

datatype gate =
    Identity
  | OperatorAuth
  | Precondition
  | ComponentVerify "row_id list"
  | DataCapture
  | TestPass string
  | MarkVerified
  | InterlockOut row_id

fun gate_kind :: "gate \<Rightarrow> string" where
  "gate_kind Identity = ''IDENTITY''"
| "gate_kind OperatorAuth = ''OPERATOR_AUTH''"
| "gate_kind Precondition = ''PRECONDITION''"
| "gate_kind (ComponentVerify _) = ''COMPONENT_VERIFY''"
| "gate_kind DataCapture = ''DATA_CAPTURE''"
| "gate_kind (TestPass _) = ''TEST_PASS''"
| "gate_kind MarkVerified = ''MARK_VERIFIED''"
| "gate_kind (InterlockOut _) = ''INTERLOCK_OUT''"

fun is_output :: "gate \<Rightarrow> bool" where
  "is_output (InterlockOut _) = True"
| "is_output _ = False"

record route_operation =
  ro_seq :: operation_seq
  ro_operation_def_id :: row_id
  ro_requirement :: requirement
  ro_predecessors :: "operation_seq list"
  ro_gates :: "gate list"
  ro_failure_path :: failure_path

record route =
  rt_id :: row_id
  rt_product_revision_id :: row_id
  rt_line_id :: row_id
  rt_revision :: string
  rt_operations :: "route_operation list"

section \<open>Validation\<close>

text \<open>The pass that collects the sequence numbers and stops at a duplicate.\<close>

fun check_duplicates ::
  "route_operation list \<Rightarrow> operation_seq set \<Rightarrow> core_error + operation_seq set" where
  "check_duplicates [] seen = Inr seen"
| "check_duplicates (op # ops) seen =
     (if ro_seq op \<in> seen
      then Inl (InvalidRoute (''duplicate operation seq '' @ show_word (ro_seq op)))
      else check_duplicates ops (insert (ro_seq op) seen))"

text \<open>The pass over the predecessors of one operation, then over all operations.\<close>

fun check_predecessors ::
  "operation_seq \<Rightarrow> operation_seq set \<Rightarrow> operation_seq list \<Rightarrow> core_error + unit" where
  "check_predecessors sq seen [] = Inr ()"
| "check_predecessors sq seen (p # ps) =
     (if p = sq
      then Inl (InvalidRoute
        (''operation '' @ show_word sq @ '' lists itself as a predecessor''))
      else if p \<notin> seen
      then Inl (InvalidRoute
        (''operation '' @ show_word sq @ '' has unknown predecessor '' @ show_word p))
      else check_predecessors sq seen ps)"

fun check_operations ::
  "operation_seq set \<Rightarrow> route_operation list \<Rightarrow> core_error + unit" where
  "check_operations seen [] = Inr ()"
| "check_operations seen (op # ops) =
     and_then (check_predecessors (ro_seq op) seen (ro_predecessors op))
       (\<lambda>_. check_operations seen ops)"

section \<open>Kahn's algorithm\<close>

definition indegrees :: "route \<Rightarrow> (operation_seq, nat) btree" where
  "indegrees r =
     bt_collect (map (\<lambda>o'. (ro_seq o', length (ro_predecessors o'))) (rt_operations r))"

text \<open>\<open>entry(p).or_default().push(seq)\<close>.\<close>

definition push_successor ::
  "operation_seq \<Rightarrow> operation_seq \<Rightarrow> (operation_seq, operation_seq list) btree
     \<Rightarrow> (operation_seq, operation_seq list) btree" where
  "push_successor sq p m =
     bt_insert p ((case bt_get m p of None \<Rightarrow> [] | Some ss \<Rightarrow> ss) @ [sq]) m"

definition successors :: "route \<Rightarrow> (operation_seq, operation_seq list) btree" where
  "successors r =
     fold (\<lambda>op. fold (push_successor (ro_seq op)) (ro_predecessors op)) (rt_operations r) []"

text \<open>The inner loop: lower the in-degree of each successor, queue those that reach zero.\<close>

fun relax ::
  "operation_seq list \<Rightarrow> (operation_seq, nat) btree \<Rightarrow> operation_seq list
     \<Rightarrow> ((operation_seq, nat) btree \<times> operation_seq list) option" where
  "relax [] indegree queue = Some (indegree, queue)"
| "relax (nxt # ns) indegree queue =
     (case bt_get indegree nxt of
        None \<Rightarrow> relax ns indegree queue
      | Some 0 \<Rightarrow> None
      | Some (Suc d) \<Rightarrow>
          relax ns (bt_set nxt d indegree) (if d = 0 then queue @ [nxt] else queue))"

definition flat_get :: "('k, 'v list) btree \<Rightarrow> 'k \<Rightarrow> 'v list" where
  "flat_get m k = (case bt_get m k of None \<Rightarrow> [] | Some vs \<Rightarrow> vs)"

definition total_indegree :: "(operation_seq, nat) btree \<Rightarrow> nat" where
  "total_indegree m = sum_list (map snd m)"

lemma total_indegree_set:
  "bt_get m k = Some d \<Longrightarrow> total_indegree (bt_set k v m) + d = total_indegree m + v"
  by (induction m) (auto simp: total_indegree_def bt_get_def split: if_splits)

lemma relax_measure:
  "relax ns indegree queue = Some (indegree', queue') \<Longrightarrow>
     total_indegree indegree' + length queue' \<le> total_indegree indegree + length queue"
proof (induction ns indegree queue rule: relax.induct)
  case (2 nxt ns indegree queue)
  show ?case
  proof (cases "bt_get indegree nxt")
    case (Some d)
    with 2 total_indegree_set [OF Some, of "d - 1"] show ?thesis
      by (cases d) (fastforce split: if_splits)+
  qed (use 2 in simp)
qed simp

function kahn ::
  "(operation_seq, operation_seq list) btree \<Rightarrow> (operation_seq, nat) btree
     \<Rightarrow> operation_seq list \<Rightarrow> nat \<Rightarrow> ((operation_seq, nat) btree \<times> nat) option" where
  "kahn succs indegree [] visited = Some (indegree, visited)"
| "kahn succs indegree (sq # queue) visited =
     (case relax (flat_get succs sq) indegree queue of
        None \<Rightarrow> None
      | Some (indegree', queue') \<Rightarrow> kahn succs indegree' queue' (visited + 1))"
  by pat_completeness auto

termination
proof (relation "measure (\<lambda>(_, indegree, queue, _). total_indegree indegree + length queue)")
  fix succs :: "(operation_seq, operation_seq list) btree" and indegree sq queue visited x2 indegree' queue'
  assume "relax (flat_get succs sq) indegree queue = Some x2" "(indegree', queue') = x2"
  then show "((succs, indegree', queue', visited + 1), (succs, indegree, sq # queue, visited))
      \<in> measure (\<lambda>(_, indegree, queue, _). total_indegree indegree + length queue)"
    using relax_measure by fastforce
qed simp

definition assert_acyclic :: "route \<Rightarrow> (core_error + unit) option" where
  "assert_acyclic r =
     (let indegree = indegrees r;
          queue = map fst (filter (\<lambda>(_, d). d = 0) indegree)
      in case kahn (successors r) indegree queue 0 of
           None \<Rightarrow> None
         | Some (indegree', visited) \<Rightarrow>
             Some (if visited = length (rt_operations r) then Inr ()
               else Inl (InvalidRoute (''cycle detected involving operations ''
                 @ debug_list show_word (map fst (filter (\<lambda>(_, d). d > 0) indegree'))))))"

definition validate :: "route \<Rightarrow> (core_error + unit) option" where
  "validate r =
     (if rt_operations r = [] then Some (Inl (InvalidRoute ''route has no operations''))
      else case check_duplicates (rt_operations r) {} of
        Inl e \<Rightarrow> Some (Inl e)
      | Inr seen \<Rightarrow>
          (case check_operations seen (rt_operations r) of
             Inl e \<Rightarrow> Some (Inl e)
           | Inr _ \<Rightarrow>
               if \<not> (\<exists>o' \<in> set (rt_operations r). ro_predecessors o' = [])
               then Some (Inl (InvalidRoute
                 ''no entry operation: every operation has a predecessor, so the route cannot start''))
               else assert_acyclic r))"

section \<open>Queries\<close>

definition operation :: "route \<Rightarrow> operation_seq \<Rightarrow> route_operation option" where
  "operation r sq = find (\<lambda>o'. ro_seq o' = sq) (rt_operations r)"

definition predecessors_satisfied ::
  "route \<Rightarrow> route_operation \<Rightarrow> operation_seq set \<Rightarrow> bool" where
  "predecessors_satisfied r op completed =
     list_all (\<lambda>p. if p \<in> completed then True
       else case operation r p of
         Some pred \<Rightarrow> ro_requirement pred = Optional
       | None \<Rightarrow> False) (ro_predecessors op)"

definition ready_operations :: "route \<Rightarrow> operation_seq set \<Rightarrow> route_operation list" where
  "ready_operations r completed =
     filter (\<lambda>op. predecessors_satisfied r op completed)
       (filter (\<lambda>op. ro_seq op \<notin> completed) (rt_operations r))"

definition is_complete :: "route \<Rightarrow> operation_seq set \<Rightarrow> bool" where
  "is_complete r completed =
     list_all (\<lambda>o'. ro_seq o' \<in> completed)
       (filter (\<lambda>o'. ro_requirement o' = Required) (rt_operations r))"

section \<open>What a well-formed route is\<close>

definition seqs :: "route \<Rightarrow> operation_seq set" where
  "seqs r = ro_seq ` set (rt_operations r)"

definition edges :: "route \<Rightarrow> (operation_seq \<times> operation_seq) set" where
  "edges r = {(p, ro_seq op) | p op. op \<in> set (rt_operations r) \<and> p \<in> set (ro_predecessors op)}"

definition well_formed :: "route \<Rightarrow> bool" where
  "well_formed r \<longleftrightarrow> rt_operations r \<noteq> [] \<and> distinct (map ro_seq (rt_operations r))
     \<and> fst ` edges r \<subseteq> seqs r \<and> acyclic (edges r)"

definition preds_of :: "route \<Rightarrow> operation_seq \<Rightarrow> operation_seq list" where
  "preds_of r v = (case operation r v of None \<Rightarrow> [] | Some op \<Rightarrow> ro_predecessors op)"

lemma finite_edges: "finite (edges r)"
proof -
  have "edges r = (\<Union>op \<in> set (rt_operations r). (\<lambda>p. (p, ro_seq op)) ` set (ro_predecessors op))"
    by (auto simp: edges_def)
  then show ?thesis
    by simp
qed

lemma operation_Some: "operation r v = Some op \<Longrightarrow> op \<in> set (rt_operations r) \<and> ro_seq op = v"
  unfolding operation_def using find_Some_iff_mem by fastforce

lemma operation_None: "operation r v = None \<longleftrightarrow> v \<notin> seqs r"
  by (auto simp: operation_def find_None_all seqs_def)

lemma operation_eq:
  "distinct (map ro_seq (rt_operations r)) \<Longrightarrow> op \<in> set (rt_operations r)
     \<Longrightarrow> operation r (ro_seq op) = Some op"
  unfolding operation_def by (rule find_distinct_key)

lemma preds_of_op:
  "distinct (map ro_seq (rt_operations r)) \<Longrightarrow> op \<in> set (rt_operations r)
     \<Longrightarrow> preds_of r (ro_seq op) = ro_predecessors op"
  by (simp add: preds_of_def operation_eq)

lemma edges_iff:
  "distinct (map ro_seq (rt_operations r)) \<Longrightarrow> (p, v) \<in> edges r \<longleftrightarrow> p \<in> set (preds_of r v)"
proof
  assume d: "distinct (map ro_seq (rt_operations r))"
  show "p \<in> set (preds_of r v)" if "(p, v) \<in> edges r"
    using that preds_of_op [OF d] by (auto simp: edges_def)
  show "(p, v) \<in> edges r" if "p \<in> set (preds_of r v)"
  proof -
    from that obtain op where "operation r v = Some op" "p \<in> set (ro_predecessors op)"
      by (cases "operation r v") (simp_all add: preds_of_def)
    then show ?thesis
      using operation_Some [of r v op] by (auto simp: edges_def)
  qed
qed

lemma check_duplicates_Inr:
  "check_duplicates ops seen = Inr seen' \<longleftrightarrow>
     distinct (map ro_seq ops) \<and> ro_seq ` set ops \<inter> seen = {} \<and> seen' = seen \<union> ro_seq ` set ops"
  by (induction ops arbitrary: seen) (auto split: if_splits)

lemma check_predecessors_Inr:
  "check_predecessors sq seen ps = Inr u \<longleftrightarrow> sq \<notin> set ps \<and> set ps \<subseteq> seen"
  by (induction ps) auto

lemma check_operations_Inr:
  "check_operations seen ops = Inr u \<longleftrightarrow>
     (\<forall>op \<in> set ops. ro_seq op \<notin> set (ro_predecessors op) \<and> set (ro_predecessors op) \<subseteq> seen)"
  by (induction ops) (auto simp: outcome check_predecessors_Inr)

section \<open>The tables the cycle detector builds\<close>

lemma bt_ok_successors: "bt_ok (successors r)"
proof -
  have push: "bt_ok m \<Longrightarrow> bt_ok (fold (push_successor v) ps m)" for v ps m
    by (induction ps arbitrary: m) (auto simp: push_successor_def keeps)
  have "bt_ok m \<Longrightarrow> bt_ok (fold (\<lambda>op. fold (push_successor (ro_seq op)) (ro_predecessors op)) ops m)"
    for ops m
    by (induction ops arbitrary: m) (auto simp: push)
  from this [OF bt.ok_emp] show ?thesis
    by (simp add: successors_def)
qed

text \<open>The multiplicity of \<open>v\<close> among the successors of \<open>s\<close>.\<close>

lemma push_successor_get:
  "bt_ok m \<Longrightarrow> flat_get (push_successor v p m) s = flat_get m s @ (if s = p then [v] else [])"
  by (auto simp: flat_get_def push_successor_def bt_get_insert split: option.splits)

lemma push_successor_ok [keeps]: "bt_ok m \<Longrightarrow> bt_ok (push_successor v p m)"
  by (simp add: push_successor_def keeps)

lemma push_all_get:
  "bt_ok m \<Longrightarrow> bt_ok (fold (push_successor v) ps m)
     \<and> flat_get (fold (push_successor v) ps m) s = flat_get m s @ replicate (count_list ps s) v"
proof (induction ps arbitrary: m)
  case (Cons p ps)
  then show ?case
    by (auto simp: push_successor_get keeps replicate_app_Cons_same)
qed simp

lemma count_replicate: "count_list (replicate n a) b = (if a = b then n else 0)"
  by (induction n) auto

lemma successors_fold_count:
  assumes "bt_ok m" "distinct (map ro_seq ops)"
  shows "count_list (flat_get (fold (\<lambda>op. fold (push_successor (ro_seq op)) (ro_predecessors op)) ops m) s) v
    = count_list (flat_get m s) v
      + (case find (\<lambda>o'. ro_seq o' = v) ops of None \<Rightarrow> 0 | Some op \<Rightarrow> count_list (ro_predecessors op) s)"
  using assms
proof (induction ops arbitrary: m)
  case (Cons op ops)
  have "find (\<lambda>o'. ro_seq o' = ro_seq op) ops = None"
    using Cons.prems(2) by (simp add: find_None_all) (metis image_eqI)
  then show ?case
    using Cons push_all_get [OF Cons.prems(1), of "ro_seq op" "ro_predecessors op"]
    by (auto simp: count_list_append count_replicate)
qed simp

lemma successors_count: "distinct (map ro_seq (rt_operations r)) \<Longrightarrow>
    count_list (flat_get (successors r) s) v = count_list (preds_of r v) s"
  using successors_fold_count [of "[]" "rt_operations r" s v]
  by (auto simp: successors_def bt.ok_emp preds_of_def operation_def flat_get_def bt.get_emp
      split: option.splits)

lemma indegrees_get: "distinct (map ro_seq (rt_operations r)) \<Longrightarrow>
    bt_get (indegrees r) v = (if v \<in> seqs r then Some (length (preds_of r v)) else None)"
proof -
  assume d: "distinct (map ro_seq (rt_operations r))"
  let ?kvs = "map (\<lambda>o'. (ro_seq o', length (ro_predecessors o'))) (rt_operations r)"
  have "map_of (rev ?kvs) = map_of ?kvs"
    using d by (intro map_of_inject_set [THEN iffD2]) (simp_all add: rev_map o_def distinct_map inj_on_def)
  moreover have "map_of ?kvs v = (if v \<in> seqs r then Some (length (preds_of r v)) else None)"
  proof (cases "v \<in> seqs r")
    case True
    then obtain op where op: "op \<in> set (rt_operations r)" "ro_seq op = v"
      by (auto simp: seqs_def)
    then have "map_of ?kvs v = Some (length (ro_predecessors op))"
      using d by (intro map_of_is_SomeI) (auto simp: o_def)
    with op d preds_of_op [OF d op(1)] show ?thesis
      using True by simp
  qed (auto simp: map_of_eq_None_iff seqs_def)
  ultimately show ?thesis
    by (simp add: indegrees_def bt_get_collect)
qed

section \<open>The cycle detector is exact\<close>

text \<open>
  The inner loop, on in-degrees that cover the decrements: it returns, each successor loses its
  multiplicity, and the vertices queued are those that reach zero, each once.
\<close>

lemma relax_exact:
  assumes "\<And>v. v \<in> set ns \<Longrightarrow> \<exists>d. bt_get ind v = Some d \<and> count_list ns v \<le> d"
  shows "\<exists>ind' new. relax ns ind q = Some (ind', q @ new)
    \<and> (\<forall>v. bt_get ind' v = map_option (\<lambda>d. d - count_list ns v) (bt_get ind v))
    \<and> distinct new \<and> set new = {v \<in> set ns. bt_get ind v = Some (count_list ns v)}"
  using assms
proof (induction ns arbitrary: ind q)
  case Nil
  show ?case
    by (simp add: option.map_ident)
next
  case (Cons n ns)
  obtain d where d: "bt_get ind n = Some (Suc d)" "count_list ns n \<le> d"
  proof -
    obtain e where "bt_get ind n = Some e" "count_list ns n + 1 \<le> e"
      using Cons.prems [of n] by auto
    then show ?thesis
      using that [of "e - 1"] by simp
  qed
  let ?ind = "bt_set n d ind"
  let ?q = "if d = 0 then q @ [n] else q"
  have get: "bt_get ?ind v = (if v = n then Some d else bt_get ind v)" for v
    using d by (simp add: bt_get_set)
  have cover: "\<exists>d. bt_get ?ind v = Some d \<and> count_list ns v \<le> d" if "v \<in> set ns" for v
    using Cons.prems [of v] d that by (auto simp: get)
  from Cons.IH [of ?ind ?q, OF cover] obtain ind' new where IH: "relax ns ?ind ?q = Some (ind', ?q @ new)"
      "\<forall>v. bt_get ind' v = map_option (\<lambda>d. d - count_list ns v) (bt_get ?ind v)"
      "distinct new" "set new = {v \<in> set ns. bt_get ?ind v = Some (count_list ns v)}"
    by blast
  have fresh: "n \<notin> set new" if "d = 0"
    using IH(4) that d(2) by (auto simp: get count_list_0_iff)
  have "relax (n # ns) ind q = Some (ind', q @ (if d = 0 then n # new else new))"
    using IH(1) d(1) by auto
  moreover have "\<forall>v. bt_get ind' v
      = map_option (\<lambda>d. d - count_list (n # ns) v) (bt_get ind v)"
    using IH(2) d(1) by (auto simp: get)
  moreover have "set (if d = 0 then n # new else new)
      = {v \<in> set (n # ns). bt_get ind v = Some (count_list (n # ns) v)}"
    using IH(4) d by (auto simp: get count_list_0_iff)
  moreover have "distinct (if d = 0 then n # new else new)"
    using IH(3) fresh by simp
  ultimately show ?case
    by blast
qed

text \<open>The vertices visited, in order: each after all of its predecessors.\<close>

definition topo :: "route \<Rightarrow> operation_seq list \<Rightarrow> bool" where
  "topo r vs \<longleftrightarrow>
     (\<forall>us v ws. vs = us @ v # ws \<longrightarrow> v \<notin> set us \<and> set (preds_of r v) \<subseteq> set us)"

lemma topo_Nil: "topo r []"
  by (simp add: topo_def)

lemma topo_snoc:
  assumes "topo r vs" "set (preds_of r v) \<subseteq> set vs" "v \<notin> set vs"
  shows "topo r (vs @ [v])"
  unfolding topo_def
proof (intro allI impI)
  fix us w ws
  assume eq: "vs @ [v] = us @ w # ws"
  show "w \<notin> set us \<and> set (preds_of r w) \<subseteq> set us"
  proof (cases ws rule: rev_cases)
    case Nil
    then show ?thesis
      using assms eq by auto
  next
    case (snoc ys y)
    then have "vs = us @ w # ys"
      using eq by simp
    then show ?thesis
      using assms(1) unfolding topo_def by blast
  qed
qed

lemma takeWhile_before: "p \<in> set us \<Longrightarrow> length (takeWhile (\<lambda>u. u \<noteq> p) us) < length us"
  by (induction us) auto

lemma takeWhile_at: "v \<notin> set us \<Longrightarrow> takeWhile (\<lambda>u. u \<noteq> v) (us @ v # ws) = us"
  by (induction us) auto

lemma topo_acyclic:
  assumes "topo r vs" and "distinct (map ro_seq (rt_operations r))" and "snd ` edges r \<subseteq> set vs"
  shows "acyclic (edges r)"
proof (rule acyclicI_order)
  let ?rank = "\<lambda>v. length (takeWhile (\<lambda>u. u \<noteq> v) vs)"
  fix p v
  assume e: "(p, v) \<in> edges r"
  then have "v \<in> set vs"
    using assms(3) by force
  then obtain us ws where vs: "vs = us @ v # ws" "v \<notin> set us"
    using split_list_first by metis
  have "p \<in> set us"
    using assms(1) vs e edges_iff [OF assms(2)] unfolding topo_def by blast
  then have "?rank p < length us"
    using takeWhile_before [of p us] by (simp add: vs(1) takeWhile_append1)
  moreover have "?rank v = length us"
    using vs by (simp add: takeWhile_at)
  ultimately show "- int (?rank v) < - int (?rank p)"
    by simp
qed

text \<open>
  The outer loop.  With the vertices in \<open>done\<close> visited, every in-degree counts the
  predecessors still to visit, and the vertices at zero are the visited and the queued ones.
\<close>

definition kahn_inv ::
  "route \<Rightarrow> operation_seq list \<Rightarrow> (operation_seq, nat) btree \<Rightarrow> operation_seq list \<Rightarrow> bool" where
  "kahn_inv r visited ind q \<longleftrightarrow> topo r visited \<and> distinct (visited @ q)
     \<and> (\<forall>v. bt_get ind v = (if v \<in> seqs r
           then Some (length (filter (\<lambda>p. p \<notin> set visited) (preds_of r v))) else None))
     \<and> set visited \<union> set q = {v. bt_get ind v = Some 0}"

lemma length_filter_not_insert:
  assumes "s \<notin> A"
  shows "length (filter (\<lambda>p. p \<notin> A) ps)
    = length (filter (\<lambda>p. p \<notin> insert s A) ps) + count_list ps s"
  using assms by (induction ps) auto

lemma kahn_step:
  assumes d: "distinct (map ro_seq (rt_operations r))"
    and inv: "kahn_inv r vs ind (s # q)"
  shows "\<exists>ind' q'. relax (flat_get (successors r) s) ind q = Some (ind', q')
    \<and> kahn_inv r (vs @ [s]) ind' q'"
proof -
  let ?ns = "flat_get (successors r) s"
  let ?left = "\<lambda>v. length (filter (\<lambda>p. p \<notin> set vs) (preds_of r v))"
  let ?left' = "\<lambda>v. length (filter (\<lambda>p. p \<notin> set (vs @ [s])) (preds_of r v))"
  note I = inv [unfolded kahn_inv_def]
  have zeros: "set vs \<union> set (s # q) = {v. bt_get ind v = Some 0}"
    using I by blast
  have "s \<in> set vs \<union> set (s # q)"
    by simp
  then have "bt_get ind s = Some 0"
    unfolding zeros by (rule CollectD)
  with I have s: "s \<notin> set vs" "s \<notin> set q" "bt_get ind s = Some 0"
    by simp_all
  have cnt: "count_list ?ns v = count_list (preds_of r v) s" for v
    by (rule successors_count [OF d])
  have left: "?left v = ?left' v + count_list ?ns v" for v
    using length_filter_not_insert [OF s(1)] by (simp add: cnt)
  have mem: "v \<in> set ?ns \<longleftrightarrow> s \<in> set (preds_of r v)" for v
    by (metis cnt count_list_0_iff)
  have in_seqs: "v \<in> seqs r" if "v \<in> set ?ns" for v
    using that mem [of v] operation_None [of r v] by (auto simp: preds_of_def split: option.splits)
  have "\<exists>d. bt_get ind v = Some d \<and> count_list ?ns v \<le> d" if "v \<in> set ?ns" for v
    using I in_seqs [OF that] left [of v] by simp
  from relax_exact [of ?ns ind q, OF this] obtain ind' new where R:
      "relax ?ns ind q = Some (ind', q @ new)"
      "\<forall>v. bt_get ind' v = map_option (\<lambda>d. d - count_list ?ns v) (bt_get ind v)"
      "distinct new" "set new = {v \<in> set ?ns. bt_get ind v = Some (count_list ?ns v)}"
    by blast
  have get': "bt_get ind' v = (if v \<in> seqs r then Some (?left' v) else None)" for v
    using R(2) I left [of v] by simp
  have zero: "bt_get ind' v = Some 0 \<longleftrightarrow> bt_get ind v = Some 0 \<or> v \<in> set new" for v
  proof -
    have "count_list ?ns v = 0 \<longleftrightarrow> v \<notin> set ?ns"
      by (rule count_list_0_iff)
    then show ?thesis
      using R(4) get' [of v] I in_seqs [of v] left [of v] by auto
  qed
  have fresh: "v \<notin> set vs \<union> set (s # q)" if "v \<in> set new" for v
  proof -
    have "bt_get ind v \<noteq> Some 0"
      using that R(4) count_list_0_iff [of ?ns v] by force
    then show ?thesis
      using zeros by blast
  qed
  have "set (preds_of r s) \<subseteq> set vs"
  proof -
    have "Some (?left s) = Some 0"
      using s(3) I by (metis option.distinct(1))
    then show ?thesis
      by (auto simp: filter_empty_conv)
  qed
  then have "topo r (vs @ [s])"
    using topo_snoc I s(1) by blast
  moreover have "distinct ((vs @ [s]) @ (q @ new))"
  proof -
    have "distinct (vs @ s # q)"
      using I by blast
    then show ?thesis
      using fresh R(3) by auto
  qed
  moreover have "set (vs @ [s]) \<union> set (q @ new) = {v. bt_get ind' v = Some 0}"
    unfolding zero using zeros by auto
  ultimately show ?thesis
    using R(1) get' unfolding kahn_inv_def by blast
qed

lemma kahn_run:
  assumes "distinct (map ro_seq (rt_operations r))" and "kahn_inv r vs ind q"
    and "succs = successors r" and "n = length vs"
  shows "\<exists>ind' vs'. kahn succs ind q n = Some (ind', length vs') \<and> kahn_inv r vs' ind' []"
  using assms
proof (induction succs ind q n arbitrary: vs rule: kahn.induct)
  case (2 succs ind s q n)
  obtain ind' q' where step: "relax (flat_get (successors r) s) ind q = Some (ind', q')"
      "kahn_inv r (vs @ [s]) ind' q'"
    using kahn_step [OF 2(2,3)] by blast
  then have "\<exists>ind'' vs'. kahn succs ind' q' (n + 1) = Some (ind'', length vs') \<and> kahn_inv r vs' ind'' []"
    using 2 by (intro "2.IH" [where vs = "vs @ [s]"]) auto
  with step show ?case
    using 2(4) by simp
qed auto

lemma map_of_zero_keys:
  "bt_ok ind \<Longrightarrow> set (map fst (filter (\<lambda>(_, d). d = 0) ind)) = {v. bt_get ind v = Some (0::nat)}"
  by (force simp: bt_ok_def bt_get_def strict_sorted_iff map_of_eq_Some_iff)

lemma kahn_inv_start:
  assumes d: "distinct (map ro_seq (rt_operations r))"
  shows "kahn_inv r [] (indegrees r) (map fst (filter (\<lambda>(_, d). d = 0) (indegrees r)))"
proof -
  have ok: "bt_ok (indegrees r)"
    by (simp add: indegrees_def keeps)
  then have "distinct (map fst (filter (\<lambda>(_, d). d = 0) (indegrees r)))"
    by (auto simp: bt_ok_def strict_sorted_iff distinct_map_filter)
  moreover have "bt_get (indegrees r) v
      = (if v \<in> seqs r then Some (length (filter (\<lambda>p. p \<notin> set []) (preds_of r v))) else None)" for v
    by (simp add: indegrees_get [OF d])
  ultimately show ?thesis
    unfolding kahn_inv_def using map_of_zero_keys [OF ok] by (simp add: topo_Nil)
qed

lemma kahn_inv_end:
  assumes "kahn_inv r vs ind []"
  shows "distinct vs" and "set vs = {v \<in> seqs r. set (preds_of r v) \<subseteq> set vs}" and "topo r vs"
proof -
  note I = assms [unfolded kahn_inv_def]
  show "distinct vs" "topo r vs"
    using I by simp_all
  have "set vs = {v. bt_get ind v = Some 0}"
    using I by simp
  also have "\<dots> = {v \<in> seqs r. length (filter (\<lambda>p. p \<notin> set vs) (preds_of r v)) = 0}"
  proof -
    have "bt_get ind v = (if v \<in> seqs r
        then Some (length (filter (\<lambda>p. p \<notin> set vs) (preds_of r v))) else None)" for v
      using I by blast
    then show ?thesis
      by auto
  qed
  also have "\<dots> = {v \<in> seqs r. set (preds_of r v) \<subseteq> set vs}"
    by (auto simp: filter_empty_conv)
  finally show "set vs = {v \<in> seqs r. set (preds_of r v) \<subseteq> set vs}" .
qed

lemma card_seqs: "distinct (map ro_seq (rt_operations r)) \<Longrightarrow> card (seqs r) = length (rt_operations r)"
  unfolding seqs_def by (metis distinct_card length_map set_map)

lemma snd_edges: "snd ` edges r \<subseteq> seqs r"
  by (auto simp: edges_def seqs_def)

text \<open>A set closed under "every predecessor is in it" is everything, on an acyclic route.\<close>

lemma acyclic_closed_all:
  assumes "acyclic (edges r)" and d: "distinct (map ro_seq (rt_operations r))"
    and step: "\<And>v. v \<in> seqs r \<Longrightarrow> set (preds_of r v) \<subseteq> A \<Longrightarrow> v \<in> A"
    and known: "fst ` edges r \<subseteq> seqs r"
  shows "seqs r \<subseteq> A"
proof
  fix v
  have "wf (edges r)"
    using finite_acyclic_wf finite_edges assms(1) by blast
  then show "v \<in> seqs r \<Longrightarrow> v \<in> A"
  proof (induction v rule: wf_induct_rule)
    case (less v)
    have "p \<in> A" if "p \<in> set (preds_of r v)" for p
    proof -
      have "(p, v) \<in> edges r"
        using that edges_iff [OF d] by blast
      then show ?thesis
        using less.IH known by force
    qed
    then show ?case
      using step less.prems by blast
  qed
qed

lemma assert_acyclic_exact:
  assumes d: "distinct (map ro_seq (rt_operations r))" and known: "fst ` edges r \<subseteq> seqs r"
  shows "\<exists>res. assert_acyclic r = Some res \<and> (res = Inr () \<longleftrightarrow> acyclic (edges r))"
proof -
  let ?q = "map fst (filter (\<lambda>(_, d). d = 0) (indegrees r))"
  obtain ind' vs where K: "kahn (successors r) (indegrees r) ?q 0 = Some (ind', length vs)"
      "kahn_inv r vs ind' []"
    using kahn_run [OF d kahn_inv_start [OF d]] by fastforce
  note E = kahn_inv_end [OF K(2)]
  have fin: "finite (seqs r)" and sub: "set vs \<subseteq> seqs r"
    using E(2) by (auto simp: seqs_def)
  have "length vs = length (rt_operations r) \<longleftrightarrow> set vs = seqs r"
    using card_seqs [OF d] distinct_card [OF E(1)] card_subset_eq [OF fin sub] by metis
  also have "\<dots> \<longleftrightarrow> acyclic (edges r)"
  proof
    assume "set vs = seqs r"
    then show "acyclic (edges r)"
      using topo_acyclic [OF E(3) d] snd_edges by blast
  next
    assume "acyclic (edges r)"
    then have "seqs r \<subseteq> set vs"
      using E(2) by (intro acyclic_closed_all [OF _ d _ known]) blast+
    then show "set vs = seqs r"
      using sub by blast
  qed
  finally show ?thesis
    using K(1) by (auto simp: assert_acyclic_def Let_def)
qed

lemma acyclic_entry:
  assumes "well_formed r"
  shows "\<exists>op \<in> set (rt_operations r). ro_predecessors op = []"
proof (rule ccontr)
  assume none: "\<not> ?thesis"
  have d: "distinct (map ro_seq (rt_operations r))"
    using assms by (simp add: well_formed_def)
  have "seqs r \<subseteq> {}"
  proof (rule acyclic_closed_all [OF _ d])
    show "v \<in> {}" if "v \<in> seqs r" "set (preds_of r v) \<subseteq> {}" for v
      using that none preds_of_op [OF d] by (auto simp: seqs_def)
  qed (use assms in \<open>auto simp: well_formed_def\<close>)
  then show False
    using assms by (auto simp: well_formed_def seqs_def)
qed

lemma validate_decides: "\<exists>res. validate r = Some res \<and> (res = Inr () \<longleftrightarrow> well_formed r)"
proof (cases "check_duplicates (rt_operations r) {}")
  case (Inl e)
  then have "\<not> well_formed r"
    using check_duplicates_Inr [of "rt_operations r" "{}"] by (auto simp: well_formed_def)
  then show ?thesis
    using Inl by (auto simp: validate_def)
next
  case (Inr seen)
  then have d: "distinct (map ro_seq (rt_operations r))" and seen: "seen = seqs r"
    by (auto simp: check_duplicates_Inr seqs_def)
  show ?thesis
  proof (cases "check_operations seen (rt_operations r)")
    case (Inl e)
    have "\<not> well_formed r"
    proof
      assume wf: "well_formed r"
      have "ro_seq op \<notin> set (ro_predecessors op) \<and> set (ro_predecessors op) \<subseteq> seen"
        if op: "op \<in> set (rt_operations r)" for op
        using wf op unfolding well_formed_def edges_def seen acyclic_def by fastforce
      then show False
        using Inl check_operations_Inr [of seen "rt_operations r" "()"] by auto
    qed
    then show ?thesis
      using Inl Inr by (auto simp: validate_def well_formed_def)
  next
    case ok: (Inr u)
    have known: "fst ` edges r \<subseteq> seqs r"
      using ok unfolding check_operations_Inr seen edges_def by fastforce
    show ?thesis
      using assert_acyclic_exact [OF d known] acyclic_entry [of r] Inr ok d known
      by (auto simp: validate_def well_formed_def)
  qed
qed

text \<open>
  C8: Validating a route always returns (the counters of the cycle detector never go below zero),
  and it accepts exactly the routes that are non-empty, number their operations uniquely, name
  only existing predecessors and have no cycle.
\<close>

theorem validate_exact:
  "validate r \<noteq> None \<and> (validate r = Some (Inr ()) \<longleftrightarrow>
     rt_operations r \<noteq> [] \<and> distinct (map ro_seq (rt_operations r))
     \<and> fst ` edges r \<subseteq> seqs r \<and> acyclic (edges r))"
  using validate_decides [of r] by (auto simp: well_formed_def)

lemma validate_well_formed: "validate r = Some (Inr ()) \<longleftrightarrow> well_formed r"
  using validate_decides [of r] by auto

section \<open>What is ready\<close>

lemma ready_operations_iff:
  "op \<in> set (ready_operations r done) \<longleftrightarrow> op \<in> set (rt_operations r) \<and> ro_seq op \<notin> done
     \<and> (\<forall>p \<in> set (ro_predecessors op). p \<in> done
         \<or> (\<exists>pred. operation r p = Some pred \<and> ro_requirement pred = Optional))"
  by (auto simp: ready_operations_def predecessors_satisfied_def list_all_iff split: option.splits)

lemma is_complete_iff:
  "is_complete r done \<longleftrightarrow>
     (\<forall>op \<in> set (rt_operations r). ro_requirement op = Required \<longrightarrow> ro_seq op \<in> done)"
  by (auto simp: is_complete_def list_all_iff)

lemma is_complete_mono: "is_complete r A \<Longrightarrow> A \<subseteq> B \<Longrightarrow> is_complete r B"
  by (auto simp: is_complete_iff)

lemma predecessors_satisfied_mono:
  "predecessors_satisfied r op A \<Longrightarrow> A \<subseteq> B \<Longrightarrow> predecessors_satisfied r op B"
  by (auto simp: predecessors_satisfied_def list_all_iff split: if_splits)

lemma all_done_complete: "seqs r \<subseteq> done \<Longrightarrow> is_complete r done"
  by (auto simp: is_complete_iff seqs_def)

lemma nothing_ready_complete:
  assumes "well_formed r" and "ready_operations r done = []"
  shows "seqs r \<subseteq> done"
proof (rule acyclic_closed_all)
  show d: "distinct (map ro_seq (rt_operations r))"
    using assms(1) by (simp add: well_formed_def)
  show "v \<in> done" if v: "v \<in> seqs r" "set (preds_of r v) \<subseteq> done" for v
  proof (rule ccontr)
    assume "v \<notin> done"
    moreover obtain op where op: "op \<in> set (rt_operations r)" "ro_seq op = v"
      using v(1) by (auto simp: seqs_def)
    ultimately have "op \<in> set (ready_operations r done)"
      using v(2) preds_of_op [OF d op(1)] by (auto simp: ready_operations_iff)
    then show False
      using assms(2) by simp
  qed
qed (use assms in \<open>auto simp: well_formed_def\<close>)

text \<open>
  C25: A validated route never strands a unit: whatever has been completed, as long as a required
  operation is missing some operation is ready, and each ready operation is one of the route's,
  not yet completed, with every required predecessor completed.
\<close>

theorem ready_progress:
  assumes "validate r = Some (Inr ())" and "\<not> is_complete r done"
  shows "ready_operations r done \<noteq> [] \<and>
    (\<forall>op \<in> set (ready_operations r done). op \<in> set (rt_operations r) \<and> ro_seq op \<notin> done
       \<and> (\<forall>p \<in> set (ro_predecessors op). \<forall>pred. operation r p = Some pred
            \<longrightarrow> ro_requirement pred = Required \<longrightarrow> p \<in> done))"
  using assms nothing_ready_complete [of r "done"] all_done_complete [of r "done"]
  by (auto simp: validate_well_formed ready_operations_iff) (metis option.inject requirement.distinct(1))

text \<open>A diamond of four operations, two of them parallel, one optional.\<close>

definition demo_op :: "operation_seq \<Rightarrow> requirement \<Rightarrow> operation_seq list \<Rightarrow> gate list \<Rightarrow> route_operation" where
  "demo_op sq req preds gs = \<lparr>ro_seq = sq, ro_operation_def_id = uint sq, ro_requirement = req,
     ro_predecessors = preds, ro_gates = gs, ro_failure_path = Retry 3\<rparr>"

definition demo_route :: route where
  "demo_route = \<lparr>rt_id = 1, rt_product_revision_id = 1, rt_line_id = 1, rt_revision = ''A'',
     rt_operations = [demo_op 10 Required [] [Identity, InterlockOut 7],
       demo_op 20 Required [10] [DataCapture], demo_op 30 Optional [10] [],
       demo_op 40 Required [20, 30] []]\<rparr>"

lemma demo_route_valid: "validate demo_route = Some (Inr ())"
  by code_simp

lemma ready_progress_witness:
  "\<not> is_complete demo_route {10} \<and> ready_operations demo_route {10} \<noteq> []"
proof -
  have "\<not> is_complete demo_route {10}"
    by code_simp
  then show ?thesis
    using ready_progress [OF demo_route_valid] by blast
qed

section \<open>The interface the engine and the simulator work against\<close>

text \<open>
  A source of work: from what is done it says what is ready and whether all is done.  Whoever
  completes one ready item at a time finishes within as many steps as there are items.
\<close>

locale worklist =
  fixes valid :: "'r \<Rightarrow> bool"
    and items :: "'r \<Rightarrow> 'i set"
    and ready :: "'r \<Rightarrow> 'i set \<Rightarrow> 'i list"
    and complete :: "'r \<Rightarrow> 'i set \<Rightarrow> bool"
  assumes finite_items: "finite (items r)"
    and ready_new: "set (ready r A) \<subseteq> items r - A"
    and never_stuck: "valid r \<Longrightarrow> \<not> complete r A \<Longrightarrow> ready r A \<noteq> []"
    and complete_mono: "complete r A \<Longrightarrow> A \<subseteq> B \<Longrightarrow> complete r B"
begin

lemma remaining_decreases:
  "i \<in> set (ready r A) \<Longrightarrow> card (items r - insert i A) < card (items r - A)"
proof -
  assume "i \<in> set (ready r A)"
  then have "items r - insert i A \<subset> items r - A"
    using ready_new by blast
  then show ?thesis
    using finite_items by (simp add: psubset_card_mono)
qed

lemma all_complete: "valid r \<Longrightarrow> items r \<subseteq> A \<Longrightarrow> complete r A"
  using never_stuck [of r A] ready_new [of r A] by (cases "ready r A") auto

lemma complete_when_none_remain: "valid r \<Longrightarrow> card (items r - A) = 0 \<Longrightarrow> complete r A"
  using finite_items by (intro all_complete) auto

text \<open>A schedule picks a ready item whenever there is one; it completes the route in time.\<close>

lemma schedule_completes:
  assumes "valid r" and "\<And>A. \<not> complete r A \<Longrightarrow> pick A \<in> set (ready r A)"
    and "card (items r - A) \<le> n"
  shows "\<exists>k \<le> n. complete r (((\<lambda>A. insert (pick A) A) ^^ k) A)"
  using assms(3)
proof (induction n arbitrary: A)
  case 0
  then show ?case
    using complete_when_none_remain [OF assms(1)] by auto
next
  case (Suc n)
  show ?case
  proof (cases "complete r A")
    case True
    then show ?thesis
      by (intro exI [of _ 0]) simp
  next
    case False
    have "card (items r - insert (pick A) A) \<le> n"
      using remaining_decreases [OF assms(2) [OF False]] Suc.prems by linarith
    from Suc.IH [OF this] obtain k where
        "k \<le> n" "complete r (((\<lambda>A. insert (pick A) A) ^^ k) (insert (pick A) A))"
      by blast
    then show ?thesis
      by (intro exI [of _ "Suc k"]) (simp add: funpow_Suc_right del: funpow.simps)
  qed
qed

end

interpretation route_work: worklist "\<lambda>r. validate r = Some (Inr ())" seqs
  "\<lambda>r A. map ro_seq (ready_operations r A)" is_complete
proof
  show "validate r = Some (Inr ()) \<Longrightarrow> \<not> is_complete r A \<Longrightarrow> map ro_seq (ready_operations r A) \<noteq> []"
    for r A
    using nothing_ready_complete [of r A] all_done_complete [of r A]
    by (auto simp: validate_well_formed)
qed (auto simp: seqs_def ready_operations_iff is_complete_mono)

end
