(* ===== verification/UnitModel.thy ===== *)
theory UnitModel
  imports Clock Dcp Route
begin

text \<open>
  The traced unit, its lifecycle and the append-only records about it:
  \<open>crates/trace-core/src/unit.rs\<close>.  A method that changes a unit in place and may fail
  returns the changed unit or the error; on an error the unit is left as it was.
\<close>

section \<open>The lifecycle\<close>

datatype unit_state =
    Born | Marked | InProcess | Held | Quarantined | Reworking | Completed | Shipped | Scrapped

definition is_terminal :: "unit_state \<Rightarrow> bool" where
  "is_terminal s \<longleftrightarrow> s = Scrapped"

definition accepts_work :: "unit_state \<Rightarrow> bool" where
  "accepts_work s \<longleftrightarrow> s \<in> {Born, Marked, InProcess, Reworking}"

fun state_name :: "unit_state \<Rightarrow> string" where
  "state_name Born = ''BORN''"
| "state_name Marked = ''MARKED''"
| "state_name InProcess = ''IN_PROCESS''"
| "state_name Held = ''HELD''"
| "state_name Quarantined = ''QUARANTINED''"
| "state_name Reworking = ''REWORKING''"
| "state_name Completed = ''COMPLETED''"
| "state_name Shipped = ''SHIPPED''"
| "state_name Scrapped = ''SCRAPPED''"

fun can_transition_to :: "unit_state \<Rightarrow> unit_state \<Rightarrow> bool" where
  "can_transition_to Scrapped nxt = False"
| "can_transition_to Born nxt = (nxt \<in> {Marked, InProcess, Quarantined, Held, Scrapped})"
| "can_transition_to Marked nxt = (nxt \<in> {InProcess, Quarantined, Held, Scrapped})"
| "can_transition_to InProcess nxt =
     (nxt \<in> {InProcess, Completed, Quarantined, Held, Reworking, Scrapped})"
| "can_transition_to Reworking nxt = (nxt \<in> {InProcess, Quarantined, Held, Scrapped})"
| "can_transition_to Quarantined nxt = (nxt \<in> {Reworking, InProcess, Scrapped, Held})"
| "can_transition_to Held nxt = (nxt \<in> {InProcess, Reworking, Quarantined, Scrapped})"
| "can_transition_to Completed nxt = (nxt \<in> {Shipped, Quarantined, Reworking, Scrapped})"
| "can_transition_to Shipped nxt = (nxt \<in> {Quarantined, Scrapped})"

record traced_unit =
  u_id :: row_id
  u_uid :: unit_uid
  u_tenant_id :: row_id
  u_plant_id :: row_id
  u_product_revision_id :: row_id
  u_job_card_id :: row_id
  u_serial :: string
  u_state :: unit_state
  u_current_operation :: "operation_seq option"
  u_index_in_job :: u64

definition transition_to ::
  "externals \<Rightarrow> traced_unit \<Rightarrow> unit_state \<Rightarrow> core_error + traced_unit" where
  "transition_to x u nxt =
     (if u_state u = Scrapped then Inl (RetiredUid (unit_uid_display x (u_uid u)))
      else if \<not> can_transition_to (u_state u) nxt
      then Inl (IllegalTransition (state_name (u_state u)) (''move to '' @ state_name nxt))
      else Inr (u\<lparr>u_state := nxt\<rparr>))"

section \<open>Events\<close>

datatype event_kind =
    EvBorn | EvScanned | EvOperationStarted | EvOperationCompleted | EvGateFailed | EvMarked
  | EvMarkVerified | EvComponentConsumed | EvHeld | EvQuarantined | EvReworkStarted | EvScrapped
  | EvCompleted | EvShipped | EvCorrection

text \<open>The derived \<open>Debug\<close> name, which the canonical payload prints.\<close>

fun debug_event_kind :: "event_kind \<Rightarrow> string" where
  "debug_event_kind EvBorn = ''Born''"
| "debug_event_kind EvScanned = ''Scanned''"
| "debug_event_kind EvOperationStarted = ''OperationStarted''"
| "debug_event_kind EvOperationCompleted = ''OperationCompleted''"
| "debug_event_kind EvGateFailed = ''GateFailed''"
| "debug_event_kind EvMarked = ''Marked''"
| "debug_event_kind EvMarkVerified = ''MarkVerified''"
| "debug_event_kind EvComponentConsumed = ''ComponentConsumed''"
| "debug_event_kind EvHeld = ''Held''"
| "debug_event_kind EvQuarantined = ''Quarantined''"
| "debug_event_kind EvReworkStarted = ''ReworkStarted''"
| "debug_event_kind EvScrapped = ''Scrapped''"
| "debug_event_kind EvCompleted = ''Completed''"
| "debug_event_kind EvShipped = ''Shipped''"
| "debug_event_kind EvCorrection = ''Correction''"

record unit_event =
  ev_id :: event_id
  ev_unit_id :: row_id
  ev_kind :: event_kind
  ev_operation_seq :: "operation_seq option"
  ev_station_id :: "row_id option"
  ev_operator_id :: "row_id option"
  ev_stamps :: stamps
  ev_detail :: "string option"
  ev_chain_seq :: u64
  ev_prev_hash :: string
  ev_row_hash :: string

definition or_dash :: "('a \<Rightarrow> string) \<Rightarrow> 'a option \<Rightarrow> string" where
  "or_dash f o' = (case o' of None \<Rightarrow> ''-'' | Some v \<Rightarrow> f v)"

definition event_payload :: "externals \<Rightarrow> unit_event \<Rightarrow> string" where
  "event_payload x e =
     ''unit='' @ show_int (ev_unit_id e) @ ''|kind='' @ debug_event_kind (ev_kind e)
     @ ''|op='' @ or_dash show_word (ev_operation_seq e)
     @ ''|station='' @ or_dash show_int (ev_station_id e)
     @ ''|operator='' @ or_dash show_int (ev_operator_id e)
     @ ''|recorded='' @ rfc3339 x (recorded_at (ev_stamps e))
     @ ''|detail='' @ or_dash (\<lambda>s. s) (ev_detail e)"

section \<open>Measurements\<close>

fun debug_verdict :: "verdict \<Rightarrow> string" where
  "debug_verdict V_Pass = ''Pass''"
| "debug_verdict V_Fail = ''Fail''"

fun debug_source :: "value_source \<Rightarrow> string" where
  "debug_source Src_Device = ''Device''"
| "debug_source Src_Manual = ''Manual''"

record measurement =
  ms_id :: measurement_id
  ms_unit_id :: row_id
  ms_dcp_id :: row_id
  ms_operation_seq :: operation_seq
  ms_value :: val
  ms_verdict :: verdict
  ms_source :: value_source
  ms_device_id :: "row_id option"
  ms_raw_payload :: "string option"
  ms_operator_id :: "row_id option"
  ms_stamps :: stamps
  ms_chain_seq :: u64
  ms_prev_hash :: string
  ms_row_hash :: string
  ms_supersedes :: "measurement_id option"
  ms_supersede_reason :: "string option"

definition measurement_payload :: "externals \<Rightarrow> measurement \<Rightarrow> string" where
  "measurement_payload x m =
     ''unit='' @ show_int (ms_unit_id m) @ ''|dcp='' @ show_int (ms_dcp_id m)
     @ ''|op='' @ show_word (ms_operation_seq m) @ ''|value='' @ canonical x (ms_value m)
     @ ''|verdict='' @ debug_verdict (ms_verdict m) @ ''|source='' @ debug_source (ms_source m)
     @ ''|device='' @ or_dash show_int (ms_device_id m)
     @ ''|raw='' @ or_dash (\<lambda>s. s) (ms_raw_payload m)
     @ ''|recorded='' @ rfc3339 x (recorded_at (ms_stamps m))
     @ ''|supersedes='' @ or_dash (measurement_id_display x) (ms_supersedes m)"

section \<open>Genealogy and marks\<close>

datatype consumed_item = ConsumedUnit unit_uid | ConsumedLot code f64

record genealogy_link =
  gl_id :: row_id
  gl_parent_unit_id :: row_id
  gl_bom_line_id :: row_id
  gl_item :: consumed_item
  gl_operation_seq :: operation_seq
  gl_stamps :: stamps

datatype mark_outcome = MO_Verified | MO_VerifyFailed | MO_DeviceFault | MO_AppliedUnverified

record mark_record =
  mr_id :: mark_id
  mr_unit_id :: row_id
  mr_template_version_id :: row_id
  mr_device_id :: "row_id option"
  mr_attempt :: u32
  mr_outcome :: mark_outcome
  mr_read_back :: "string option"
  mr_grade :: "char option"
  mr_trace_base_url :: string
  mr_reason :: "string option"
  mr_authorised_by :: "row_id option"
  mr_payload_sent :: "string option"
  mr_stamps :: stamps

section \<open>Histories of a unit\<close>

text \<open>One move of a unit, and the histories that moves make.\<close>

inductive unit_move :: "externals \<Rightarrow> traced_unit \<Rightarrow> traced_unit \<Rightarrow> bool" for x where
  move: "transition_to x u nxt = Inr u' \<Longrightarrow> unit_move x u u'"

inductive_cases unit_moveE: "unit_move x u u'"
inductive_simps unit_move_iff: "unit_move x u u'"

inductive history :: "externals \<Rightarrow> traced_unit list \<Rightarrow> bool" for x where
  birth: "u_state u = Born \<Longrightarrow> history x [u]"
| later: "history x (us @ [u]) \<Longrightarrow> unit_move x u u' \<Longrightarrow> history x (us @ [u, u'])"

lemma transition_to_Inr:
  "transition_to x u nxt = Inr u' \<longleftrightarrow> can_transition_to (u_state u) nxt \<and> u' = u\<lparr>u_state := nxt\<rparr>"
  by (auto simp: transition_to_def)

lemma unit_move_state:
  "unit_move x u u' \<longleftrightarrow>
     can_transition_to (u_state u) (u_state u') \<and> u' = u\<lparr>u_state := u_state u'\<rparr>"
  by (auto simp: unit_move_iff transition_to_Inr)

lemma move_into_Shipped: "can_transition_to s Shipped \<Longrightarrow> s = Completed"
  by (cases s) auto

lemma move_into_Completed: "can_transition_to s Completed \<Longrightarrow> s = InProcess"
  by (cases s) auto

lemma history_consecutive:
  "history x us \<Longrightarrow> us = as @ a # b # bs \<Longrightarrow> unit_move x a b"
proof (induction arbitrary: as a b bs rule: history.induct)
  case (later us u u')
  show ?case
  proof (cases bs rule: rev_cases)
    case Nil
    then show ?thesis
      using later by auto
  next
    case (snoc cs c)
    then have "us @ [u] = as @ a # b # cs"
      using later.prems by simp
    then show ?thesis
      using later.IH by blast
  qed
qed auto

lemma history_starts: "history x us \<Longrightarrow> us \<noteq> [] \<and> u_state (hd us) = Born"
  by (induction rule: history.induct) (auto simp: hd_append split: if_splits)

lemma scrapped_stuck: "u_state u = Scrapped \<Longrightarrow> \<not> unit_move x u u'"
  by (simp add: unit_move_state)

lemma transition_to_error:
  "transition_to x u nxt = Inl e \<longleftrightarrow> \<not> can_transition_to (u_state u) nxt
     \<and> e = (if u_state u = Scrapped then RetiredUid (unit_uid_display x (u_uid u))
            else IllegalTransition (state_name (u_state u)) (''move to '' @ state_name nxt))"
  by (cases "u_state u") (auto simp: transition_to_def)

text \<open>
  C35: A scrapped unit is retired forever: in every history of a unit, whatever moves are tried,
  Scrapped can only be the last state; any attempt to move a scrapped unit fails with the error
  that names the retired identity.
\<close>

theorem scrapped_is_final:
  assumes "history x us"
  shows "(\<forall>k < length us. u_state (us ! k) = Scrapped \<longrightarrow> k = length us - 1)
    \<and> (u_state (last us) = Scrapped \<longrightarrow>
        (\<forall>nxt. transition_to x (last us) nxt = Inl (RetiredUid (unit_uid_display x (u_uid (last us))))))"
proof (intro conjI allI impI)
  fix k
  assume k: "k < length us" "u_state (us ! k) = Scrapped"
  show "k = length us - 1"
  proof (rule ccontr)
    assume "k \<noteq> length us - 1"
    then have "Suc k < length us"
      using k(1) by linarith
    then have "us = take k us @ us ! k # us ! Suc k # drop (Suc (Suc k)) us"
      by (simp add: Cons_nth_drop_Suc id_take_nth_drop)
    then have "unit_move x (us ! k) (us ! Suc k)"
      by (rule history_consecutive [OF assms])
    then show False
      using scrapped_stuck k(2) by blast
  qed
next
  fix nxt
  show "u_state (last us) = Scrapped \<Longrightarrow>
      transition_to x (last us) nxt = Inl (RetiredUid (unit_uid_display x (u_uid (last us))))"
    by (simp add: transition_to_def)
qed

definition demo_unit :: traced_unit where
  "demo_unit = \<lparr>u_id = 1, u_uid = UnitUid (PublicId 42), u_tenant_id = 1, u_plant_id = 1,
     u_product_revision_id = 1, u_job_card_id = 1, u_serial = ''SN1'', u_state = Born,
     u_current_operation = None, u_index_in_job = 0\<rparr>"

lemma demo_history:
  "history demo_externals [demo_unit, demo_unit\<lparr>u_state := Scrapped\<rparr>]"
  using history.later [where us = "[]", OF _ move, of demo_externals demo_unit Scrapped]
    history.birth [of demo_unit]
  by (simp add: transition_to_def demo_unit_def)

lemma scrapped_is_final_witness:
  "transition_to demo_externals (demo_unit\<lparr>u_state := Scrapped\<rparr>) InProcess
     = Inl (RetiredUid (unit_uid_display demo_externals (UnitUid (PublicId 42))))"
  using scrapped_is_final [OF demo_history] by (simp add: demo_unit_def)

text \<open>
  A unit is shipped only off a completed route: in every history that starts at birth, a
  Shipped state directly follows Completed and a Completed state directly follows InProcess, so
  a shipped unit has been in process.
\<close>

theorem shipped_only_after_completion:
  assumes "history x us" and "k < length us" and "u_state (us ! k) = Shipped"
  shows "2 \<le> k \<and> u_state (us ! (k - 1)) = Completed \<and> u_state (us ! (k - 2)) = InProcess"
proof -
  have born: "u_state (us ! 0) = Born"
    using history_starts [OF assms(1)] by (metis hd_conv_nth)
  have step: "can_transition_to (u_state (us ! i)) (u_state (us ! Suc i))" if "Suc i < length us" for i
  proof -
    have "us = take i us @ us ! i # us ! Suc i # drop (Suc (Suc i)) us"
      using that by (simp add: Cons_nth_drop_Suc id_take_nth_drop)
    then show ?thesis
      using history_consecutive [OF assms(1)] unit_move_state by blast
  qed
  from born assms(3) obtain i where i: "k = Suc i"
    by (cases k) auto
  have c: "u_state (us ! i) = Completed"
    using step [of i] assms(2,3) i move_into_Shipped by simp
  with born obtain j where j: "i = Suc j"
    by (cases i) auto
  have "u_state (us ! j) = InProcess"
    using step [of j] assms(2) c i j move_into_Completed by simp
  then show ?thesis
    using c i j by simp
qed

lemma demo_shipped_history:
  "history demo_externals [demo_unit, demo_unit\<lparr>u_state := InProcess\<rparr>,
     demo_unit\<lparr>u_state := Completed\<rparr>, demo_unit\<lparr>u_state := Shipped\<rparr>]"
proof -
  let ?u = "\<lambda>s. demo_unit\<lparr>u_state := s\<rparr>"
  have s: "unit_move demo_externals (?u a) (?u b)" if "can_transition_to a b" for a b
    using that by (simp add: unit_move_state)
  have "history demo_externals [?u Born]"
    by (rule history.birth) simp
  then have "history demo_externals [?u Born, ?u InProcess]"
    using history.later [where us = "[]", OF _ s, of Born InProcess] by simp
  then have "history demo_externals [?u Born, ?u InProcess, ?u Completed]"
    using history.later [where us = "[_]", OF _ s, of _ InProcess Completed] by simp
  then have "history demo_externals [?u Born, ?u InProcess, ?u Completed, ?u Shipped]"
    using history.later [where us = "[_, _]", OF _ s, of _ _ Completed Shipped] by simp
  moreover have "?u Born = demo_unit"
    by (simp add: demo_unit_def)
  ultimately show ?thesis
    by simp
qed

lemma shipped_only_after_completion_witness:
  "u_state ([demo_unit, demo_unit\<lparr>u_state := InProcess\<rparr>,
     demo_unit\<lparr>u_state := Completed\<rparr>, demo_unit\<lparr>u_state := Shipped\<rparr>] ! (3 - 1)) = Completed"
  using shipped_only_after_completion [OF demo_shipped_history, of 3]
  by (simp add: numeral_3_eq_3)

end
