(* ===== verification/Engine.thy ===== *)
theory Engine
  imports Config UnitModel
begin

text \<open>
  The route engine: \<open>crates/trace-core/src/engine.rs\<close>.  Every gate is a function of the
  operation context; the engine says which operation a station may perform, whether the unit
  advances, and where it goes when it does not.  References held by the context are the values
  they refer to.
\<close>

section \<open>What the engine looks at\<close>

record component_scan =
  sc_part_no :: code
  sc_bom_line_id :: "row_id option"
  sc_raw :: string

record captured_value =
  cv_dcp_id :: row_id
  cv_value :: val
  cv_verdict :: verdict

record mark_verification =
  mv_decoded :: string
  mv_grade :: "char option"

record operation_context =
  oc_unit :: traced_unit
  oc_revision :: product_revision
  oc_route :: route
  oc_operation :: route_operation
  oc_operation_def :: operation_def
  oc_station :: station
  oc_operator :: "operator option"
  oc_completed :: "operation_seq set"
  oc_scanned_identity :: "unit_uid option"
  oc_component_scans :: "component_scan list"
  oc_captured :: "captured_value list"
  oc_dcps :: "data_collection_point list"
  oc_test_verdicts :: "(string, verdict) btree"
  oc_mark_verification :: "mark_verification option"
  oc_attempt :: u32

section \<open>What it answers\<close>

record gate_result =
  gr_gate :: string
  gr_passed :: bool
  gr_reason :: "string option"

definition pass :: "string \<Rightarrow> gate_result" where
  "pass gate = \<lparr>gr_gate = gate, gr_passed = True, gr_reason = None\<rparr>"

definition fail :: "string \<Rightarrow> string \<Rightarrow> gate_result" where
  "fail gate reason = \<lparr>gr_gate = gate, gr_passed = False, gr_reason = Some reason\<rparr>"

datatype effect = ReleaseInterlock row_id

datatype disposition =
    DRetry u32
  | DRework operation_seq "operation_seq list"
  | DQuarantine
  | DScrap

datatype advance =
    Adv_Completed "gate_result list" "effect list" "operation_seq list" bool
  | Adv_Blocked "gate_result list" "gate_result list" disposition

fun is_completed :: "advance \<Rightarrow> bool" where
  "is_completed (Adv_Completed _ _ _ _) = True"
| "is_completed (Adv_Blocked _ _ _) = False"

section \<open>The gates\<close>

definition gate_identity :: "externals \<Rightarrow> string \<Rightarrow> operation_context \<Rightarrow> gate_result" where
  "gate_identity x kind ctx =
     (case oc_scanned_identity ctx of
        Some scanned \<Rightarrow>
          if scanned = u_uid (oc_unit ctx) then pass kind
          else fail kind (''scanned '' @ unit_uid_display x scanned
            @ '' but the unit at this station is '' @ unit_uid_display x (u_uid (oc_unit ctx)))
      | None \<Rightarrow> fail kind ''no unit identity was scanned'')"

definition gate_operator_auth :: "string \<Rightarrow> operation_context \<Rightarrow> gate_result" where
  "gate_operator_auth kind ctx =
     (case oc_operator ctx of
        None \<Rightarrow> fail kind ''no operator is logged in''
      | Some op \<Rightarrow>
          if \<not> opr_active op then fail kind (''operator '' @ opr_username op @ '' is deactivated'')
          else (case od_required_skill (oc_operation_def ctx) of
              Some skill \<Rightarrow>
                if \<not> is_certified_for op skill
                then fail kind (''operator '' @ opr_username op @ '' is not certified for skill ''
                  @ show_int skill @ '' required by '' @ od_name (oc_operation_def ctx))
                else pass kind
            | None \<Rightarrow> pass kind))"

definition gate_precondition :: "string \<Rightarrow> operation_context \<Rightarrow> gate_result" where
  "gate_precondition kind ctx =
     (if predecessors_satisfied (oc_route ctx) (oc_operation ctx) (oc_completed ctx) then pass kind
      else fail kind (''required predecessors not complete: '' @
        debug_list show_word
          (filter (\<lambda>p. p \<notin> oc_completed ctx) (ro_predecessors (oc_operation ctx)))))"

definition gate_component_verify ::
  "string \<Rightarrow> row_id list \<Rightarrow> operation_context \<Rightarrow> gate_result" where
  "gate_component_verify kind bom_line_ids ctx =
     (case find (\<lambda>s. sc_bom_line_id s = None) (oc_component_scans ctx) of
        Some bad \<Rightarrow> fail kind
          (''scanned part '' @ as_str (sc_part_no bad) @ '' is not on the BOM for this operation'')
      | None \<Rightarrow>
          (let scanned = set (List.map_filter sc_bom_line_id (oc_component_scans ctx));
               missing = filter (\<lambda>i. i \<notin> scanned) bom_line_ids
           in if missing = [] then pass kind
              else fail kind (''BOM lines not verified: '' @ debug_list show_int missing)))"

text \<open>The problem one data collection point raises, if any.\<close>

definition dcp_problem ::
  "externals \<Rightarrow> (row_id, captured_value) btree \<Rightarrow> u64 \<Rightarrow> data_collection_point \<Rightarrow> string option" where
  "dcp_problem x captured index d =
     (if \<not> applies_to (dcp_sample_rule d) index then None
      else case bt_get captured (dcp_id d) of
        None \<Rightarrow> if dcp_mandatory d then Some (dcp_name d @ '' not captured'') else None
      | Some c \<Rightarrow>
          if cv_verdict c = V_Fail
          then Some (dcp_name d @ '' = '' @ canonical x (cv_value c) @ '' is outside limits ''
            @ debug_option (dbg_f64 x) (lim_min (dcp_limits d)) @ ''..''
            @ debug_option (dbg_f64 x) (lim_max (dcp_limits d)))
          else None)"

definition gate_data_capture :: "externals \<Rightarrow> string \<Rightarrow> operation_context \<Rightarrow> gate_result" where
  "gate_data_capture x kind ctx =
     (let captured = bt_collect (map (\<lambda>c. (cv_dcp_id c, c)) (oc_captured ctx));
          problems = List.map_filter
            (dcp_problem x captured (u_index_in_job (oc_unit ctx))) (oc_dcps ctx)
      in if problems = [] then pass kind else fail kind (join_with ''; '' problems))"

definition gate_test_pass :: "string \<Rightarrow> string \<Rightarrow> operation_context \<Rightarrow> gate_result" where
  "gate_test_pass kind test_name ctx =
     (case bt_get (oc_test_verdicts ctx) test_name of
        Some V_Pass \<Rightarrow> pass kind
      | Some V_Fail \<Rightarrow> fail kind (''test '' @ test_name @ '' failed'')
      | None \<Rightarrow> fail kind (''test '' @ test_name @ '' has no verdict''))"

definition gate_mark_verified :: "externals \<Rightarrow> string \<Rightarrow> operation_context \<Rightarrow> gate_result" where
  "gate_mark_verified x kind ctx =
     (if rev_mark_method (oc_revision ctx) = NoMark then pass kind
      else case oc_mark_verification ctx of
        None \<Rightarrow> fail kind ''mark was not read back''
      | Some v \<Rightarrow>
          (let intended = unit_uid_display x (u_uid (oc_unit ctx)) in
           if mv_decoded v \<noteq> intended
           then fail kind (''mark decoded as '' @ mv_decoded v @ '' but this unit is '' @ intended)
           else case (rev_min_mark_grade (oc_revision ctx), mv_grade v) of
             (Some minimum, Some actual) \<Rightarrow>
               if actual > minimum
               then fail kind (''mark graded '' @ [actual] @ '', below the minimum '' @ [minimum]
                 @ '' for this revision'')
               else pass kind
           | (Some minimum, None) \<Rightarrow> fail kind (''revision requires grade '' @ [minimum]
                @ '' but the reader reported none'')
           | _ \<Rightarrow> pass kind))"

fun evaluate_gate :: "externals \<Rightarrow> gate \<Rightarrow> operation_context \<Rightarrow> gate_result" where
  "evaluate_gate x Identity ctx = gate_identity x (gate_kind Identity) ctx"
| "evaluate_gate x OperatorAuth ctx = gate_operator_auth (gate_kind OperatorAuth) ctx"
| "evaluate_gate x Precondition ctx = gate_precondition (gate_kind Precondition) ctx"
| "evaluate_gate x (ComponentVerify ids) ctx =
     gate_component_verify (gate_kind (ComponentVerify ids)) ids ctx"
| "evaluate_gate x DataCapture ctx = gate_data_capture x (gate_kind DataCapture) ctx"
| "evaluate_gate x (TestPass t) ctx = gate_test_pass (gate_kind (TestPass t)) t ctx"
| "evaluate_gate x MarkVerified ctx = gate_mark_verified x (gate_kind MarkVerified) ctx"
| "evaluate_gate x (InterlockOut i) ctx = pass (gate_kind (InterlockOut i))"

section \<open>Advancing\<close>

fun disposition_for :: "failure_path \<Rightarrow> u32 \<Rightarrow> disposition" where
  "disposition_for (Retry max_attempts) attempt =
     (if attempt < max_attempts then DRetry (max_attempts - attempt) else DQuarantine)"
| "disposition_for (Rework to_operation invalidates) attempt = DRework to_operation invalidates"
| "disposition_for Quarantine attempt = DQuarantine"
| "disposition_for Scrap attempt = DScrap"

text \<open>The output gates: the effects they emit and the results they record.\<close>

fun emit_outputs :: "gate list \<Rightarrow> effect list \<times> gate_result list" where
  "emit_outputs [] = ([], [])"
| "emit_outputs (g # gs) =
     (let (effects, results) = emit_outputs gs in
      case g of
        InterlockOut device_id \<Rightarrow>
          (ReleaseInterlock device_id # effects, pass (gate_kind g) # results)
      | _ \<Rightarrow> (effects, results))"

definition try_advance :: "externals \<Rightarrow> operation_context \<Rightarrow> advance" where
  "try_advance x ctx =
     (let op = oc_operation ctx;
          gates = map (\<lambda>g. evaluate_gate x g ctx) (filter (\<lambda>g. \<not> is_output g) (ro_gates op));
          failures = filter (\<lambda>g. \<not> gr_passed g) gates
      in if failures \<noteq> []
         then Adv_Blocked gates failures (disposition_for (ro_failure_path op) (oc_attempt ctx))
         else
           let (effects, outputs) = emit_outputs (filter is_output (ro_gates op));
               completed_after = insert (ro_seq op) (oc_completed ctx);
               next_ready = map ro_seq (ready_operations (oc_route ctx) completed_after)
           in Adv_Completed (gates @ outputs) effects next_ready
                (is_complete (oc_route ctx) completed_after))"

definition resolve_operation ::
  "route \<Rightarrow> traced_unit \<Rightarrow> station \<Rightarrow> operation_seq set \<Rightarrow> core_error + route_operation" where
  "resolve_operation r u st completed =
     (if \<not> accepts_work (u_state u)
      then Inl (IllegalTransition (state_name (u_state u)) ''start an operation'')
      else if \<not> station_active st then Inl (StationCannotServe (as_str (station_code st)))
      else case find (\<lambda>op. can_perform st (ro_operation_def_id op)) (ready_operations r completed) of
        Some op \<Rightarrow> Inr op
      | None \<Rightarrow> Inl (StationCannotServe (as_str (station_code st))))"

fun apply_disposition ::
  "externals \<Rightarrow> traced_unit \<Rightarrow> disposition \<Rightarrow> core_error + traced_unit" where
  "apply_disposition x u (DRetry _) = Inr u"
| "apply_disposition x u (DRework to_operation _) =
     and_then (transition_to x u Reworking)
       (\<lambda>u'. Inr (u'\<lparr>u_current_operation := Some to_operation\<rparr>))"
| "apply_disposition x u DQuarantine = transition_to x u Quarantined"
| "apply_disposition x u DScrap = transition_to x u Scrapped"

section \<open>What each gate means\<close>

text \<open>
  The gates as an auditor would state them, without the order in which the code looks.  The last
  reading captured for a data collection point is the one that counts.
\<close>

definition last_captured :: "operation_context \<Rightarrow> row_id \<Rightarrow> captured_value option" where
  "last_captured ctx i = find (\<lambda>c. cv_dcp_id c = i) (rev (oc_captured ctx))"

definition dcp_satisfied :: "operation_context \<Rightarrow> data_collection_point \<Rightarrow> bool" where
  "dcp_satisfied ctx d \<longleftrightarrow>
     \<not> applies_to (dcp_sample_rule d) (u_index_in_job (oc_unit ctx))
     \<or> (case last_captured ctx (dcp_id d) of
          None \<Rightarrow> \<not> dcp_mandatory d
        | Some c \<Rightarrow> cv_verdict c = V_Pass)"

definition grade_ok :: "char option \<Rightarrow> char option \<Rightarrow> bool" where
  "grade_ok minimum graded \<longleftrightarrow>
     (case minimum of None \<Rightarrow> True | Some m \<Rightarrow> (\<exists>a. graded = Some a \<and> a \<le> m))"

fun gate_holds :: "externals \<Rightarrow> operation_context \<Rightarrow> gate \<Rightarrow> bool" where
  "gate_holds x ctx Identity = (oc_scanned_identity ctx = Some (u_uid (oc_unit ctx)))"
| "gate_holds x ctx OperatorAuth =
     (\<exists>p. oc_operator ctx = Some p \<and> opr_active p \<and>
        (case od_required_skill (oc_operation_def ctx) of
           None \<Rightarrow> True | Some skill \<Rightarrow> skill \<in> opr_certifications p))"
| "gate_holds x ctx Precondition =
     (\<forall>p \<in> set (ro_predecessors (oc_operation ctx)) - oc_completed ctx.
        \<exists>op. operation (oc_route ctx) p = Some op \<and> ro_requirement op = Optional)"
| "gate_holds x ctx (ComponentVerify ids) =
     ((\<forall>s \<in> set (oc_component_scans ctx). sc_bom_line_id s \<noteq> None)
      \<and> Some ` set ids \<subseteq> sc_bom_line_id ` set (oc_component_scans ctx))"
| "gate_holds x ctx DataCapture = (\<forall>d \<in> set (oc_dcps ctx). dcp_satisfied ctx d)"
| "gate_holds x ctx (TestPass t) = (bt_get (oc_test_verdicts ctx) t = Some V_Pass)"
| "gate_holds x ctx MarkVerified =
     (rev_mark_method (oc_revision ctx) = NoMark \<or>
      (\<exists>v. oc_mark_verification ctx = Some v
         \<and> mv_decoded v = unit_uid_display x (u_uid (oc_unit ctx))
         \<and> grade_ok (rev_min_mark_grade (oc_revision ctx)) (mv_grade v)))"
| "gate_holds x ctx (InterlockOut i) = True"

lemma passed_simps [simp, gate_eval]: "gr_passed (pass k)" "\<not> gr_passed (fail k s)"
  by (simp_all add: pass_def fail_def)

lemma identity_passes [gate_eval]:
  "gr_passed (gate_identity x k ctx) \<longleftrightarrow> gate_holds x ctx Identity"
  by (auto simp: gate_identity_def split: option.splits)

lemma operator_auth_passes [gate_eval]:
  "gr_passed (gate_operator_auth k ctx) \<longleftrightarrow> gate_holds x ctx OperatorAuth"
  by (auto simp: gate_operator_auth_def is_certified_for_def split: option.splits)

lemma precondition_passes [gate_eval]:
  "gr_passed (gate_precondition k ctx) \<longleftrightarrow> gate_holds x ctx Precondition"
  by (auto simp: gate_precondition_def predecessors_satisfied_def list_all_iff split: option.splits)

lemma component_verify_passes [gate_eval]:
  "gr_passed (gate_component_verify k ids ctx) \<longleftrightarrow> gate_holds x ctx (ComponentVerify ids)"
proof (cases "find (\<lambda>s. sc_bom_line_id s = None) (oc_component_scans ctx)")
  case None
  then have all: "\<forall>s \<in> set (oc_component_scans ctx). sc_bom_line_id s \<noteq> None"
    by (simp add: find_None_all)
  have "i \<in> set (List.map_filter sc_bom_line_id (oc_component_scans ctx)) \<longleftrightarrow>
      Some i \<in> sc_bom_line_id ` set (oc_component_scans ctx)" for i
    by (auto simp: List.map_filter_def image_iff eq_commute)
  then have "gr_passed (gate_component_verify k ids ctx) \<longleftrightarrow>
      (\<forall>i \<in> set ids. Some i \<in> sc_bom_line_id ` set (oc_component_scans ctx))"
    using None by (simp add: gate_component_verify_def Let_def filter_empty_all)
  then show ?thesis
    using all by auto
next
  case (Some bad)
  then show ?thesis
    using find_Some_iff_mem [OF Some] by (auto simp: gate_component_verify_def)
qed

lemma captured_lookup:
  "bt_get (bt_collect (map (\<lambda>c. (cv_dcp_id c, c)) cs)) i = find (\<lambda>c. cv_dcp_id c = i) (rev cs)"
proof -
  have "map_of (map (\<lambda>c. (cv_dcp_id c, c)) xs) i = find (\<lambda>c. cv_dcp_id c = i) xs" for xs
    by (induction xs) auto
  then show ?thesis
    by (simp add: bt_get_collect rev_map)
qed

lemma dcp_problem_None:
  "dcp_problem x (bt_collect (map (\<lambda>c. (cv_dcp_id c, c)) (oc_captured ctx)))
     (u_index_in_job (oc_unit ctx)) d = None \<longleftrightarrow> dcp_satisfied ctx d"
proof -
  have "v = V_Fail \<longleftrightarrow> v \<noteq> V_Pass" for v
    by (cases v) auto
  then show ?thesis
    by (auto simp: dcp_problem_def dcp_satisfied_def captured_lookup last_captured_def
        split: option.splits)
qed

lemma data_capture_passes [gate_eval]:
  "gr_passed (gate_data_capture x k ctx) \<longleftrightarrow> gate_holds x ctx DataCapture"
  by (auto simp: gate_data_capture_def Let_def List.map_filter_def filter_empty_all dcp_problem_None)

lemma test_pass_passes [gate_eval]:
  "gr_passed (gate_test_pass k t ctx) \<longleftrightarrow> gate_holds x ctx (TestPass t)"
  by (auto simp: gate_test_pass_def split: option.splits verdict.splits)

lemma mark_verified_passes [gate_eval]:
  "gr_passed (gate_mark_verified x k ctx) \<longleftrightarrow> gate_holds x ctx MarkVerified"
  by (auto simp: gate_mark_verified_def Let_def grade_ok_def split: option.splits if_splits)

lemma evaluate_gate_holds: "gr_passed (evaluate_gate x g ctx) \<longleftrightarrow> gate_holds x ctx g"
  by (cases g) (simp_all add: gate_eval del: gate_holds.simps, simp)

section \<open>Advancing is safe and exact\<close>

lemma emit_outputs_eq:
  "emit_outputs (filter is_output gs) =
     (map (\<lambda>g. case g of InterlockOut i \<Rightarrow> ReleaseInterlock i) (filter is_output gs),
      map (\<lambda>g. pass (gate_kind g)) (filter is_output gs))"
proof (induction gs)
  case (Cons g gs)
  then show ?case
    by (cases g) (simp_all add: Let_def)
qed simp

definition interlocks :: "gate list \<Rightarrow> row_id list" where
  "interlocks gs = concat (map (\<lambda>g. case g of InterlockOut i \<Rightarrow> [i] | _ \<Rightarrow> []) gs)"

lemma emitted_effects: "fst (emit_outputs (filter is_output gs)) = map ReleaseInterlock (interlocks gs)"
proof -
  have "map (\<lambda>g. case g of InterlockOut i \<Rightarrow> ReleaseInterlock i) (filter is_output gs)
      = map ReleaseInterlock (interlocks gs)"
  proof (induction gs)
    case (Cons g gs)
    then show ?case
      by (cases g) (simp_all add: interlocks_def)
  qed (simp add: interlocks_def)
  then show ?thesis
    by (simp add: emit_outputs_eq)
qed

definition entry_gates_hold :: "externals \<Rightarrow> operation_context \<Rightarrow> bool" where
  "entry_gates_hold x ctx \<longleftrightarrow> (\<forall>g \<in> set (ro_gates (oc_operation ctx)). gate_holds x ctx g)"

lemma failures_empty_iff:
  "filter (\<lambda>g. \<not> gr_passed g) (map (\<lambda>g. evaluate_gate x g ctx)
     (filter (\<lambda>g. \<not> is_output g) (ro_gates (oc_operation ctx)))) = []
   \<longleftrightarrow> entry_gates_hold x ctx"
proof -
  have "is_output g \<Longrightarrow> gate_holds x ctx g" for g
    by (cases g) simp_all
  then show ?thesis
    by (auto simp: entry_gates_hold_def filter_empty_all evaluate_gate_holds)
qed

lemma try_advance_completed:
  "is_completed (try_advance x ctx) \<longleftrightarrow> entry_gates_hold x ctx"
  using failures_empty_iff [of x ctx] by (auto simp: try_advance_def Let_def split: prod.splits)

text \<open>
  C3: A unit advances exactly when every gate of the operation holds, each gate read off the
  context as an auditor would state it: the scanned identity is the unit's, an active operator
  with the required skill is logged in, every predecessor is done or optional, every scan is on
  the bill of materials and every listed line was scanned, the last reading of every sampled
  point passes (and is present when mandatory), the test passed, and the mark reads back as the
  unit's own identity at no worse than the minimum grade.
\<close>

theorem advance_iff_gates_hold:
  "is_completed (try_advance x ctx) \<longleftrightarrow>
     list_all (gate_holds x ctx) (ro_gates (oc_operation ctx))"
  by (simp add: try_advance_completed entry_gates_hold_def list_all_iff)

lemma try_advance_outcome_completed:
  "try_advance x ctx = Adv_Completed gates effects next_ready route_complete \<Longrightarrow>
     route_complete = is_complete (oc_route ctx) (insert (ro_seq (oc_operation ctx)) (oc_completed ctx))"
  by (auto simp: try_advance_def Let_def split: prod.splits if_splits)

text \<open>
  C17: Interlocks are released only by an advance in which every gate holds, and then exactly the
  operation's interlocks in their order; the answer lists what is ready next and whether the route
  is complete.  A blocked unit releases nothing, every gate's result is kept, the failures are
  exactly those that did not pass (at least one), and the disposition is the failure path's.
\<close>

theorem try_advance_outcome:
  "(case try_advance x ctx of
      Adv_Completed results effects next_ready route_complete \<Rightarrow>
        list_all (gate_holds x ctx) (ro_gates (oc_operation ctx))
        \<and> list_all gr_passed results \<and> length results = length (ro_gates (oc_operation ctx))
        \<and> effects = map ReleaseInterlock (interlocks (ro_gates (oc_operation ctx)))
        \<and> next_ready = map ro_seq (ready_operations (oc_route ctx)
            (insert (ro_seq (oc_operation ctx)) (oc_completed ctx)))
        \<and> route_complete = is_complete (oc_route ctx)
            (insert (ro_seq (oc_operation ctx)) (oc_completed ctx))
    | Adv_Blocked results failures disp \<Rightarrow>
        \<not> list_all (gate_holds x ctx) (ro_gates (oc_operation ctx))
        \<and> failures = filter (\<lambda>g. \<not> gr_passed g) results \<and> failures \<noteq> []
        \<and> map gr_passed results = map (gate_holds x ctx)
            (filter (\<lambda>g. \<not> is_output g) (ro_gates (oc_operation ctx)))
        \<and> disp = disposition_for (ro_failure_path (oc_operation ctx)) (oc_attempt ctx))"
proof (cases "entry_gates_hold x ctx")
  case True
  let ?gs = "ro_gates (oc_operation ctx)"
  have all: "list_all (gate_holds x ctx) ?gs"
    using True by (simp add: entry_gates_hold_def list_all_iff)
  obtain eff outs where emit: "emit_outputs (filter is_output ?gs) = (eff, outs)"
    by fastforce
  then have "eff = map ReleaseInterlock (interlocks ?gs)"
    using emitted_effects [of ?gs] by simp
  moreover have "outs = map (\<lambda>g. pass (gate_kind g)) (filter is_output ?gs)"
    using emit by (simp add: emit_outputs_eq)
  moreover have "length (filter is_output ?gs) + length (filter (\<lambda>g. \<not> is_output g) ?gs) = length ?gs"
    by (rule sum_length_filter_compl)
  ultimately show ?thesis
    using all True failures_empty_iff [of x ctx] emit
    by (auto simp: try_advance_def Let_def list_all_iff evaluate_gate_holds)
next
  case False
  then have "\<not> list_all (gate_holds x ctx) (ro_gates (oc_operation ctx))"
    by (simp add: entry_gates_hold_def list_all_iff)
  then show ?thesis
    using False failures_empty_iff [of x ctx]
    by (simp add: try_advance_def Let_def o_def evaluate_gate_holds)
qed

section \<open>Dispositions\<close>

lemma retry_remaining:
  assumes "disposition_for (Retry m) a = DRetry k"
  shows "0 < unat k" and "unat k = unat m - unat a" and "unat a < unat m"
proof -
  have lt: "a < m" and k: "k = m - a"
    using assms by (auto split: if_splits)
  show "unat a < unat m"
    using lt by (simp add: word_less_nat_alt)
  moreover show "unat k = unat m - unat a"
    using lt by (simp add: k unat_sub less_imp_le)
  ultimately show "0 < unat k"
    by simp
qed

text \<open>
  A retry path never loops: the attempts left are the configured ones less those made, without
  wrap-around and at least one, and from the attempt that reaches the maximum on the unit is
  quarantined.
\<close>

theorem retry_is_bounded:
  "(case disposition_for (Retry m) a of
      DRetry k \<Rightarrow> unat a < unat m \<and> unat a + unat k = unat m \<and> 0 < unat k
    | d \<Rightarrow> d = DQuarantine \<and> unat m \<le> unat a)"
proof (cases "a < m")
  case True
  then show ?thesis
    using retry_remaining [of m a "m - a"] by simp
next
  case False
  then show ?thesis
    by (simp add: word_le_nat_alt not_less)
qed

text \<open>
  Applying the disposition of a failed gate moves the unit legally or changes nothing; the
  outcome on each kind of disposition, errors included: a retry leaves the unit as it is,
  quarantine and scrap are the lifecycle's moves, and a rework points the unit at the operation to
  return to, exactly when the lifecycle allows it to start reworking.
\<close>

theorem apply_disposition_outcome:
  "(case apply_disposition x u d of
      Inr u' \<Rightarrow> (u' = u \<and> (\<exists>k. d = DRetry k))
        \<or> (u' = u\<lparr>u_state := Quarantined\<rparr> \<and> d = DQuarantine \<and> can_transition_to (u_state u) Quarantined)
        \<or> (u' = u\<lparr>u_state := Scrapped\<rparr> \<and> d = DScrap \<and> u_state u \<noteq> Scrapped)
        \<or> (\<exists>t voided. d = DRework t voided \<and> can_transition_to (u_state u) Reworking
            \<and> u' = u\<lparr>u_state := Reworking, u_current_operation := Some t\<rparr>)
    | Inl e \<Rightarrow> (u_state u = Scrapped \<and> e = RetiredUid (unit_uid_display x (u_uid u)))
        \<or> (\<exists>action. e = IllegalTransition (state_name (u_state u)) action \<and> u_state u \<noteq> Scrapped
            \<and> d \<noteq> DScrap))"
  by (cases d; cases "u_state u") (simp_all add: transition_to_def)

text \<open>
  A unit that may be worked on but has not advanced yet, being newly born, marked or already in
  rework, cannot be sent for rework: the disposition its failure path asks for is refused as an
  illegal transition, and only a unit already in process is accepted.
\<close>

theorem rework_needs_in_process:
  assumes "accepts_work (u_state u)"
  shows "apply_disposition x u (DRework t voided) =
    (if u_state u = InProcess
     then Inr (u\<lparr>u_state := Reworking, u_current_operation := Some t\<rparr>)
     else Inl (IllegalTransition (state_name (u_state u)) ''move to REWORKING''))"
  using assms by (cases "u_state u") (simp_all add: transition_to_def accepts_work_def)

lemma rework_needs_in_process_witness:
  "apply_disposition demo_externals demo_unit (DRework 10 [10])
     = Inl (IllegalTransition ''BORN'' ''move to REWORKING'')"
  using rework_needs_in_process [of demo_unit demo_externals 10 "[10]"]
  by (simp add: demo_unit_def accepts_work_def)

section \<open>Resolving the operation\<close>

lemma resolve_operation_Inr:
  assumes "resolve_operation r u st done = Inr op"
  shows "accepts_work (u_state u)" and "station_active st" and "op \<in> set (ready_operations r done)"
    and "can_perform st (ro_operation_def_id op)"
  using assms find_Some_iff_mem [of "\<lambda>op. can_perform st (ro_operation_def_id op)" "ready_operations r done" op]
  by (auto simp: resolve_operation_def split: if_splits option.splits)

lemma resolve_operation_exists:
  assumes "accepts_work (u_state u)" and "station_active st"
    and "op \<in> set (ready_operations r done)" and "can_perform st (ro_operation_def_id op)"
  shows "\<exists>op'. resolve_operation r u st done = Inr op'"
proof -
  have "find (\<lambda>op. can_perform st (ro_operation_def_id op)) (ready_operations r done) \<noteq> None"
    using assms(3,4) by (auto simp: find_None_all)
  then show ?thesis
    using assms(1,2) by (auto simp: resolve_operation_def)
qed

text \<open>
  C26: On a validated route that is not complete, a line whose active stations between them are
  equipped for every operation never strands a unit that accepts work: some station resolves an
  operation, and the operation it resolves is ready, the station is equipped for it, and its
  Precondition gate holds.
\<close>

theorem some_station_serves:
  assumes "validate r = Some (Inr ())" and "\<not> is_complete r done" and "accepts_work (u_state u)"
    and "\<forall>op \<in> set (rt_operations r). \<exists>st \<in> set stations.
           station_active st \<and> can_perform st (ro_operation_def_id op)"
  shows "\<exists>st \<in> set stations. \<exists>op. resolve_operation r u st done = Inr op
    \<and> op \<in> set (ready_operations r done) \<and> can_perform st (ro_operation_def_id op)
    \<and> predecessors_satisfied r op done"
proof -
  have "map ro_seq (ready_operations r done) \<noteq> []"
    by (rule route_work.never_stuck [OF assms(1,2)])
  then obtain op where op: "op \<in> set (ready_operations r done)"
    by (cases "ready_operations r done") auto
  then obtain st where st: "st \<in> set stations" "station_active st" "can_perform st (ro_operation_def_id op)"
    using assms(4) by (auto simp: ready_operations_def)
  then obtain op' where res: "resolve_operation r u st done = Inr op'"
    using resolve_operation_exists [OF assms(3) st(2) op st(3)] by blast
  then have "predecessors_satisfied r op' done"
    using resolve_operation_Inr(3) [OF res] by (simp add: ready_operations_def)
  then show ?thesis
    using st(1) res resolve_operation_Inr(3,4) [OF res] by blast
qed

definition demo_station :: "row_id set \<Rightarrow> station" where
  "demo_station ops = \<lparr>station_id = 1, station_line_id = 1, station_code = Code ''ST-01'',
     station_name = ''Station 1'', station_operations = ops, station_active = True\<rparr>"

lemma some_station_serves_witness:
  "\<exists>st \<in> set [demo_station {10, 20}, demo_station {30, 40}].
     \<exists>op. resolve_operation demo_route demo_unit st {10, 20} = Inr op
       \<and> op \<in> set (ready_operations demo_route {10, 20}) \<and> can_perform st (ro_operation_def_id op)
       \<and> predecessors_satisfied demo_route op {10, 20}"
proof (rule some_station_serves [OF demo_route_valid])
  show "\<not> is_complete demo_route {10, 20}"
    by code_simp
  show "accepts_work (u_state demo_unit)"
    by (simp add: accepts_work_def demo_unit_def)
  show "\<forall>op \<in> set (rt_operations demo_route).
      \<exists>st \<in> set [demo_station {10, 20}, demo_station {30, 40}].
        station_active st \<and> can_perform st (ro_operation_def_id op)"
    by (simp add: demo_route_def demo_op_def demo_station_def can_perform_def)
qed

end
