(* ===== verification/RouteSim.thy ===== *)
theory RouteSim
  imports Engine
begin

text \<open>
  The route simulator: \<open>tools/route-sim/src/main.rs\<close>.  It pushes one unit through a
  route, operation by operation, and its exit code is meant as a gate on route configuration.
  Reading and parsing the scenario file is outside the model: a run starts from the parsed
  scenario and from the identity drawn when the scenario fixes none.
\<close>

section \<open>Scenarios\<close>

record operation_input =
  oi_identity_scanned :: bool
  oi_component_scans :: "component_scan list"
  oi_captured :: "captured_value list"
  oi_test_verdicts :: "(string, verdict) btree"
  oi_mark_verification :: "mark_verification option"

text \<open>The derived \<open>Default\<close>, used for an operation the scenario gives no input for.\<close>

definition default_input :: operation_input where
  "default_input = \<lparr>oi_identity_scanned = False, oi_component_scans = [], oi_captured = [],
     oi_test_verdicts = [], oi_mark_verification = None\<rparr>"

record scenario =
  sn_name :: string
  sn_route :: route
  sn_operation_defs :: "operation_def list"
  sn_dcps :: "(string, data_collection_point list) btree"
  sn_stations :: "station list"
  sn_operator :: operator
  sn_revision :: product_revision
  sn_unit_uid :: "string option"
  sn_inputs :: "(string, operation_input) btree"

datatype sim_error =
    SimPanic
  | SimBadRoute core_error
  | SimBadUid string core_error
  | SimNoConvergence
  | SimUnknownDef operation_seq row_id
  | SimCore core_error

section \<open>The report\<close>

definition pad_right :: "nat \<Rightarrow> string \<Rightarrow> string" where
  "pad_right n s = s @ replicate (n - length s) CHR '' ''"

definition pad_left :: "nat \<Rightarrow> string \<Rightarrow> string" where
  "pad_left n s = replicate (n - length s) CHR '' '' @ s"

definition newline :: string where
  "newline = [CHR 0x0A]"

fun debug_effect :: "effect \<Rightarrow> string" where
  "debug_effect (ReleaseInterlock i) = ''ReleaseInterlock { device_id: '' @ show_int i @ '' }''"

fun debug_disposition :: "disposition \<Rightarrow> string" where
  "debug_disposition (DRetry k) = ''Retry { attempts_remaining: '' @ show_word k @ '' }''"
| "debug_disposition (DRework t voided) = ''Rework { to_operation: '' @ show_word t
     @ '', invalidates: '' @ debug_list show_word voided @ '' }''"
| "debug_disposition DQuarantine = ''Quarantine''"
| "debug_disposition DScrap = ''Scrap''"

definition op_line :: "route_operation \<Rightarrow> operation_def \<Rightarrow> station \<Rightarrow> string \<Rightarrow> string" where
  "op_line op def st verdict_text =
     ''  op '' @ pad_left 3 (show_word (ro_seq op)) @ '' '' @ pad_right 24 (od_name def)
     @ '' at '' @ as_str (station_code st) @ '' '' @ verdict_text @ newline"

definition completed_report ::
  "bool \<Rightarrow> route_operation \<Rightarrow> operation_def \<Rightarrow> station \<Rightarrow> gate_result list \<Rightarrow> effect list \<Rightarrow> string" where
  "completed_report verbose op def st gates effects =
     op_line op def st ''PASSED''
     @ (if verbose
        then concat (map (\<lambda>g. ''        gate '' @ pad_right 18 (gr_gate g) @ '' ok'' @ newline) gates)
        else [])
     @ concat (map (\<lambda>e. ''        effect '' @ debug_effect e @ newline) effects)"

definition blocked_report ::
  "route_operation \<Rightarrow> operation_def \<Rightarrow> station \<Rightarrow> gate_result list \<Rightarrow> disposition \<Rightarrow> string" where
  "blocked_report op def st failures disp =
     op_line op def st ''BLOCKED''
     @ concat (map (\<lambda>f. ''        gate '' @ pad_right 18 (gr_gate f) @ '' FAILED: ''
         @ (case gr_reason f of None \<Rightarrow> ''(no reason)'' | Some t \<Rightarrow> t) @ newline) failures)
     @ ''        disposition: '' @ debug_disposition disp @ newline"

section \<open>The run\<close>

record sim_state =
  ss_unit :: traced_unit
  ss_completed :: "operation_seq set"
  ss_out :: string

datatype sim_step = Go_on sim_state | Stop sim_state | Bail sim_error

text \<open>The first station, in the scenario's order, that can take the unit.\<close>

fun first_server ::
  "route \<Rightarrow> traced_unit \<Rightarrow> operation_seq set \<Rightarrow> station list \<Rightarrow> (station \<times> route_operation) option" where
  "first_server r u completed [] = None"
| "first_server r u completed (st # sts) =
     (case resolve_operation r u st completed of
        Inr op \<Rightarrow> Some (st, op)
      | Inl _ \<Rightarrow> first_server r u completed sts)"

definition sim_context ::
  "scenario \<Rightarrow> sim_state \<Rightarrow> station \<Rightarrow> route_operation \<Rightarrow> operation_def \<Rightarrow> operation_context" where
  "sim_context s st station op def =
     (let key = show_word (ro_seq op);
          input = (case bt_get (sn_inputs s) key of None \<Rightarrow> default_input | Some i \<Rightarrow> i);
          dcps = (case bt_get (sn_dcps s) key of None \<Rightarrow> [] | Some ds \<Rightarrow> ds)
      in \<lparr>oc_unit = ss_unit st, oc_revision = sn_revision s, oc_route = sn_route s,
          oc_operation = op, oc_operation_def = def, oc_station = station,
          oc_operator = Some (sn_operator s), oc_completed = ss_completed st,
          oc_scanned_identity =
            (if oi_identity_scanned input then Some (u_uid (ss_unit st)) else None),
          oc_component_scans = oi_component_scans input, oc_captured = oi_captured input,
          oc_dcps = dcps, oc_test_verdicts = oi_test_verdicts input,
          oc_mark_verification = oi_mark_verification input, oc_attempt = 1\<rparr>)"

text \<open>One turn of the loop, after the convergence guard.\<close>

definition sim_turn :: "externals \<Rightarrow> scenario \<Rightarrow> bool \<Rightarrow> sim_state \<Rightarrow> sim_step" where
  "sim_turn x s verbose st =
     (case first_server (sn_route s) (ss_unit st) (ss_completed st) (sn_stations s) of
        None \<Rightarrow> Stop st
      | Some (station, op) \<Rightarrow>
         (case bt_get (bt_collect (map (\<lambda>d. (od_id d, d)) (sn_operation_defs s)))
                 (ro_operation_def_id op) of
            None \<Rightarrow> Bail (SimUnknownDef (ro_seq op) (ro_operation_def_id op))
          | Some def \<Rightarrow>
             (case try_advance x (sim_context s st station op def) of
                Adv_Completed gates effects next_ready route_complete \<Rightarrow>
                  (let out = ss_out st @ completed_report verbose op def station gates effects;
                       completed = insert (ro_seq op) (ss_completed st);
                       u = (ss_unit st)\<lparr>u_current_operation := Some (ro_seq op)\<rparr>
                   in if route_complete
                      then (case transition_to x u Completed of
                          Inl e \<Rightarrow> Bail (SimCore e)
                        | Inr u' \<Rightarrow> Stop \<lparr>ss_unit = u', ss_completed = completed,
                            ss_out = out @ newline @ ''route complete'' @ newline\<rparr>)
                      else Go_on \<lparr>ss_unit = u, ss_completed = completed,
                        ss_out = out @ (if verbose \<and> next_ready \<noteq> []
                          then ''        next ready: '' @ debug_list show_word next_ready @ newline
                          else [])\<rparr>)
              | Adv_Blocked gates failures disp \<Rightarrow>
                  (case apply_disposition x (ss_unit st) disp of
                     Inl e \<Rightarrow> Bail (SimCore e)
                   | Inr u' \<Rightarrow> Stop \<lparr>ss_unit = u', ss_completed = ss_completed st,
                       ss_out = ss_out st @ blocked_report op def station failures disp\<rparr>))))"

function sim_loop ::
  "externals \<Rightarrow> scenario \<Rightarrow> bool \<Rightarrow> nat \<Rightarrow> sim_state \<Rightarrow> sim_error + sim_state" where
  "sim_loop x s verbose guard st =
     (if guard + 1 > length (rt_operations (sn_route s)) * 4 then Inl SimNoConvergence
      else case sim_turn x s verbose st of
        Bail e \<Rightarrow> Inl e
      | Stop st' \<Rightarrow> Inr st'
      | Go_on st' \<Rightarrow> sim_loop x s verbose (guard + 1) st')"
  by pat_completeness auto

termination
  by (relation "measure (\<lambda>(x, s, verbose, guard, st).
        length (rt_operations (sn_route s)) * 4 - guard)") auto

declare sim_loop.simps [simp del]

definition sim_unit :: "scenario \<Rightarrow> unit_uid \<Rightarrow> traced_unit" where
  "sim_unit s uid = \<lparr>u_id = 1, u_uid = uid, u_tenant_id = 1, u_plant_id = 1,
     u_product_revision_id = rev_id (sn_revision s), u_job_card_id = 1,
     u_serial = ''SIM-0000000001'', u_state = InProcess, u_current_operation = None,
     u_index_in_job = 0\<rparr>"

definition sim_header :: "externals \<Rightarrow> scenario \<Rightarrow> unit_uid \<Rightarrow> string" where
  "sim_header x s uid =
     ''route-sim: '' @ sn_name s @ newline
     @ ''route '' @ rt_revision (sn_route s) @ '' on line '' @ show_int (rt_line_id (sn_route s))
     @ '', '' @ show_nat (length (rt_operations (sn_route s))) @ '' operations, ''
     @ show_nat (length (sn_stations s)) @ '' stations'' @ newline @ newline
     @ ''unit '' @ unit_uid_display x uid @ '' (SIM-0000000001)'' @ newline @ newline"

definition sim_run ::
  "externals \<Rightarrow> unit_uid \<Rightarrow> scenario \<Rightarrow> bool \<Rightarrow> sim_error + sim_state" where
  "sim_run x fresh s verbose =
     (case validate (sn_route s) of
        None \<Rightarrow> Inl SimPanic
      | Some (Inl e) \<Rightarrow> Inl (SimBadRoute e)
      | Some (Inr _) \<Rightarrow>
          and_then
            (case sn_unit_uid s of
               None \<Rightarrow> Inr fresh
             | Some t \<Rightarrow> (case newtype_parse UnitUid x t of
                 Inl e \<Rightarrow> Inl (SimBadUid t e) | Inr uid \<Rightarrow> Inr uid))
            (\<lambda>uid. sim_loop x s verbose 0
               \<lparr>ss_unit = sim_unit s uid, ss_completed = {}, ss_out = sim_header x s uid\<rparr>))"

definition debug_seq_set :: "operation_seq set \<Rightarrow> string" where
  "debug_seq_set A = ''{'' @ join_with '', '' (map show_word (sorted_list_of_set A)) @ ''}''"

definition run :: "externals \<Rightarrow> unit_uid \<Rightarrow> scenario \<Rightarrow> bool \<Rightarrow> sim_error + string" where
  "run x fresh s verbose =
     and_then (sim_run x fresh s verbose) (\<lambda>st.
       Inr (ss_out st @ newline @ ''final state: '' @ state_name (u_state (ss_unit st)) @ newline
         @ ''completed operations: '' @ debug_seq_set (ss_completed st) @ newline))"

fun contains :: "string \<Rightarrow> string \<Rightarrow> bool" where
  "contains needle [] = (needle = [])"
| "contains needle (c # cs) = (take (length needle) (c # cs) = needle \<or> contains needle cs)"

text \<open>What \<open>main\<close> exits with: an error of the run, and a report of a blocked operation, fail.\<close>

definition exit_code :: "sim_error + string \<Rightarrow> int" where
  "exit_code r = (case r of Inl _ \<Rightarrow> 1 | Inr report \<Rightarrow> if contains ''BLOCKED'' report then 1 else 0)"

section \<open>Convergence\<close>

lemma first_server_Some:
  "first_server r u done sts = Some (st, op) \<Longrightarrow>
     st \<in> set sts \<and> resolve_operation r u st done = Inr op"
  by (induction sts) (auto split: sum.splits)

lemma first_server_None:
  "first_server r u done sts = None \<longleftrightarrow> (\<forall>st \<in> set sts. \<exists>e. resolve_operation r u st done = Inl e)"
  by (induction sts) (auto split: sum.splits)

lemma sim_turn_Go_on:
  assumes "sim_turn x s verbose st = Go_on st'"
  shows "\<exists>v \<in> set (map ro_seq (ready_operations (sn_route s) (ss_completed st))).
    ss_completed st' = insert v (ss_completed st)"
proof -
  obtain station op where "first_server (sn_route s) (ss_unit st) (ss_completed st) (sn_stations s)
      = Some (station, op)" and "ss_completed st' = insert (ro_seq op) (ss_completed st)"
    using assms by (auto simp: sim_turn_def Let_def
        split: option.splits advance.splits sum.splits if_splits)
  then show ?thesis
    using first_server_Some resolve_operation_Inr(3) by fastforce
qed

lemma sim_turn_Bail: "sim_turn x s verbose st = Bail e \<Longrightarrow> e \<noteq> SimNoConvergence \<and> e \<noteq> SimPanic"
  by (auto simp: sim_turn_def Let_def split: option.splits advance.splits sum.splits if_splits)

lemma sim_loop_converges:
  assumes "card (seqs (sn_route s) - ss_completed st) + guard + 1
      \<le> length (rt_operations (sn_route s)) * 4"
  shows "sim_loop x s verbose guard st \<noteq> Inl SimNoConvergence"
  using assms
proof (induction x s verbose guard st rule: sim_loop.induct)
  case (1 x s verbose guard st)
  show ?case
  proof (cases "sim_turn x s verbose st")
    case (Go_on st')
    obtain v where v: "v \<in> set (map ro_seq (ready_operations (sn_route s) (ss_completed st)))"
        "ss_completed st' = insert v (ss_completed st)"
      using sim_turn_Go_on [OF Go_on] by blast
    then have "card (seqs (sn_route s) - ss_completed st')
        < card (seqs (sn_route s) - ss_completed st)"
      using route_work.remaining_decreases by simp
    then show ?thesis
      using 1 Go_on by (subst sim_loop.simps) auto
  next
    case (Bail e)
    then show ?thesis
      using sim_turn_Bail [OF Bail] by (subst sim_loop.simps) (use 1(2) in auto)
  qed (subst sim_loop.simps, use 1(2) in auto)
qed

lemma sim_loop_no_panic: "sim_loop x s verbose guard st \<noteq> Inl SimPanic"
proof (induction x s verbose guard st rule: sim_loop.induct)
  case (1 x s verbose guard st)
  then show ?case
    using sim_turn_Bail [of x s verbose st]
    by (subst sim_loop.simps) (auto split: sim_step.splits)
qed

text \<open>
  C24: The simulator always converges: on any scenario, whatever the stations and inputs, the guard
  of four turns per operation is never reached, and validating the route never panics.
\<close>

theorem simulation_converges:
  "sim_run x fresh s verbose \<noteq> Inl SimNoConvergence \<and> sim_run x fresh s verbose \<noteq> Inl SimPanic"
proof (cases "validate (sn_route s)")
  case None
  then show ?thesis
    using validate_exact [of "sn_route s"] by simp
next
  case (Some res)
  show ?thesis
  proof (cases res)
    case (Inr u)
    then have v: "validate (sn_route s) = Some (Inr ())"
      using Some by simp
    then have "length (rt_operations (sn_route s)) = card (seqs (sn_route s))"
        "rt_operations (sn_route s) \<noteq> []"
      using card_seqs validate_well_formed by (auto simp: well_formed_def)
    then have "card (seqs (sn_route s) - {}) + 0 + 1 \<le> length (rt_operations (sn_route s)) * 4"
      by (cases "rt_operations (sn_route s)") simp_all
    then have "sim_loop x s verbose 0 \<lparr>ss_unit = w, ss_completed = {}, ss_out = t\<rparr>
        \<noteq> Inl SimNoConvergence" for w t
      by (intro sim_loop_converges) simp
    then show ?thesis
      using v sim_loop_no_panic
      by (auto simp: sim_run_def outcome split: option.splits sum.splits)
  qed (use Some in \<open>simp add: sim_run_def\<close>)
qed

section \<open>What the exit code says\<close>

lemma contains_take: "take (length needle) t = needle \<Longrightarrow> contains needle t"
  by (cases t) auto

lemma contains_prefix: "contains needle (needle @ b)"
  by (rule contains_take) simp

lemma contains_later: "contains needle b \<Longrightarrow> contains needle (c # b)"
  by simp

lemma contains_middle: "contains needle (a @ needle @ b)"
  by (induction a) (simp_all only: append_Nil append_Cons contains_prefix contains_later)

lemma blocked_report_contains: "contains ''BLOCKED'' (a @ blocked_report op def st fs d @ b)"
proof -
  obtain l r where "a @ blocked_report op def st fs d @ b = l @ ''BLOCKED'' @ r"
    by (metis (no_types, lifting) append.assoc blocked_report_def op_line_def)
  then show ?thesis
    by (simp only: contains_middle)
qed

text \<open>How a run may have ended: completed, stuck with no station to go to, or blocked.\<close>

definition sim_completed :: "scenario \<Rightarrow> sim_state \<Rightarrow> bool" where
  "sim_completed s st \<longleftrightarrow>
     u_state (ss_unit st) = Completed \<and> is_complete (sn_route s) (ss_completed st)"

definition sim_stuck :: "scenario \<Rightarrow> sim_state \<Rightarrow> bool" where
  "sim_stuck s st \<longleftrightarrow> u_state (ss_unit st) = InProcess \<and>
     (\<forall>w \<in> set (sn_stations s). \<exists>e.
        resolve_operation (sn_route s) (ss_unit st) w (ss_completed st) = Inl e)"

definition sim_blocked :: "sim_state \<Rightarrow> bool" where
  "sim_blocked st \<longleftrightarrow>
     (\<exists>a op def w fs d b. ss_out st = a @ blocked_report op def w fs d @ b)"

lemma sim_turn_ends:
  assumes "u_state (ss_unit st) = InProcess"
  shows "(case sim_turn x s verbose st of
      Go_on st' \<Rightarrow> u_state (ss_unit st') = InProcess
    | Stop st' \<Rightarrow> sim_completed s st' \<or> sim_stuck s st' \<or> sim_blocked st'
    | Bail e \<Rightarrow> True)"
proof (cases "first_server (sn_route s) (ss_unit st) (ss_completed st) (sn_stations s)")
  case None
  then have "sim_stuck s st"
    using assms by (simp add: sim_stuck_def first_server_None)
  then show ?thesis
    using None by (simp add: sim_turn_def)
next
  case (Some p)
  obtain station op where p: "p = (station, op)"
    by fastforce
  show ?thesis
  proof (cases "bt_get (bt_collect (map (\<lambda>d. (od_id d, d)) (sn_operation_defs s)))
      (ro_operation_def_id op)")
    case def: (Some def)
    show ?thesis
    proof (cases "try_advance x (sim_context s st station op def)")
      case (Adv_Completed gates effects next_ready route_complete)
      have "route_complete = is_complete (sn_route s) (insert (ro_seq op) (ss_completed st))"
        using try_advance_outcome_completed [OF Adv_Completed] by (simp add: sim_context_def Let_def)
      then show ?thesis
        using Some p def Adv_Completed assms
        by (simp add: sim_turn_def Let_def transition_to_def sim_completed_def)
    next
      case (Adv_Blocked gates failures disp)
      then show ?thesis
        using Some p def
        by (auto simp: sim_turn_def sim_blocked_def split: sum.splits) (metis append_Nil2)
    qed
  qed (use Some p in \<open>simp add: sim_turn_def\<close>)
qed

lemma sim_loop_ends:
  "u_state (ss_unit st) = InProcess \<Longrightarrow> sim_loop x s verbose guard st = Inr st' \<Longrightarrow>
     sim_completed s st' \<or> sim_stuck s st' \<or> sim_blocked st'"
proof (induction x s verbose guard st rule: sim_loop.induct)
  case (1 x s verbose guard st)
  note run = "1.prems"(2) [unfolded sim_loop.simps [of x s verbose guard st]]
  then have "\<not> length (rt_operations (sn_route s)) * 4 < guard + 1"
    by (auto split: if_splits)
  then show ?case
    using sim_turn_ends [OF "1.prems"(1), of s x verbose] "1.IH" run
    by (auto split: sim_step.splits)
qed

text \<open>
  When the simulator exits with zero, no operation was blocked: the run reached the end of the
  route with every required operation completed, or stopped because no station could take the
  unit.
\<close>

theorem exit_zero_means:
  assumes "exit_code (run x fresh s verbose) = 0"
  shows "\<exists>st. sim_run x fresh s verbose = Inr st \<and> (sim_completed s st \<or> sim_stuck s st)"
proof -
  obtain st where st: "sim_run x fresh s verbose = Inr st"
    using assms by (cases "sim_run x fresh s verbose") (auto simp: exit_code_def run_def)
  then obtain uid where "sim_loop x s verbose 0
      \<lparr>ss_unit = sim_unit s uid, ss_completed = {}, ss_out = sim_header x s uid\<rparr> = Inr st"
    by (auto simp: sim_run_def outcome split: option.splits sum.splits)
  then have "sim_completed s st \<or> sim_stuck s st \<or> sim_blocked st"
    by (rule sim_loop_ends [rotated]) (simp add: sim_unit_def)
  moreover have "\<not> sim_blocked st"
  proof
    assume "sim_blocked st"
    then obtain a op def w fs d b where "ss_out st = a @ blocked_report op def w fs d @ b"
      by (auto simp: sim_blocked_def)
    then have "contains ''BLOCKED'' (ss_out st @ rest)" for rest
      using blocked_report_contains [of a op def w fs d "b @ rest"] by simp
    then show False
      using assms st by (simp add: exit_code_def run_def)
  qed
  ultimately show ?thesis
    using st by blast
qed

section \<open>A run that is stuck passes as a success\<close>

definition demo_scenario :: "row_id set \<Rightarrow> bool \<Rightarrow> scenario" where
  "demo_scenario equipped scanned = \<lparr>sn_name = ''demo'',
     sn_route = \<lparr>rt_id = 1, rt_product_revision_id = 1, rt_line_id = 1, rt_revision = ''A'',
       rt_operations = [demo_op 10 Required [] [Identity], demo_op 20 Required [10] []]\<rparr>,
     sn_operation_defs = [\<lparr>od_id = 10, od_name = ''scan'', od_label = ''Scan'', od_dcp_ids = [],
         od_required_skill = None\<rparr>,
       \<lparr>od_id = 20, od_name = ''pack'', od_label = ''Pack'', od_dcp_ids = [],
         od_required_skill = None\<rparr>],
     sn_dcps = [], sn_stations = [demo_station equipped],
     sn_operator = \<lparr>opr_id = 1, opr_tenant_id = 1, opr_username = ''sim'', opr_display_name = ''Sim'',
       opr_certifications = {}, opr_active = True\<rparr>,
     sn_revision = \<lparr>rev_id = 1, rev_product_id = 1, rev_revision = Code ''A'', rev_material = Steel,
       rev_mark_method = Label, rev_min_mark_grade = None, rev_active = True\<rparr>,
     sn_unit_uid = None,
     sn_inputs = (if scanned then [(''10'', default_input\<lparr>oi_identity_scanned := True\<rparr>)] else [])\<rparr>"

text \<open>
  The exit code does not catch a route no station can finish: with a station equipped for the
  first operation only, the run stops with a required operation missing and the unit still in
  process, its report never says BLOCKED, and the process exits with zero, as it does when the
  same route is completed.
\<close>

theorem stuck_run_exits_zero:
  "exit_code (run demo_externals (UnitUid (PublicId 7)) (demo_scenario {10} True) False) = 0
    \<and> exit_code (run demo_externals (UnitUid (PublicId 7)) (demo_scenario {10, 20} True) False) = 0
    \<and> map_sum id ss_completed
        (sim_run demo_externals (UnitUid (PublicId 7)) (demo_scenario {10} True) False) = Inr {10}
    \<and> \<not> is_complete (sn_route (demo_scenario {10} True)) {10}"
  by (intro conjI; code_simp)

text \<open>
  An operation the scenario says nothing about is simulated as not scanned, while an input
  that leaves the field out is read as scanned: with no inputs at all the first operation of the
  same route blocks on its identity gate and the process exits with one.
\<close>

theorem missing_input_is_not_scanned:
  "exit_code (run demo_externals (UnitUid (PublicId 7)) (demo_scenario {10, 20} False) False) = 1
    \<and> map_sum id ss_completed
        (sim_run demo_externals (UnitUid (PublicId 7)) (demo_scenario {10, 20} False) False) = Inr {}"
  by (intro conjI; code_simp)

lemma exit_zero_means_witness:
  "\<exists>st. sim_run demo_externals (UnitUid (PublicId 7)) (demo_scenario {10, 20} True) False = Inr st
     \<and> (sim_completed (demo_scenario {10, 20} True) st \<or> sim_stuck (demo_scenario {10, 20} True) st)"
proof (rule exit_zero_means)
  show "exit_code (run demo_externals (UnitUid (PublicId 7)) (demo_scenario {10, 20} True) False) = 0"
    by code_simp
qed

end
