(* ===== verification/HashChain.thy ===== *)
theory HashChain
  imports Ident
begin

text \<open>
  The per-unit hash chain: \<open>crates/trace-core/src/hash.rs\<close>.  The digest (SHA-256 of the
  \<open>sha2\<close> package, hex-encoded by the \<open>hex\<close> package) is the parameter \<open>H\<close>;
  nothing is assumed of it but the length of its text.
\<close>

definition GENESIS :: string where
  "GENESIS = replicate 64 CHR ''0''"

record chain_link =
  cl_seq :: u64
  cl_prev_hash :: string
  cl_row_hash :: string

definition be_bytes :: "u64 \<Rightarrow> string" where
  "be_bytes w = map (\<lambda>i. char_of (unat (drop_bit (8 * i) w) mod 256)) [7, 6, 5, 4, 3, 2, 1, 0]"

text \<open>The bytes fed to the digest: the previous hash, the payload's length, the payload.\<close>

definition preimage :: "string \<Rightarrow> string \<Rightarrow> string" where
  "preimage prev_hash payload = prev_hash @ be_bytes (of_nat (length payload)) @ payload"

definition row_hash :: "(string \<Rightarrow> string) \<Rightarrow> string \<Rightarrow> string \<Rightarrow> string" where
  "row_hash H prev_hash payload = H (preimage prev_hash payload)"

definition append_link :: "(string \<Rightarrow> string) \<Rightarrow> chain_link option \<Rightarrow> string \<Rightarrow> chain_link" where
  "append_link H tail payload =
     (let (sq, prev) = (case tail of
            Some t \<Rightarrow> (cl_seq t + 1, cl_row_hash t)
          | None \<Rightarrow> (0, GENESIS))
      in \<lparr>cl_seq = sq, cl_prev_hash = prev, cl_row_hash = row_hash H prev payload\<rparr>)"

fun verify_loop ::
  "(string \<Rightarrow> string) \<Rightarrow> string \<Rightarrow> chain_link list \<Rightarrow> string list \<Rightarrow> core_error + unit" where
  "verify_loop H expected_prev (link # links) (payload # payloads) =
     (if cl_prev_hash link \<noteq> expected_prev
      then Inl (HashChainBroken (cl_seq link) expected_prev (cl_prev_hash link))
      else let recomputed = row_hash H (cl_prev_hash link) payload in
        if recomputed \<noteq> cl_row_hash link
        then Inl (HashChainBroken (cl_seq link) recomputed (cl_row_hash link))
        else verify_loop H (cl_row_hash link) links payloads)"
| "verify_loop H expected_prev _ _ = Inr ()"

definition verify ::
  "(string \<Rightarrow> string) \<Rightarrow> chain_link list \<Rightarrow> string list \<Rightarrow> core_error + unit" where
  "verify H links payloads =
     (if length links \<noteq> length payloads
      then Inl (HashChainBroken (of_nat (length links))
        (show_nat (length links) @ '' payloads'') (show_nat (length payloads) @ '' payloads''))
      else verify_loop H GENESIS links payloads)"

section \<open>Chains built by appending\<close>

fun last_option :: "'a list \<Rightarrow> 'a option" where
  "last_option [] = None"
| "last_option xs = Some (last xs)"

lemma last_option_eq: "last_option xs = (if xs = [] then None else Some (last xs))"
  by (cases xs) simp_all

lemma last_option_snoc [simp]: "last_option (xs @ [x]) = Some x"
  by (simp add: last_option_eq)

text \<open>Appending the payloads one by one, each to the tail of the chain so far.\<close>

definition append_all :: "(string \<Rightarrow> string) \<Rightarrow> string list \<Rightarrow> chain_link list" where
  "append_all H payloads =
     foldl (\<lambda>links p. links @ [append_link H (last_option links) p]) [] payloads"

lemma append_all_Nil [simp]: "append_all H [] = []"
  by (simp add: append_all_def)

lemma append_all_snoc [simp]:
  "append_all H (ps @ [p]) = append_all H ps @ [append_link H (last_option (append_all H ps)) p]"
  by (simp add: append_all_def)

lemma length_append_all [simp]: "length (append_all H ps) = length ps"
  by (induction ps rule: rev_induct) auto

lemma GENESIS_length [simp]: "length GENESIS = 64"
  by (simp add: GENESIS_def)

text \<open>The hash the next link must point at.\<close>

definition tip :: "string \<Rightarrow> chain_link list \<Rightarrow> string" where
  "tip prev links = (case last_option links of None \<Rightarrow> prev | Some l \<Rightarrow> cl_row_hash l)"

lemma tip_simps [simp]:
  "tip prev [] = prev"
  "tip prev (l # ls) = tip (cl_row_hash l) ls"
  "tip prev (ls @ [l]) = cl_row_hash l"
  by (cases ls; simp add: tip_def)+

lemma verify_loop_snoc:
  "length ls = length ps \<Longrightarrow> verify_loop H prev (ls @ [l]) (ps @ [p]) = Inr () \<longleftrightarrow>
     verify_loop H prev ls ps = Inr () \<and> cl_prev_hash l = tip prev ls
     \<and> cl_row_hash l = row_hash H (tip prev ls) p"
  by (induction ls ps arbitrary: prev rule: list_induct2) (auto simp: Let_def)

lemma verify_Inr:
  "verify H ls ps = Inr () \<longleftrightarrow> length ls = length ps \<and> verify_loop H GENESIS ls ps = Inr ()"
  by (simp add: verify_def)

lemma verify_snoc:
  "verify H (ls @ [l]) (ps @ [p]) = Inr () \<longleftrightarrow> verify H ls ps = Inr ()
     \<and> cl_prev_hash l = tip GENESIS ls \<and> cl_row_hash l = row_hash H (tip GENESIS ls) p"
  using verify_loop_snoc [of ls ps H GENESIS l p] by (auto simp: verify_Inr)

lemma append_link_fields:
  "cl_prev_hash (append_link H (last_option ls) p) = tip GENESIS ls"
  "cl_row_hash (append_link H (last_option ls) p) = row_hash H (tip GENESIS ls) p"
  by (cases "last_option ls"; simp add: append_link_def tip_def)+

lemma verify_append_all: "verify H (append_all H ps) ps = Inr ()"
  by (induction ps rule: rev_induct) (simp_all add: verify_snoc append_link_fields, simp add: verify_def)

lemma append_all_numbered:
  "verify H (append_all H ps) ps = Inr ()
    \<and> map cl_seq (append_all H ps) = map of_nat [0..<length ps]"
proof (induction ps rule: rev_induct)
  case (snoc p ps)
  have "cl_seq (append_link H (last_option (append_all H ps)) p) = of_nat (length ps)"
  proof (cases ps rule: rev_cases)
    case (snoc qs q)
    have "last (map cl_seq (append_all H ps)) = last (map of_nat [0..<length ps])"
      using snoc.IH by simp
    then have "cl_seq (append_link H (last_option (append_all H qs)) q) = of_nat (length qs)"
      using snoc by simp
    then show ?thesis
      using snoc by (simp add: append_link_def [of H "Some _"] add.commute)
  qed (simp add: append_link_def)
  with snoc.IH show ?case
    by (simp add: verify_snoc append_link_fields)
qed (simp add: verify_def)

text \<open>
  A chain built by appending payloads verifies against those payloads, and its links are
  numbered from zero without a gap (modulo the width of the sequence number).
\<close>

theorem appended_chain_verifies:
  "verify H (append_all H ps) ps = Inr ()
    \<and> map cl_seq (append_all H ps) = map of_nat [0..<length ps]"
  by (rule append_all_numbered)

section \<open>Tampering\<close>

definition sha256_hex :: "(string \<Rightarrow> string) \<Rightarrow> bool" where
  "sha256_hex H \<longleftrightarrow> (\<forall>s. length (H s) = 64)"

text \<open>What was digested for a verified chain, and what breaking the digest on it would mean.\<close>

definition digested :: "chain_link list \<Rightarrow> string list \<Rightarrow> string set" where
  "digested ls ps = (\<lambda>(l, p). preimage (cl_prev_hash l) p) ` set (zip ls ps)"

definition collides :: "(string \<Rightarrow> string) \<Rightarrow> string set \<Rightarrow> bool" where
  "collides H A \<longleftrightarrow> (\<exists>a \<in> A. \<exists>b \<in> A. a \<noteq> b \<and> H a = H b)"

definition hits_genesis :: "(string \<Rightarrow> string) \<Rightarrow> string set \<Rightarrow> bool" where
  "hits_genesis H A \<longleftrightarrow> (\<exists>a \<in> A. H a = GENESIS)"

lemma length_be_bytes [simp]: "length (be_bytes w) = 8"
  by (simp add: be_bytes_def)

text \<open>With previous hashes of one length, the digested bytes determine hash and payload.\<close>

lemma preimage_inject:
  "length p = length p' \<Longrightarrow> preimage p a = preimage p' b \<longleftrightarrow> p = p' \<and> a = b"
  by (auto simp: preimage_def)

lemma digested_snoc:
  "length ls = length ps \<Longrightarrow>
     digested (ls @ [l]) (ps @ [p]) = insert (preimage (cl_prev_hash l) p) (digested ls ps)"
  by (auto simp: digested_def)

lemma digested_breaks_mono:
  assumes "A \<subseteq> B"
  shows "collides H A \<Longrightarrow> collides H B" "hits_genesis H A \<Longrightarrow> hits_genesis H B"
  using assms by (auto simp: collides_def hits_genesis_def)

lemma verify_length: "verify H ls ps = Inr () \<Longrightarrow> length ls = length ps"
  by (simp add: verify_Inr)

lemma verify_last:
  assumes "verify H ls (ps @ [p]) = Inr ()"
  obtains ks k where "ls = ks @ [k]" "verify H ks ps = Inr ()" "cl_prev_hash k = tip GENESIS ks"
    "cl_row_hash k = H (preimage (cl_prev_hash k) p)"
proof (cases ls rule: rev_cases)
  case Nil
  then show ?thesis
    using verify_length [OF assms] by simp
next
  case (snoc ks k)
  then show ?thesis
    using assms that by (simp add: verify_snoc row_hash_def)
qed

lemma tip_length:
  assumes "sha256_hex H" and "verify H ls ps = Inr ()"
  shows "length (tip GENESIS ls) = 64"
proof (cases ps rule: rev_cases)
  case Nil
  then show ?thesis
    using verify_length [OF assms(2)] by simp
next
  case (snoc qs q)
  then show ?thesis
    using assms(1) verify_last [OF assms(2) [unfolded snoc]] by (metis sha256_hex_def tip_simps(3))
qed

lemma tip_genesis:
  assumes "verify H ls ps = Inr ()" and "tip GENESIS ls = GENESIS" and "ps \<noteq> []"
  shows "hits_genesis H (digested ls ps)"
proof -
  obtain qs q where ps: "ps = qs @ [q]"
    using assms(3) by (cases ps rule: rev_cases) auto
  with assms(1) obtain ks k where k: "ls = ks @ [k]" "verify H ks qs = Inr ()"
      "cl_row_hash k = H (preimage (cl_prev_hash k) q)"
    by (metis verify_last)
  then have "H (preimage (cl_prev_hash k) q) = GENESIS"
    using assms(2) by simp
  then show ?thesis
    using verify_length [OF k(2)] by (simp add: ps k(1) digested_snoc hits_genesis_def)
qed

lemma tamper_cases:
  assumes "sha256_hex H"
  shows "verify H ls ps = Inr () \<Longrightarrow> verify H ls' ps' = Inr () \<Longrightarrow> tip GENESIS ls = tip GENESIS ls'
    \<Longrightarrow> ps = ps' \<or> collides H (digested ls ps \<union> digested ls' ps')
       \<or> hits_genesis H (digested ls ps \<union> digested ls' ps')"
proof (induction ps arbitrary: ls ls' ps' rule: rev_induct)
  case Nil
  then have "tip GENESIS ls' = GENESIS"
    using verify_length [OF Nil(1)] by simp
  then show ?case
    using tip_genesis [OF Nil(2)] digested_breaks_mono(2) [OF Un_upper2] by blast
next
  case (snoc p ps)
  from verify_last [OF snoc.prems(1)] obtain ks k where ls: "ls = ks @ [k]"
    and vk: "verify H ks ps = Inr ()" "cl_prev_hash k = tip GENESIS ks"
      "cl_row_hash k = H (preimage (cl_prev_hash k) p)"
    by blast
  show ?case
  proof (cases ps' rule: rev_cases)
    case Nil
    then have "tip GENESIS ls = GENESIS"
      using snoc.prems(3) verify_length [OF snoc.prems(2)] by simp
    then show ?thesis
      using tip_genesis [OF snoc.prems(1)] digested_breaks_mono(2) [OF Un_upper1] by blast
  next
    case qs: (snoc qs q)
    from verify_last [OF snoc.prems(2) [unfolded qs]] obtain js j where ls': "ls' = js @ [j]"
      and vj: "verify H js qs = Inr ()" "cl_prev_hash j = tip GENESIS js"
        "cl_row_hash j = H (preimage (cl_prev_hash j) q)"
      by blast
    let ?a = "preimage (cl_prev_hash k) p" and ?b = "preimage (cl_prev_hash j) q"
    have same: "H ?a = H ?b"
      using snoc.prems(3) vk(3) vj(3) by (simp add: ls ls')
    let ?D = "digested ls (ps @ [p]) \<union> digested ls' ps'"
    have D: "?a \<in> ?D" "?b \<in> ?D" "digested ks ps \<union> digested js qs \<subseteq> ?D"
      using verify_length [OF vk(1)] verify_length [OF vj(1)]
      by (auto simp: ls ls' qs digested_snoc)
    show ?thesis
    proof (cases "?a = ?b")
      case True
      have "length (cl_prev_hash k) = length (cl_prev_hash j)"
        using tip_length [OF assms vk(1)] tip_length [OF assms vj(1)] by (simp add: vk(2) vj(2))
      with True have "tip GENESIS ks = tip GENESIS js" "p = q"
        by (simp_all add: preimage_inject flip: vk(2) vj(2))
      then show ?thesis
        using snoc.IH [OF vk(1) vj(1)] digested_breaks_mono [OF D(3)] qs by blast
    next
      case False
      then have "collides H ?D"
        using same D(1,2) unfolding collides_def by blast
      then show ?thesis
        by blast
    qed
  qed
qed

text \<open>
  C11: History cannot be rewritten under a fixed tip: if two chains both verify and end in the
  same hash then they carry the same payloads, or the bytes digested for them exhibit a collision
  of the digest, or one of them digests to the all-zero genesis hash.
\<close>

theorem tamper_evident:
  assumes "sha256_hex H"
    and "verify H ls ps = Inr ()" and "verify H ls' ps' = Inr ()"
    and "tip GENESIS ls = tip GENESIS ls'"
  shows "ps = ps' \<or> collides H (digested ls ps \<union> digested ls' ps')
    \<or> hits_genesis H (digested ls ps \<union> digested ls' ps')"
  using tamper_cases [OF assms] .

definition demo_digest :: "string \<Rightarrow> string" where
  "demo_digest s = replicate 64 (if s = [] then CHR ''1'' else last s)"

lemma tamper_evident_witness:
  "[''a'', ''b''] = [''c'', ''b''] \<or>
     collides demo_digest (digested (append_all demo_digest [''a'', ''b'']) [''a'', ''b'']
       \<union> digested (append_all demo_digest [''c'', ''b'']) [''c'', ''b''])
     \<or> hits_genesis demo_digest (digested (append_all demo_digest [''a'', ''b'']) [''a'', ''b'']
       \<union> digested (append_all demo_digest [''c'', ''b'']) [''c'', ''b''])"
proof (rule tamper_evident)
  show "sha256_hex demo_digest"
    by (simp add: sha256_hex_def demo_digest_def)
  show "verify demo_digest (append_all demo_digest [''a'', ''b'']) [''a'', ''b''] = Inr ()"
    "verify demo_digest (append_all demo_digest [''c'', ''b'']) [''c'', ''b''] = Inr ()"
    using verify_append_all by blast+
  show "tip GENESIS (append_all demo_digest [''a'', ''b''])
      = tip GENESIS (append_all demo_digest [''c'', ''b''])"
    by (simp add: append_all_def append_link_def tip_def row_hash_def preimage_def demo_digest_def)
qed

text \<open>
  What verification reports: the first link that breaks, all before it being sound.
\<close>

lemma verify_loop_break:
  "length ls = length ps \<Longrightarrow> verify_loop H prev ls ps = Inl e \<Longrightarrow>
     \<exists>k < length ls. verify_loop H prev (take k ls) (take k ps) = Inr ()
       \<and> (\<exists>a b. e = HashChainBroken (cl_seq (ls ! k)) a b)"
proof (induction ls ps arbitrary: prev rule: list_induct2)
  case (Cons l ls p ps)
  show ?case
  proof (cases "cl_prev_hash l = prev \<and> row_hash H prev p = cl_row_hash l")
    case True
    then have "verify_loop H (cl_row_hash l) ls ps = Inl e"
      using Cons.prems by simp
    from Cons.IH [OF this] obtain k where
      "k < length ls" "verify_loop H (cl_row_hash l) (take k ls) (take k ps) = Inr ()"
      "\<exists>a b. e = HashChainBroken (cl_seq (ls ! k)) a b"
      by blast
    then show ?thesis
      using True by (intro exI [of _ "Suc k"]) simp
  next
    case False
    then show ?thesis
      using Cons.prems by (intro exI [of _ 0]) (auto simp: Let_def split: if_splits)
  qed
qed simp

text \<open>Sequence numbers are reported but not checked: renumbering a chain keeps it verified.\<close>

lemma verify_ignores_seq:
  "verify H (map (\<lambda>l. l\<lparr>cl_seq := f l\<rparr>) ls) ps = Inr () \<longleftrightarrow> verify H ls ps = Inr ()"
proof -
  have "verify_loop H prev (map (\<lambda>l. l\<lparr>cl_seq := f l\<rparr>) ls) ps = Inr () \<longleftrightarrow>
      verify_loop H prev ls ps = Inr ()" for prev
    by (induction H prev ls ps rule: verify_loop.induct) (auto simp: Let_def)
  then show ?thesis
    by (simp add: verify_Inr)
qed

end
