(* ===== verification/Sign.thy ===== *)
theory Sign
  imports Ident "HOL-Library.Multiset"
begin

text \<open>
  Canonical JSON and detached signatures: \<open>crates/trace-sign/src/lib.rs\<close>.  The
  encoders and the signature scheme are packages: they are the fields of \<open>sign_lib\<close>, a
  parameter, with their documented laws in \<open>sign_laws\<close>.  Bytes are strings.  A document
  type is known through its \<open>serde\<close> conversions, two more parameters.
\<close>

section \<open>The packages\<close>

datatype json =
    JNull
  | JBool bool
  | JNumber string
  | JString string
  | JArray "json list"
  | JObject "(string \<times> json) list"

text \<open>
  \<open>json_text\<close> is the encoder of \<open>serde_json\<close>, which the code uses on scalars and keys only; the base64 and hex
  decoders return their error text; \<open>ed_public\<close> derives the public key of a seed and
  \<open>ed_point\<close> rejects bytes that are no public key.
\<close>

record sign_lib =
  json_text :: "json \<Rightarrow> string"
  b64_encode :: "string \<Rightarrow> string"
  b64_decode :: "string \<Rightarrow> string + string"
  hex_encode :: "string \<Rightarrow> string"
  hex_decode :: "string \<Rightarrow> string + string"
  ed_public :: "string \<Rightarrow> string"
  ed_point :: "string \<Rightarrow> string + string"
  ed_sign :: "string \<Rightarrow> string \<Rightarrow> string"
  ed_verify :: "string \<Rightarrow> string \<Rightarrow> string \<Rightarrow> bool"
  sha256 :: "string \<Rightarrow> string"

text \<open>
  What the packages document: decoding undoes encoding, an Ed25519 signature has 64 bytes and
  verifies under the public key of its seed.
\<close>

definition sign_laws :: "sign_lib \<Rightarrow> bool" where
  "sign_laws L \<longleftrightarrow>
     (\<forall>b. b64_decode L (b64_encode L b) = Inr b)
     \<and> (\<forall>seed m. length (ed_sign L seed m) = 64)
     \<and> (\<forall>seed m. ed_verify L (ed_public L seed) m (ed_sign L seed m))"

text \<open>Reading a JSON value, as \<open>serde_json::Value\<close> does; an object holds each key once.\<close>

fun json_get :: "json \<Rightarrow> string \<Rightarrow> json option" where
  "json_get (JObject kvs) k = map_of kvs k"
| "json_get _ k = None"

fun json_as_str :: "json \<Rightarrow> string option" where
  "json_as_str (JString s) = Some s"
| "json_as_str _ = None"

definition str_field :: "json \<Rightarrow> string \<Rightarrow> string option" where
  "str_field v k = Option.bind (json_get v k) json_as_str"

fun json_as_u64 :: "json \<Rightarrow> u64 option" where
  "json_as_u64 (JNumber s) = parse_u64 s"
| "json_as_u64 _ = None"

section \<open>Canonical JSON\<close>

datatype sign_error =
    Serialise string
  | MalformedKey string
  | MalformedSignature string
  | BadSignature
  | UnsupportedAlgorithm string

text \<open>The message each error displays.\<close>

fun sign_error_display :: "sign_error \<Rightarrow> string" where
  "sign_error_display (Serialise e) = ''cannot serialise document: '' @ e"
| "sign_error_display (MalformedKey e) = ''malformed key: '' @ e"
| "sign_error_display (MalformedSignature e) = ''malformed signature: '' @ e"
| "sign_error_display BadSignature = ''signature verification failed''"
| "sign_error_display (UnsupportedAlgorithm a) = ''unsupported signature algorithm: '' @ a"

lemma size_field: "(k, v) \<in> set kvs \<Longrightarrow> size v < size (JObject kvs)"
proof -
  assume "(k, v) \<in> set kvs"
  then have "size_prod (\<lambda>_. 0) size (k, v) \<le> size_list (size_prod (\<lambda>_. 0) size) kvs"
    by (rule size_list_estimation') simp
  then show ?thesis
    by simp
qed

lemma size_item: "v \<in> set items \<Longrightarrow> size v < size (JArray items)"
  using size_list_estimation' [of v items "size v" size] by simp

function write_canonical :: "sign_lib \<Rightarrow> json \<Rightarrow> string" where
  "write_canonical L (JObject kvs) =
     ''{'' @ join_with '','' (map (\<lambda>(k, v). json_text L (JString k) @ '':'' @ write_canonical L v)
        (sort_key fst kvs)) @ ''}''"
| "write_canonical L (JArray items) = ''['' @ join_with '','' (map (write_canonical L) items) @ '']''"
| "write_canonical L JNull = json_text L JNull"
| "write_canonical L (JBool b) = json_text L (JBool b)"
| "write_canonical L (JNumber n) = json_text L (JNumber n)"
| "write_canonical L (JString s) = json_text L (JString s)"
  by pat_completeness auto

termination
  by (relation "measure (\<lambda>(L, v). size v)") (auto dest: size_field size_item)

definition canonical_json :: "sign_lib \<Rightarrow> ('d \<Rightarrow> string + json) \<Rightarrow> 'd \<Rightarrow> sign_error + string" where
  "canonical_json L to_value d =
     (case to_value d of Inl e \<Rightarrow> Inl (Serialise e) | Inr v \<Rightarrow> Inr (write_canonical L v))"

section \<open>Keys\<close>

datatype issuer = Issuer string
datatype trusted_key = TrustedKey string

definition issuer_from_seed :: "string \<Rightarrow> sign_error + issuer" where
  "issuer_from_seed seed =
     (if length seed \<noteq> 32
      then Inl (MalformedKey (''expected 32 bytes, got '' @ show_nat (length seed)))
      else Inr (Issuer seed))"

definition issuer_from_hex :: "sign_lib \<Rightarrow> string \<Rightarrow> sign_error + issuer" where
  "issuer_from_hex L seed_hex =
     (case hex_decode L (trim seed_hex) of
        Inl e \<Rightarrow> Inl (MalformedKey e)
      | Inr raw \<Rightarrow> issuer_from_seed raw)"

fun public_key_hex :: "sign_lib \<Rightarrow> issuer \<Rightarrow> string" where
  "public_key_hex L (Issuer seed) = hex_encode L (ed_public L seed)"

fun verifier :: "sign_lib \<Rightarrow> issuer \<Rightarrow> trusted_key" where
  "verifier L (Issuer seed) = TrustedKey (ed_public L seed)"

definition short_key_id :: "sign_lib \<Rightarrow> string \<Rightarrow> string" where
  "short_key_id L vk = hex_encode L (take 4 (sha256 L vk))"

definition ALG_ED25519 :: string where
  "ALG_ED25519 = ''ed25519''"

record envelope =
  env_alg :: string
  env_payload_b64 :: string
  env_signature_b64 :: string
  env_key_id :: string

fun sign ::
  "sign_lib \<Rightarrow> ('d \<Rightarrow> string + json) \<Rightarrow> issuer \<Rightarrow> 'd \<Rightarrow> sign_error + envelope" where
  "sign L to_value (Issuer seed) d =
     and_then (canonical_json L to_value d) (\<lambda>payload.
       Inr \<lparr>env_alg = ALG_ED25519, env_payload_b64 = b64_encode L payload,
            env_signature_b64 = b64_encode L (ed_sign L seed payload),
            env_key_id = short_key_id L (ed_public L seed)\<rparr>)"

definition trusted_from_bytes :: "sign_lib \<Rightarrow> string \<Rightarrow> sign_error + trusted_key" where
  "trusted_from_bytes L raw =
     (if length raw \<noteq> 32
      then Inl (MalformedKey (''expected 32 bytes, got '' @ show_nat (length raw)))
      else case ed_point L raw of
        Inl e \<Rightarrow> Inl (MalformedKey e)
      | Inr vk \<Rightarrow> Inr (TrustedKey vk))"

definition trusted_from_hex :: "sign_lib \<Rightarrow> string \<Rightarrow> sign_error + trusted_key" where
  "trusted_from_hex L key_hex =
     (case hex_decode L (trim key_hex) of
        Inl e \<Rightarrow> Inl (MalformedKey e)
      | Inr raw \<Rightarrow> trusted_from_bytes L raw)"

fun trusted_to_hex :: "sign_lib \<Rightarrow> trusted_key \<Rightarrow> string" where
  "trusted_to_hex L (TrustedKey vk) = hex_encode L vk"

fun key_id :: "sign_lib \<Rightarrow> trusted_key \<Rightarrow> string" where
  "key_id L (TrustedKey vk) = short_key_id L vk"

text \<open>The checks on the envelope, up to the bytes whose signature verified.\<close>

definition decode_b64 :: "sign_lib \<Rightarrow> string \<Rightarrow> sign_error + string" where
  "decode_b64 L s = (case b64_decode L s of Inl e \<Rightarrow> Inl (MalformedSignature e) | Inr b \<Rightarrow> Inr b)"

fun verified_payload :: "sign_lib \<Rightarrow> trusted_key \<Rightarrow> envelope \<Rightarrow> sign_error + string" where
  "verified_payload L (TrustedKey vk) env =
     (if env_alg env \<noteq> ALG_ED25519 then Inl (UnsupportedAlgorithm (env_alg env))
      else and_then (decode_b64 L (env_payload_b64 env)) (\<lambda>payload.
        and_then (decode_b64 L (env_signature_b64 env)) (\<lambda>sig_raw.
          if length sig_raw \<noteq> 64
          then Inl (MalformedSignature (''expected 64 bytes, got '' @ show_nat (length sig_raw)))
          else if \<not> ed_verify L vk payload sig_raw then Inl BadSignature
          else Inr payload)))"

definition trusted_verify ::
  "sign_lib \<Rightarrow> (string \<Rightarrow> string + 'd) \<Rightarrow> trusted_key \<Rightarrow> envelope \<Rightarrow> sign_error + 'd" where
  "trusted_verify L from_slice key env =
     and_then (verified_payload L key env) (\<lambda>payload.
       case from_slice payload of Inl e \<Rightarrow> Inl (Serialise e) | Inr d \<Rightarrow> Inr d)"

definition peek_unverified ::
  "sign_lib \<Rightarrow> (string \<Rightarrow> string + json) \<Rightarrow> envelope \<Rightarrow> sign_error + json" where
  "peek_unverified L from_slice env =
     and_then (decode_b64 L (env_payload_b64 env)) (\<lambda>payload.
       case from_slice payload of Inl e \<Rightarrow> Inl (Serialise e) | Inr d \<Rightarrow> Inr d)"

section \<open>Canonical text does not depend on the order of keys\<close>

text \<open>
  Two JSON values say the same: equal scalars, arrays element by element, objects with the same
  fields in any order.
\<close>

definition field_related :: "(json \<Rightarrow> json \<Rightarrow> bool) \<Rightarrow> string \<times> json \<Rightarrow> string \<times> json \<Rightarrow> bool" where
  "field_related R a b \<longleftrightarrow> fst a = fst b \<and> R (snd a) (snd b)"

lemma field_related_mono [mono]: "R \<le> S \<Longrightarrow> field_related R \<le> field_related S"
  by (auto simp: field_related_def)

inductive says_same :: "json \<Rightarrow> json \<Rightarrow> bool" where
  same_refl: "says_same v v"
| same_array: "list_all2 says_same vs ws \<Longrightarrow> says_same (JArray vs) (JArray ws)"
| same_object: "distinct (map fst fs) \<Longrightarrow> list_all2 (field_related says_same) fs hs
    \<Longrightarrow> mset hs = mset gs \<Longrightarrow> says_same (JObject fs) (JObject gs)"
  monos list_all2_mono

lemma field_relatedD: "field_related R a b \<Longrightarrow> fst a = fst b \<and> R (snd a) (snd b)"
  by (simp add: field_related_def)

lemma insort_related:
  assumes "field_related R a b" and "list_all2 (field_related R) fs gs"
  shows "list_all2 (field_related R) (insort_key fst a fs) (insort_key fst b gs)"
  using assms(2)
proof (induction rule: list_all2_induct)
  case (Cons c fs d gs)
  then show ?case
    using assms(1) field_relatedD [OF assms(1)] field_relatedD [OF Cons(1)] by simp
qed (simp add: assms(1))

lemma sort_related:
  "list_all2 (field_related R) fs gs \<Longrightarrow>
     list_all2 (field_related R) (sort_key fst fs) (sort_key fst gs)"
proof (induction rule: list_all2_induct)
  case (Cons a fs b gs)
  then show ?case
    by (simp add: insort_related)
qed simp

lemma sort_key_permuted:
  assumes "distinct (map fst hs)" and "mset hs = mset gs"
  shows "sort_key fst hs = sort_key fst gs"
proof (rule sort_key_inj_key_eq)
  show "inj_on fst (set hs)"
    using assms(1) by (simp add: distinct_map)
qed (use assms in simp_all)

lemma field_related_keys: "list_all2 (field_related R) fs hs \<Longrightarrow> map fst fs = map fst hs"
  by (induction fs hs rule: list_all2_induct) (auto dest: field_relatedD)

lemma canonical_of_same: "says_same v w \<Longrightarrow> write_canonical L v = write_canonical L w"
proof (induction rule: says_same.induct)
  case (same_array vs ws)
  then have "map (write_canonical L) vs = map (write_canonical L) ws"
    by (induction vs ws rule: list_all2_induct) auto
  then show ?case
    by simp
next
  case (same_object fs hs gs)
  let ?f = "\<lambda>(k, v). json_text L (JString k) @ '':'' @ write_canonical L v"
  note rel = same_object.IH
  have "map ?f xs = map ?f ys"
    if "list_all2 (field_related (\<lambda>v w. says_same v w \<and> write_canonical L v = write_canonical L w)) xs ys"
    for xs ys
    using that by (induction rule: list_all2_induct) (auto dest!: field_relatedD)
  from this [OF sort_related [OF rel]] have "map ?f (sort_key fst fs) = map ?f (sort_key fst hs)" .
  moreover have "sort_key fst hs = sort_key fst gs"
    using sort_key_permuted same_object.hyps field_related_keys [OF rel] by metis
  ultimately show ?case
    by simp
qed simp

text \<open>
  C37: The signed bytes depend on what a document says, not on the order in which its keys were
  inserted: two JSON values that differ only by reordering the fields of objects, at any depth,
  have the same canonical text.
\<close>

theorem canonical_json_order_independent:
  assumes "says_same v w"
  shows "canonical_json L (\<lambda>_. Inr v) () = canonical_json L (\<lambda>_. Inr w) ()"
  using canonical_of_same [OF assms] by (simp add: canonical_json_def)

function compact_text :: "json \<Rightarrow> string" where
  "compact_text (JObject kvs) =
     ''{'' @ join_with '','' (map (\<lambda>(k, v). CHR 0x22 # k @ CHR 0x22 # '':'' @ compact_text v) kvs) @ ''}''"
| "compact_text (JArray items) = ''['' @ join_with '','' (map compact_text items) @ '']''"
| "compact_text JNull = ''null''"
| "compact_text (JBool b) = (if b then ''true'' else ''false'')"
| "compact_text (JNumber n) = n"
| "compact_text (JString s) = CHR 0x22 # s @ [CHR 0x22]"
  by pat_completeness auto

termination
  by (relation "measure size") (auto dest: size_field size_item)

definition demo_lib :: sign_lib where
  "demo_lib = \<lparr>json_text = compact_text,
     b64_encode = (\<lambda>s. s), b64_decode = Inr, hex_encode = (\<lambda>s. s), hex_decode = Inr,
     ed_public = (\<lambda>seed. seed), ed_point = Inr,
     ed_sign = (\<lambda>seed m. replicate 64 (last (CHR ''0'' # m))),
     ed_verify = (\<lambda>vk m sg. sg = replicate 64 (last (CHR ''0'' # m))), sha256 = (\<lambda>s. s)\<rparr>"

lemma canonical_json_order_independent_witness:
  "canonical_json demo_lib (\<lambda>_. Inr (JObject [(''b'', JNumber ''2''), (''a'', JNumber ''1'')])) ()
    = canonical_json demo_lib (\<lambda>_. Inr (JObject [(''a'', JNumber ''1''), (''b'', JNumber ''2'')])) ()"
proof (rule canonical_json_order_independent)
  have "list_all2 (field_related says_same) fs fs" for fs
    by (rule list_all2_refl) (simp add: field_related_def says_same.same_refl)
  then show "says_same (JObject [(''b'', JNumber ''2''), (''a'', JNumber ''1'')])
      (JObject [(''a'', JNumber ''1''), (''b'', JNumber ''2'')])"
    by (rule says_same.same_object [rotated]) simp_all
qed

section \<open>What the canonical writer writes\<close>

text \<open>
  What \<open>serde_json\<close> documents of its own compact writer: an array and an object are their items, written
  in their order between brackets and separated by commas, a field with its key and a colon.
\<close>

definition compact_laws :: "sign_lib \<Rightarrow> bool" where
  "compact_laws L \<longleftrightarrow>
     (\<forall>items. json_text L (JArray items) = ''['' @ join_with '','' (map (json_text L) items) @ '']'')
     \<and> (\<forall>kvs. json_text L (JObject kvs) =
          ''{'' @ join_with '','' (map (\<lambda>(k, v). json_text L (JString k) @ '':'' @ json_text L v) kvs) @ ''}'')"

text \<open>A value with the fields of its objects in the order of their keys, at every depth.\<close>

function sorted_json :: "json \<Rightarrow> json" where
  "sorted_json (JObject kvs) = JObject (sort_key fst (map (\<lambda>(k, v). (k, sorted_json v)) kvs))"
| "sorted_json (JArray items) = JArray (map sorted_json items)"
| "sorted_json JNull = JNull"
| "sorted_json (JBool b) = JBool b"
| "sorted_json (JNumber n) = JNumber n"
| "sorted_json (JString s) = JString s"
  by pat_completeness auto

termination
  by (relation "measure size") (auto dest: size_field size_item)

text \<open>Every object of the value holds each key once, as \<open>serde_json::Map\<close> does.\<close>

inductive keys_once :: "json \<Rightarrow> bool" where
  once_object: "distinct (map fst kvs) \<Longrightarrow> (\<And>k v. (k, v) \<in> set kvs \<Longrightarrow> keys_once v) \<Longrightarrow> keys_once (JObject kvs)"
| once_array: "(\<And>v. v \<in> set items \<Longrightarrow> keys_once v) \<Longrightarrow> keys_once (JArray items)"
| once_null: "keys_once JNull"
| once_bool: "keys_once (JBool b)"
| once_number: "keys_once (JNumber n)"
| once_string: "keys_once (JString s)"

inductive_simps keys_once_object [simp]: "keys_once (JObject kvs)"
inductive_simps keys_once_array [simp]: "keys_once (JArray items)"
declare once_null [simp] once_bool [simp] once_number [simp] once_string [simp]

lemma insort_map_snd:
  "insort_key fst (fst a, g (snd a)) (map (\<lambda>p. (fst p, g (snd p))) kvs)
    = map (\<lambda>p. (fst p, g (snd p))) (insort_key fst a kvs)"
  by (induction kvs) auto

lemma sort_map_snd:
  "sort_key fst (map (\<lambda>(k, v). (k, g v)) kvs) = map (\<lambda>(k, v). (k, g v)) (sort_key fst kvs)"
proof -
  have "sort_key fst (map (\<lambda>p. (fst p, g (snd p))) kvs) = map (\<lambda>p. (fst p, g (snd p))) (sort_key fst kvs)"
    by (induction kvs) (simp_all add: insort_map_snd)
  then show ?thesis
    by (simp add: case_prod_beta')
qed

text \<open>The canonical text is what the library's writer makes of the sorted value.\<close>

lemma write_canonical_text: "compact_laws L \<Longrightarrow> write_canonical L v = json_text L (sorted_json v)"
proof (induction v rule: sorted_json.induct)
  case (1 kvs)
  let ?put = "\<lambda>g (k, v). json_text L (JString k) @ '':'' @ g v"
  have "map (?put (write_canonical L)) (sort_key fst kvs)
      = map (?put (\<lambda>v. json_text L (sorted_json v))) (sort_key fst kvs)"
    using 1 by (auto intro!: map_cong)
  also have "\<dots> = map (?put (json_text L)) (sort_key fst (map (\<lambda>(k, v). (k, sorted_json v)) kvs))"
    unfolding sort_map_snd by auto
  finally show ?case
    using 1(2) by (simp only: write_canonical.simps sorted_json.simps compact_laws_def)
next
  case (2 items)
  then have "map (write_canonical L) items = map (json_text L) (map sorted_json items)"
    by simp
  then show ?case
    using 2(2) by (simp only: write_canonical.simps sorted_json.simps compact_laws_def)
qed simp_all

lemma says_same_sorted: "keys_once v \<Longrightarrow> says_same v (sorted_json v)"
proof (induction rule: keys_once.induct)
  case (once_object kvs)
  let ?g = "\<lambda>(k, v). (k, sorted_json v)"
  have "list_all2 (field_related says_same) kvs (map ?g kvs)"
    using once_object(3) by (auto simp: list.rel_map field_related_def intro!: list.rel_refl_strong)
  then show ?case
    using once_object(1) by (auto intro: same_object)
next
  case (once_array items)
  then have "list_all2 says_same items (map sorted_json items)"
    by (auto simp: list_all2_conv_all_nth)
  then show ?case
    by (auto intro: same_array)
qed (auto intro: same_refl)

section \<open>Signing and verifying\<close>

text \<open>
  What \<open>serde\<close> promises of a document type: its value holds each key once, and the text the library itself
  writes for that value is read back as the document, in whatever order the fields come.
\<close>

definition serde_laws ::
  "sign_lib \<Rightarrow> ('d \<Rightarrow> string + json) \<Rightarrow> (string \<Rightarrow> string + 'd) \<Rightarrow> bool" where
  "serde_laws L to_value from_slice \<longleftrightarrow> compact_laws L
     \<and> (\<forall>d v. to_value d = Inr v \<longrightarrow> keys_once v
          \<and> (\<forall>w. says_same v w \<longrightarrow> from_slice (json_text L w) = Inr d))"

lemma canonical_reads_back:
  assumes "serde_laws L to_value from_slice" and "to_value d = Inr v"
  shows "from_slice (write_canonical L v) = Inr d"
  using assms write_canonical_text [of L v] says_same_sorted [of v] by (simp add: serde_laws_def)

lemma verified_payload_Inr:
  "verified_payload L (TrustedKey vk) env = Inr payload \<longleftrightarrow>
     env_alg env = ALG_ED25519 \<and> b64_decode L (env_payload_b64 env) = Inr payload
     \<and> (\<exists>sg. b64_decode L (env_signature_b64 env) = Inr sg \<and> length sg = 64
           \<and> ed_verify L vk payload sg)"
  by (auto simp: outcome decode_b64_def split: sum.splits if_splits)

lemma trusted_verify_Inr:
  "trusted_verify L from_slice key env = Inr d \<longleftrightarrow>
     (\<exists>payload. verified_payload L key env = Inr payload \<and> from_slice payload = Inr d)"
  by (cases "verified_payload L key env") (auto simp: trusted_verify_def split: sum.splits)

lemma sign_Inr:
  "sign L to_value (Issuer seed) d = Inr env \<longleftrightarrow> (\<exists>v. to_value d = Inr v \<and>
     env = \<lparr>env_alg = ALG_ED25519, env_payload_b64 = b64_encode L (write_canonical L v),
            env_signature_b64 = b64_encode L (ed_sign L seed (write_canonical L v)),
            env_key_id = short_key_id L (ed_public L seed)\<rparr>)"
  by (auto simp: outcome canonical_json_def split: sum.splits)

lemma signed_verifies:
  assumes "sign_laws L" and "serde_laws L to_value from_slice"
    and "sign L to_value iss d = Inr env"
  shows "trusted_verify L from_slice (verifier L iss) env = Inr d
    \<and> env_key_id env = key_id L (verifier L iss)"
proof -
  obtain seed where iss: "iss = Issuer seed"
    by (cases iss)
  obtain v where v: "to_value d = Inr v" "env_payload_b64 env = b64_encode L (write_canonical L v)"
      "env_signature_b64 env = b64_encode L (ed_sign L seed (write_canonical L v))"
      "env_alg env = ALG_ED25519" "env_key_id env = short_key_id L (ed_public L seed)"
    using assms(3) unfolding iss sign_Inr by auto
  then have "verified_payload L (TrustedKey (ed_public L seed)) env = Inr (write_canonical L v)"
    using assms(1) by (simp add: verified_payload_Inr sign_laws_def del: verified_payload.simps)
  then show ?thesis
    using v canonical_reads_back [OF assms(2)] by (simp add: iss trusted_verify_Inr del: verified_payload.simps)
qed

text \<open>
  C36: What an issuer signs, the matching trusted key verifies, and reads back as the document that
  was signed; the envelope names the key that verifies it.
\<close>

theorem sign_verify_round_trip:
  assumes "sign_laws L" and "serde_laws L to_value from_slice"
    and "sign L to_value iss d = Inr env"
  shows "trusted_verify L from_slice (verifier L iss) env = Inr d
    \<and> env_key_id env = key_id L (verifier L iss)"
  using signed_verifies [OF assms] .

text \<open>A document with a nested object, whose fields are not written in the order of their keys.\<close>

type_synonym demo_doc = "bool \<times> bool"

definition demo_value :: "demo_doc \<Rightarrow> bool \<Rightarrow> json" where
  "demo_value d swapped =
     (let tier = (''tier'', JObject [(''full'', JBool (fst d))]); grace = (''grace'', JBool (snd d)) in
      JObject (if swapped then [grace, tier] else [tier, grace]))"

definition demo_to_value :: "demo_doc \<Rightarrow> string + json" where
  "demo_to_value d = Inr (demo_value d False)"

definition demo_from_slice :: "string \<Rightarrow> string + demo_doc" where
  "demo_from_slice s =
     (case find (\<lambda>d. s = compact_text (demo_value d False) \<or> s = compact_text (demo_value d True))
         [(False, False), (False, True), (True, False), (True, True)] of
        None \<Rightarrow> Inl ''EOF''
      | Some d \<Rightarrow> Inr d)"

lemma demo_reads: "demo_from_slice (compact_text (demo_value d swapped)) = Inr d"
proof -
  have "\<forall>a b c. demo_from_slice (compact_text (demo_value (a, b) c)) = Inr (a, b)"
    by code_simp
  then show ?thesis
    by (cases d) simp
qed

inductive_cases says_same_objectE: "says_same (JObject fs) w"
inductive_cases says_same_boolE: "says_same (JBool b) w"

lemma says_same_single: "says_same (JObject [(k, JBool b)]) w \<Longrightarrow> w = JObject [(k, JBool b)]"
  by (elim says_same_objectE) (auto simp: list_all2_Cons1 field_related_def elim: says_same_boolE)

lemma two_items:
  assumes "length xs = 2" and "set xs = {a, b}"
  shows "xs = [a, b] \<or> xs = [b, a]"
proof -
  obtain x y where xs: "xs = [x, y]"
    using assms(1) by (auto simp: numeral_2_eq_2 length_Suc_conv)
  then have "{x, y} = {a, b}"
    using assms(2) by simp
  then show ?thesis
    by (auto simp: xs doubleton_eq_iff)
qed

lemma demo_same:
  assumes "says_same (demo_value d False) w"
  shows "\<exists>swapped. w = demo_value d swapped"
proof -
  let ?fs = "[(''tier'', JObject [(''full'', JBool (fst d))]), (''grace'', JBool (snd d))]"
  from assms have "says_same (JObject ?fs) w"
    by (simp add: demo_value_def)
  then consider "w = JObject ?fs" | hs gs where "w = JObject gs" "list_all2 (field_related says_same) ?fs hs"
      "mset hs = mset gs"
    by (elim says_same_objectE) auto
  then show ?thesis
  proof cases
    case 1
    then show ?thesis
      by (auto simp: demo_value_def intro: exI [of _ False])
  next
    case 2
    from 2(2) have "hs = ?fs"
      by (auto simp: list_all2_Cons1 field_related_def elim: says_same_boolE dest!: says_same_single)
    then have "mset gs = mset ?fs"
      using 2(3) by simp
    then have "length gs = 2" "set gs = set ?fs"
      using mset_eq_length [of gs ?fs] mset_eq_setD [of gs ?fs] by simp_all
    then have "gs = ?fs \<or> gs = rev ?fs"
      using two_items [of gs "hd ?fs" "last ?fs"] by simp
    then show ?thesis
      using 2(1) by (auto simp: demo_value_def Let_def)
  qed
qed

lemma demo_compact: "compact_laws demo_lib"
  by (simp add: compact_laws_def demo_lib_def)

lemma demo_laws: "sign_laws demo_lib" "serde_laws demo_lib demo_to_value demo_from_slice"
proof -
  show "sign_laws demo_lib"
    by (simp add: sign_laws_def demo_lib_def)
  have "keys_once (demo_value d False)" for d
    by (auto simp: demo_value_def Let_def)
  moreover have "json_text demo_lib = compact_text"
    by (simp add: demo_lib_def)
  ultimately show "serde_laws demo_lib demo_to_value demo_from_slice"
    using demo_compact demo_same demo_reads by (fastforce simp: serde_laws_def demo_to_value_def)
qed

lemma sign_verify_round_trip_witness:
  "trusted_verify demo_lib demo_from_slice (verifier demo_lib (Issuer (replicate 32 CHR ''k'')))
     (projr (sign demo_lib demo_to_value (Issuer (replicate 32 CHR ''k'')) (True, False))) = Inr (True, False)"
proof -
  have "sign demo_lib demo_to_value (Issuer (replicate 32 CHR ''k'')) (True, False)
      = Inr (projr (sign demo_lib demo_to_value (Issuer (replicate 32 CHR ''k'')) (True, False)))"
    by (simp add: canonical_json_def demo_to_value_def)
  then show ?thesis
    using sign_verify_round_trip [OF demo_laws] by blast
qed

section \<open>What a verification accepts\<close>

text \<open>The texts an issuer has put its signature under, having signed these documents.\<close>

definition signed_texts :: "sign_lib \<Rightarrow> ('d \<Rightarrow> string + json) \<Rightarrow> 'd set \<Rightarrow> string set" where
  "signed_texts L to_value docs = {text. \<exists>d \<in> docs. canonical_json L to_value d = Inr text}"

text \<open>
  What it takes to deceive a box: a signature that verifies under the issuer's public key on a text the issuer
  never signed.
\<close>

definition holds_forgery :: "sign_lib \<Rightarrow> string \<Rightarrow> string set \<Rightarrow> envelope \<Rightarrow> bool" where
  "holds_forgery L seed texts env \<longleftrightarrow> (\<exists>text sg. b64_decode L (env_payload_b64 env) = Inr text
     \<and> b64_decode L (env_signature_b64 env) = Inr sg \<and> ed_verify L (ed_public L seed) text sg \<and> text \<notin> texts)"

text \<open>
  C12: Whatever envelope a box is given, it accepts a document under an issuer's key exactly if the envelope
  names Ed25519, its fields decode, the signature has 64 bytes and verifies on the payload, and the payload
  reads as the document; and the accepted document is one of those the issuer signed, unless the envelope
  holds a forgery, a valid signature of the issuer's key on a text the issuer never signed.
\<close>

theorem verified_document_was_signed:
  assumes "serde_laws L to_value from_slice"
  shows "(trusted_verify L from_slice (verifier L (Issuer seed)) env = Inr d \<longleftrightarrow>
      env_alg env = ''ed25519'' \<and> (\<exists>text sg. b64_decode L (env_payload_b64 env) = Inr text
        \<and> b64_decode L (env_signature_b64 env) = Inr sg \<and> length sg = 64
        \<and> ed_verify L (ed_public L seed) text sg \<and> from_slice text = Inr d))
    \<and> (trusted_verify L from_slice (verifier L (Issuer seed)) env = Inr d
        \<longrightarrow> d \<in> docs \<or> holds_forgery L seed (signed_texts L to_value docs) env)"
proof (intro conjI impI)
  show exact: "trusted_verify L from_slice (verifier L (Issuer seed)) env = Inr d \<longleftrightarrow>
      env_alg env = ''ed25519'' \<and> (\<exists>text sg. b64_decode L (env_payload_b64 env) = Inr text
        \<and> b64_decode L (env_signature_b64 env) = Inr sg \<and> length sg = 64
        \<and> ed_verify L (ed_public L seed) text sg \<and> from_slice text = Inr d)"
    by (auto simp: trusted_verify_Inr verified_payload_Inr ALG_ED25519_def simp del: verified_payload.simps)
  assume "trusted_verify L from_slice (verifier L (Issuer seed)) env = Inr d"
  then obtain t sg where t: "b64_decode L (env_payload_b64 env) = Inr t" "b64_decode L (env_signature_b64 env) = Inr sg"
      "ed_verify L (ed_public L seed) t sg" "from_slice t = Inr d"
    unfolding exact by blast
  show "d \<in> docs \<or> holds_forgery L seed (signed_texts L to_value docs) env"
  proof (cases "t \<in> signed_texts L to_value docs")
    case True
    then obtain d' v where "d' \<in> docs" "to_value d' = Inr v" "t = write_canonical L v"
      by (auto simp: signed_texts_def canonical_json_def split: sum.splits) (metis sum.exhaust)
    then show ?thesis
      using canonical_reads_back [OF assms] t(4) by auto
  next
    case False
    then show ?thesis
      using t by (auto simp: holds_forgery_def)
  qed
qed

text \<open>A signed document is accepted; the toy signature looks at the last character only, and a forgery shows.\<close>

lemma verified_document_was_signed_witness:
  "trusted_verify demo_lib demo_from_slice (verifier demo_lib (Issuer ''k''))
      (projr (sign demo_lib demo_to_value (Issuer ''k'') (True, False))) = Inr (True, False)
    \<and> holds_forgery demo_lib ''k'' (signed_texts demo_lib demo_to_value {(False, False)})
        (projr (sign demo_lib demo_to_value (Issuer ''k'') (True, False)))"
proof -
  let ?env = "projr (sign demo_lib demo_to_value (Issuer ''k'') (True, False))"
  have "trusted_verify demo_lib demo_from_slice (verifier demo_lib (Issuer ''k'')) ?env = Inr (True, False)"
    by code_simp
  then show ?thesis
    using verified_document_was_signed [OF demo_laws(2), of "''k''" ?env "(True, False)" "{(False, False)}"] by simp
qed

text \<open>A verifier that trusts one text, for the theories that need an accepted envelope.\<close>

definition strict_lib :: sign_lib where
  "strict_lib = demo_lib\<lparr>ed_verify := (\<lambda>vk m sg. m = ''true'')\<rparr>"

end
