(* ===== verification/License.thy ===== *)
theory License
  imports Sign Clock
begin

text \<open>
  Entitlements and their evaluation: \<open>crates/trace-license/src/entitlement.rs\<close> and
  \<open>crates/trace-license/src/clockguard.rs\<close>.  Adding days to an instant is the
  \<open>chrono\<close> package's, which panics beyond its last instant: it is a parameter that
  returns \<open>None\<close> there, and so does the evaluation.
\<close>

section \<open>The entitlement\<close>

datatype license_error =
    LicSignature sign_error
  | WrongNode string string
  | UnsupportedSchema u32 u32

definition SCHEMA_VERSION :: u32 where
  "SCHEMA_VERSION = 1"

datatype tier = Starter | Professional | Enterprise

fun debug_tier :: "tier \<Rightarrow> string" where
  "debug_tier Starter = ''Starter''"
| "debug_tier Professional = ''Professional''"
| "debug_tier Enterprise = ''Enterprise''"

text \<open>The derived order of the tiers is the order of declaration.\<close>

fun tier_rank :: "tier \<Rightarrow> nat" where
  "tier_rank Starter = 0"
| "tier_rank Professional = 1"
| "tier_rank Enterprise = 2"

instantiation tier :: linorder
begin

definition less_eq_tier :: "tier \<Rightarrow> tier \<Rightarrow> bool" where
  "less_eq_tier a b \<longleftrightarrow> tier_rank a \<le> tier_rank b"

definition less_tier :: "tier \<Rightarrow> tier \<Rightarrow> bool" where
  "less_tier a b \<longleftrightarrow> tier_rank a < tier_rank b"

instance
proof
  fix a b :: tier
  show "a \<le> b \<Longrightarrow> b \<le> a \<Longrightarrow> a = b"
    by (cases a; cases b) (simp_all add: less_eq_tier_def)
qed (auto simp: less_eq_tier_def less_tier_def)

end

datatype feature =
    DeviceDrivers | LaserMarking | CloudSync | MultiPlant | ApiAccess | RemoteDiagnostics

record license_limits =
  max_stations :: u32
  max_plants :: u32
  max_users :: u32

definition default_limits :: license_limits where
  "default_limits = \<lparr>max_stations = 3, max_plants = 1, max_users = 10\<rparr>"

record entitlement =
  en_schema :: u32
  en_license_id :: string
  en_tenant_code :: string
  en_node_id :: "string option"
  en_tier :: tier
  en_limits :: license_limits
  en_features :: "feature set"
  en_issued_at :: utc
  en_not_before :: utc
  en_expires_at :: utc
  en_grace_days :: u32
  en_customer_name :: string

datatype enforcement = Full | Grace | Restricted

definition allows_production :: "enforcement \<Rightarrow> bool" where
  "allows_production e = True"

definition allows_configuration_change :: "enforcement \<Rightarrow> bool" where
  "allows_configuration_change e \<longleftrightarrow> e = Full \<or> e = Grace"

definition allows_cloud_sync :: "enforcement \<Rightarrow> bool" where
  "allows_cloud_sync e \<longleftrightarrow> e = Full \<or> e = Grace"

definition should_warn :: "enforcement \<Rightarrow> bool" where
  "should_warn e \<longleftrightarrow> e \<noteq> Full"

record license_status =
  ls_entitlement :: "entitlement option"
  ls_enforcement :: enforcement
  ls_summary :: string
  ls_days_to_expiry :: "int option"

definition unlicensed :: license_status where
  "unlicensed = \<lparr>ls_entitlement = None, ls_enforcement = Restricted,
     ls_summary = ''No licence installed. Production continues; configuration is locked.'',
     ls_days_to_expiry = None\<rparr>"

definition has_feature :: "license_status \<Rightarrow> feature \<Rightarrow> bool" where
  "has_feature s f =
     (if ls_enforcement s = Restricted then False
      else case ls_entitlement s of None \<Rightarrow> False | Some e \<Rightarrow> f \<in> en_features e)"

definition status_max_stations :: "license_status \<Rightarrow> u32 option" where
  "status_max_stations s = map_option (\<lambda>e. max_stations (en_limits e)) (ls_entitlement s)"

section \<open>Evaluation\<close>

text \<open>
  The calendar: \<open>cal_add_days\<close> adds whole days and panics out of range,
  \<open>cal_num_days\<close> counts the whole days of a duration, \<open>cal_date\<close> prints the
  date of an instant.
\<close>

record calendar =
  cal_add_days :: "utc \<Rightarrow> int \<Rightarrow> utc option"
  cal_num_days :: "duration \<Rightarrow> int"
  cal_date :: "utc \<Rightarrow> string"

definition nanos_per_day :: int where
  "nanos_per_day = 86400 * nanos_per_sec"

text \<open>What \<open>chrono\<close> documents: exact addition up to its last instant, a panic beyond.\<close>

definition calendar_laws :: "utc \<Rightarrow> calendar \<Rightarrow> bool" where
  "calendar_laws last_instant cal \<longleftrightarrow>
     (\<forall>t n. 0 \<le> n \<longrightarrow> cal_add_days cal t n =
        (if t + n * nanos_per_day \<le> last_instant then Some (t + n * nanos_per_day) else None))"

definition license_evaluate :: "calendar \<Rightarrow> entitlement \<Rightarrow> utc \<Rightarrow> license_status option" where
  "license_evaluate cal en now =
     (case cal_add_days cal (en_expires_at en) (uint (en_grace_days en)) of
        None \<Rightarrow> None
      | Some grace_end \<Rightarrow>
         (let days = cal_num_days cal (en_expires_at en - now);
              (enf, summary) =
                (if now < en_not_before en
                 then (Restricted, ''Licence is not valid until '' @ cal_date cal (en_not_before en) @ ''.'')
                 else if now \<le> en_expires_at en
                 then (Full, debug_tier (en_tier en) @ '' licence for '' @ en_customer_name en
                   @ '', valid to '' @ cal_date cal (en_expires_at en) @ ''.'')
                 else if now \<le> grace_end
                 then (Grace, ''Licence expired on '' @ cal_date cal (en_expires_at en)
                   @ ''. Grace period ends '' @ cal_date cal grace_end @ ''. Production is unaffected.'')
                 else (Restricted, ''Licence expired on '' @ cal_date cal (en_expires_at en)
                   @ '' and the grace period ended '' @ cal_date cal grace_end
                   @ ''. Production continues; configuration is locked until renewal.''))
          in Some \<lparr>ls_entitlement = Some en, ls_enforcement = enf, ls_summary = summary,
               ls_days_to_expiry = Some days\<rparr>))"

definition license_verify ::
  "sign_lib \<Rightarrow> (string \<Rightarrow> string + entitlement) \<Rightarrow> calendar \<Rightarrow> envelope \<Rightarrow> trusted_key \<Rightarrow> string
     \<Rightarrow> utc \<Rightarrow> (license_error + license_status) option" where
  "license_verify L from_slice cal env key node_id now =
     (case trusted_verify L from_slice key env of
        Inl e \<Rightarrow> Some (Inl (LicSignature e))
      | Inr en \<Rightarrow>
          if en_schema en > SCHEMA_VERSION
          then Some (Inl (UnsupportedSchema (en_schema en) SCHEMA_VERSION))
          else (case en_node_id en of
              Some locked \<Rightarrow>
                if locked \<noteq> node_id then Some (Inl (WrongNode locked node_id))
                else map_option Inr (license_evaluate cal en now)
            | None \<Rightarrow> map_option Inr (license_evaluate cal en now)))"

definition node_id_from_fingerprint :: "sign_lib \<Rightarrow> string \<Rightarrow> string" where
  "node_id_from_fingerprint L fingerprint = hex_encode L (take 8 (sha256 L fingerprint))"

section \<open>What an entitlement allows, when\<close>

text \<open>The level of enforcement at an instant, as the contract states it.\<close>

definition level_at :: "entitlement \<Rightarrow> utc \<Rightarrow> enforcement" where
  "level_at en now =
     (if en_not_before en \<le> now \<and> now \<le> en_expires_at en then Full
      else if en_not_before en \<le> now
          \<and> now \<le> en_expires_at en + uint (en_grace_days en) * nanos_per_day then Grace
      else Restricted)"

lemma grace_end_after: "en_expires_at en \<le> en_expires_at en + uint (en_grace_days en) * nanos_per_day"
  by (simp add: nanos_per_day_def nanos_per_sec_def)

lemma license_evaluate_cases:
  assumes "calendar_laws last_instant cal"
  shows "(case license_evaluate cal en now of
      None \<Rightarrow> last_instant < en_expires_at en + uint (en_grace_days en) * nanos_per_day
    | Some st \<Rightarrow> en_expires_at en + uint (en_grace_days en) * nanos_per_day \<le> last_instant
        \<and> ls_entitlement st = Some en \<and> ls_enforcement st = level_at en now)"
proof (cases "en_expires_at en + uint (en_grace_days en) * nanos_per_day \<le> last_instant")
  case True
  then have "cal_add_days cal (en_expires_at en) (uint (en_grace_days en))
      = Some (en_expires_at en + uint (en_grace_days en) * nanos_per_day)"
    using assms by (simp add: calendar_laws_def)
  then show ?thesis
    using True grace_end_after [of en]
    by (simp add: license_evaluate_def Let_def level_at_def)
next
  case False
  then have "cal_add_days cal (en_expires_at en) (uint (en_grace_days en)) = None"
    using assms by (simp add: calendar_laws_def)
  then show ?thesis
    using False by (simp add: license_evaluate_def)
qed

text \<open>
  C32: The enforcement level of a trusted entitlement, at every instant: full from its start to its
  expiry, grace until the configured days later, restricted before and after; whenever an
  evaluation returns, production is allowed, configuration and cloud sync exactly in the first two,
  and a warning shows exactly outside the first.
\<close>

theorem enforcement_exact:
  assumes "calendar_laws last_instant cal" and "license_evaluate cal en now = Some st"
  shows "allows_production (ls_enforcement st)
    \<and> (ls_enforcement st = Full \<longleftrightarrow> en_not_before en \<le> now \<and> now \<le> en_expires_at en)
    \<and> (allows_configuration_change (ls_enforcement st) \<longleftrightarrow> en_not_before en \<le> now
        \<and> now \<le> en_expires_at en + uint (en_grace_days en) * nanos_per_day)
    \<and> (allows_cloud_sync (ls_enforcement st) \<longleftrightarrow> allows_configuration_change (ls_enforcement st))
    \<and> (should_warn (ls_enforcement st) \<longleftrightarrow> ls_enforcement st \<noteq> Full)
    \<and> (\<forall>f. has_feature st f \<longleftrightarrow>
        allows_configuration_change (ls_enforcement st) \<and> f \<in> en_features en)"
  using license_evaluate_cases [OF assms(1), of en now] grace_end_after [of en] assms(2)
  by (auto simp: allows_production_def allows_configuration_change_def allows_cloud_sync_def
      should_warn_def has_feature_def level_at_def)

definition demo_calendar :: calendar where
  "demo_calendar = \<lparr>
     cal_add_days = (\<lambda>t n. if t + n * nanos_per_day \<le> 8210266876799999999999
        then Some (t + n * nanos_per_day) else None),
     cal_num_days = (\<lambda>d. trunc_div d nanos_per_day), cal_date = (\<lambda>t. show_int (t div nanos_per_day))\<rparr>"

definition demo_entitlement :: "u32 \<Rightarrow> entitlement" where
  "demo_entitlement days = \<lparr>en_schema = 1, en_license_id = ''L1'', en_tenant_code = ''T1'',
     en_node_id = None, en_tier = Starter, en_limits = default_limits, en_features = {ApiAccess},
     en_issued_at = 0, en_not_before = 0, en_expires_at = 30 * nanos_per_day, en_grace_days = days,
     en_customer_name = ''Acme''\<rparr>"

lemma demo_calendar_laws: "calendar_laws 8210266876799999999999 demo_calendar"
  by (simp add: calendar_laws_def demo_calendar_def)

lemma enforcement_exact_witness:
  "ls_enforcement (the (license_evaluate demo_calendar (demo_entitlement 14) (40 * nanos_per_day))) \<noteq> Full"
proof -
  have "license_evaluate demo_calendar (demo_entitlement 14) (40 * nanos_per_day)
      = Some (the (license_evaluate demo_calendar (demo_entitlement 14) (40 * nanos_per_day)))"
    by (simp add: license_evaluate_def demo_calendar_def demo_entitlement_def nanos_per_day_def
        nanos_per_sec_def Let_def)
  from enforcement_exact [OF demo_calendar_laws this] show ?thesis
    by (simp add: demo_entitlement_def nanos_per_day_def nanos_per_sec_def)
qed

text \<open>
  Evaluating an entitlement can stop the program: it panics exactly when the grace period ends
  after the last instant the calendar represents, which a signed entitlement with a large enough
  number of grace days reaches at any expiry date.
\<close>

theorem evaluate_panics_iff:
  assumes "calendar_laws last_instant cal"
  shows "license_evaluate cal en now = None \<longleftrightarrow>
    last_instant < en_expires_at en + uint (en_grace_days en) * nanos_per_day"
  using license_evaluate_cases [OF assms, of en now] by (auto split: option.splits)

lemma evaluate_panics_iff_witness:
  "license_evaluate demo_calendar (demo_entitlement 4000000000) 0 = None"
  using evaluate_panics_iff [OF demo_calendar_laws, of "demo_entitlement 4000000000" 0]
  by (simp add: demo_entitlement_def nanos_per_day_def nanos_per_sec_def)

fun enforcement_rank :: "enforcement \<Rightarrow> nat" where
  "enforcement_rank Restricted = 0"
| "enforcement_rank Grace = 1"
| "enforcement_rank Full = 2"

lemma level_at_antimono:
  "en_not_before en \<le> t \<Longrightarrow> t \<le> t' \<Longrightarrow> enforcement_rank (level_at en t') \<le> enforcement_rank (level_at en t)"
  by (auto simp: level_at_def)

section \<open>The clock guard\<close>

definition DEFAULT_TOLERANCE_SECS :: int where
  "DEFAULT_TOLERANCE_SECS = 300"

datatype clock_verdict = Trusted | WoundBack int

definition is_trusted :: "clock_verdict \<Rightarrow> bool" where
  "is_trusted v \<longleftrightarrow> v = Trusted"

record clock_guard =
  high_water :: utc
  tolerance_secs :: int

definition guard_new :: "utc \<Rightarrow> clock_guard" where
  "guard_new seed = \<lparr>high_water = seed, tolerance_secs = DEFAULT_TOLERANCE_SECS\<rparr>"

definition observe ::
  "externals \<Rightarrow> clock_guard \<Rightarrow> utc \<Rightarrow> (utc \<times> clock_verdict) \<times> clock_guard" where
  "observe x g reported =
     (if reported \<ge> high_water g then ((reported, Trusted), g\<lparr>high_water := reported\<rparr>)
      else let back = num_seconds x (high_water g - reported) in
        if back \<le> tolerance_secs g then ((reported, Trusted), g)
        else ((high_water g, WoundBack back), g))"

definition bump :: "clock_guard \<Rightarrow> utc \<Rightarrow> clock_guard" where
  "bump g t = (if t > high_water g then g\<lparr>high_water := t\<rparr> else g)"

definition drift_behind :: "clock_guard \<Rightarrow> utc \<Rightarrow> duration" where
  "drift_behind g reported = reported - high_water g"

text \<open>What happens to a guard over its life: times are reported to it or synchronised.\<close>

datatype clock_event = Reported utc | Synced utc

fun clock_step :: "externals \<Rightarrow> clock_guard \<Rightarrow> clock_event \<Rightarrow> clock_guard" where
  "clock_step x g (Reported t) = snd (observe x g t)"
| "clock_step x g (Synced t) = bump g t"

fun event_time :: "clock_event \<Rightarrow> utc" where
  "event_time (Reported t) = t"
| "event_time (Synced t) = t"

definition clock_run :: "externals \<Rightarrow> clock_guard \<Rightarrow> clock_event list \<Rightarrow> clock_guard" where
  "clock_run x g es = foldl (clock_step x) g es"

lemma clock_step_high_water:
  "high_water (clock_step x g e) = max (high_water g) (event_time e)"
  "tolerance_secs (clock_step x g e) = tolerance_secs g"
  by (cases e; simp add: observe_def bump_def Let_def)+

lemma clock_run_high_water:
  "high_water (clock_run x g es) = Max (insert (high_water g) (event_time ` set es))
     \<and> tolerance_secs (clock_run x g es) = tolerance_secs g"
proof (induction es rule: rev_induct)
  case (snoc e es)
  then have "high_water (clock_run x g (es @ [e]))
      = max (Max (insert (high_water g) (event_time ` set es))) (event_time e)"
    by (simp add: clock_run_def clock_step_high_water)
  also have "\<dots> = Max (insert (event_time e) (insert (high_water g) (event_time ` set es)))"
    by (simp add: max.commute)
  also have "insert (event_time e) (insert (high_water g) (event_time ` set es))
      = insert (high_water g) (event_time ` set (es @ [e]))"
    by auto
  finally show ?case
    using snoc by (simp add: clock_run_def clock_step_high_water)
qed (simp add: clock_run_def)

lemma observe_bound:
  assumes "whole_seconds x" and "0 \<le> tolerance_secs g"
  shows "high_water g - fst (fst (observe x g t)) < (tolerance_secs g + 1) * nanos_per_sec"
proof -
  have pos: "0 < (tolerance_secs g + 1) * nanos_per_sec"
    using assms(2) by (simp add: nanos_per_sec_def)
  show ?thesis
  proof (cases "t < high_water g \<and> num_seconds x (high_water g - t) \<le> tolerance_secs g")
    case True
    have "num_seconds x (high_water g - t) = (high_water g - t) div nanos_per_sec"
      using assms(1) True by (simp add: whole_seconds_def trunc_div_nonneg)
    then have "\<not> tolerance_secs g + 1 \<le> (high_water g - t) div nanos_per_sec"
      using True by simp
    then have "\<not> (tolerance_secs g + 1) * nanos_per_sec \<le> high_water g - t"
      by (simp add: le_div_iff_mult_le_pos nanos_per_sec_def)
    then show ?thesis
      using True by (simp add: observe_def Let_def)
  next
    case False
    then show ?thesis
      using pos by (auto simp: observe_def Let_def)
  qed
qed

text \<open>
  C27: Winding the clock back buys at most the tolerance: whatever times were reported to a guard or
  synchronised before, the instant it returns for the next report is later than every one of them
  less 301 seconds, and it never lowers its mark, so the losses do not add up; a report it does
  not trust is answered with the latest instant ever seen.
\<close>

theorem clock_guard_bounds_rollback:
  assumes "whole_seconds x" and "e \<in> set es"
  shows "(case observe x (clock_run x (guard_new seed) es) t of ((used, v), g') \<Rightarrow>
      event_time e - used < 301 * nanos_per_sec \<and> event_time e \<le> high_water g'
      \<and> t \<le> high_water g'
      \<and> used = (if v = Trusted then t else Max (insert seed (event_time ` set es))))"
proof -
  let ?g = "clock_run x (guard_new seed) es"
  have hw: "high_water ?g = Max (insert seed (event_time ` set es))" "tolerance_secs ?g = 300"
    using clock_run_high_water [of x "guard_new seed" es]
    by (simp_all add: guard_new_def DEFAULT_TOLERANCE_SECS_def)
  have le: "event_time e \<le> high_water ?g"
    unfolding hw(1) using assms(2) by (intro Max_ge) auto
  have "high_water ?g - fst (fst (observe x ?g t)) < 301 * nanos_per_sec"
    using observe_bound [OF assms(1), of ?g t] by (simp add: hw(2))
  moreover have "high_water (snd (observe x ?g t)) = max (high_water ?g) t"
    using clock_step_high_water(1) [of x ?g "Reported t"] by simp
  moreover have "fst (fst (observe x ?g t))
      = (if snd (fst (observe x ?g t)) = Trusted then t else high_water ?g)"
    by (simp add: observe_def Let_def)
  ultimately show ?thesis
    using le hw(1) by (simp add: case_prod_unfold)
qed

lemma clock_guard_bounds_rollback_witness:
  "(case observe demo_externals (clock_run demo_externals (guard_new 0)
        [Reported (1000 * nanos_per_sec), Reported (5 * nanos_per_sec)]) (700 * nanos_per_sec) of
      ((used, v), g') \<Rightarrow> 1000 * nanos_per_sec - used < 301 * nanos_per_sec
        \<and> 1000 * nanos_per_sec \<le> high_water g')"
proof -
  have "whole_seconds demo_externals"
    by (simp add: whole_seconds_def demo_externals_def)
  from clock_guard_bounds_rollback [OF this, of "Reported (1000 * nanos_per_sec)"
      "[Reported (1000 * nanos_per_sec), Reported (5 * nanos_per_sec)]" "700 * nanos_per_sec" 0]
  show ?thesis
    by (simp add: case_prod_unfold)
qed

end
