(* ===== verification/Manifest.thy ===== *)
theory Manifest
  imports Sign
begin

text \<open>
  Update manifests, artifact paths and the health gate:
  \<open>crates/trace-updater/src/manifest.rs\<close>, \<open>source.rs\<close>, \<open>health.rs\<close>
  and \<open>error.rs\<close>.  Semantic versions are the \<open>semver\<close> package's: their order is
  the order of a type parameter, their parser and text are fields of \<open>semver_lib\<close>.
\<close>

section \<open>Versions and errors\<close>

record 'v semver_lib =
  sv_parse :: "string \<Rightarrow> string + 'v"
  sv_text :: "'v \<Rightarrow> string"
  sv_zero :: 'v

datatype update_error =
    UpSignature sign_error
  | DigestMismatch string string string
  | DowngradeRefused string string
  | UpgradePathRequired string string string
  | MalformedVersion string string
  | UpRolledBack string string string
  | RollbackImpossible string string
  | UpIo "string list" string
  | UpFetch string string
  | UpMalformed string

section \<open>The manifest\<close>

record artifact =
  ar_name :: string
  ar_sha256 :: string
  ar_size :: u64
  ar_path :: string
  ar_delta_from :: "string option"

record manifest =
  mf_schema :: u32
  mf_version :: string
  mf_released_at :: utc
  mf_notes :: string
  mf_artifacts :: "artifact list"
  mf_min_installed_version :: "string option"
  mf_rollback :: bool
  mf_cohorts :: "string list"
  mf_health_deadline_secs :: u64

definition default_health_deadline :: u64 where
  "default_health_deadline = 120"

definition MANIFEST_SCHEMA_VERSION :: u32 where
  "MANIFEST_SCHEMA_VERSION = 1"

datatype 'v update_decision = Install 'v | UpToDate | NotInCohort "string list"

definition parsed_version :: "'v semver_lib \<Rightarrow> manifest \<Rightarrow> update_error + 'v" where
  "parsed_version V m =
     (case sv_parse V (mf_version m) of
        Inl d \<Rightarrow> Inl (MalformedVersion (mf_version m) d)
      | Inr v \<Rightarrow> Inr v)"

definition is_ascii_hexdigit :: "char \<Rightarrow> bool" where
  "is_ascii_hexdigit c =
     (let n = (of_char c :: nat)
      in (48 \<le> n \<and> n \<le> 57) \<or> (65 \<le> n \<and> n \<le> 70) \<or> (97 \<le> n \<and> n \<le> 102))"

fun check_digests :: "artifact list \<Rightarrow> update_error + unit" where
  "check_digests [] = Inr ()"
| "check_digests (a # as) =
     (if length (ar_sha256 a) \<noteq> 64 \<or> \<not> list_all is_ascii_hexdigit (ar_sha256 a)
      then Inl (UpMalformed (''artifact '' @ ar_name a @ '' has a malformed sha256 digest''))
      else check_digests as)"

definition manifest_verify ::
  "sign_lib \<Rightarrow> 'v semver_lib \<Rightarrow> (string \<Rightarrow> string + manifest) \<Rightarrow> envelope \<Rightarrow> trusted_key
     \<Rightarrow> update_error + manifest" where
  "manifest_verify L V from_slice env key =
     (case trusted_verify L from_slice key env of
        Inl e \<Rightarrow> Inl (UpSignature e)
      | Inr m \<Rightarrow>
          if mf_schema m > MANIFEST_SCHEMA_VERSION
          then Inl (UpMalformed (''manifest schema '' @ show_word (mf_schema m)
            @ '' is newer than this build supports ('' @ show_word MANIFEST_SCHEMA_VERSION @ '')''))
          else if mf_artifacts m = [] then Inl (UpMalformed ''manifest lists no artifacts'')
          else and_then (check_digests (mf_artifacts m)) (\<lambda>_.
            and_then (parsed_version V m) (\<lambda>_. Inr m)))"

definition decide ::
  "('v::linorder) semver_lib \<Rightarrow> manifest \<Rightarrow> 'v \<Rightarrow> string \<Rightarrow> update_error + 'v update_decision" where
  "decide V m installed cohort =
     (if mf_cohorts m \<noteq> [] \<and> \<not> list_ex (\<lambda>c. c = cohort) (mf_cohorts m)
      then Inr (NotInCohort (mf_cohorts m))
      else and_then (parsed_version V m) (\<lambda>offered.
        and_then
          (case mf_min_installed_version m of
             None \<Rightarrow> Inr ()
           | Some t \<Rightarrow>
              (case sv_parse V t of
                 Inl d \<Rightarrow> Inl (MalformedVersion t d)
               | Inr minimum \<Rightarrow>
                   if installed < minimum
                   then Inl (UpgradePathRequired (sv_text V installed) (sv_text V minimum)
                     (sv_text V offered))
                   else Inr ()))
          (\<lambda>_. if offered = installed then Inr UpToDate
            else if offered < installed
            then (if \<not> mf_rollback m
                  then Inl (DowngradeRefused (sv_text V installed) (sv_text V offered))
                  else Inr (Install offered))
            else Inr (Install offered))))"

definition manifest_sha256_hex :: "sign_lib \<Rightarrow> string \<Rightarrow> string" where
  "manifest_sha256_hex L bytes = hex_encode L (sha256 L bytes)"

definition verify_digest :: "sign_lib \<Rightarrow> artifact \<Rightarrow> string \<Rightarrow> update_error + unit" where
  "verify_digest L a bytes =
     (if of_nat (length bytes) \<noteq> ar_size a
      then Inl (DigestMismatch (ar_name a) (show_word (ar_size a) @ '' bytes'')
        (show_nat (length bytes) @ '' bytes''))
      else let actual = manifest_sha256_hex L bytes in
        if actual \<noteq> ar_sha256 a then Inl (DigestMismatch (ar_name a) (ar_sha256 a) actual)
        else Inr ())"

text \<open>
  C31: A box moves backwards only on purpose: whatever manifest verified, the decision installs
  exactly the offered version, to boxes of the cohort whose version reaches the required minimum,
  never the version already running, and an older one only if the manifest is marked as a
  rollback; a box outside the cohorts is left alone before any version is even parsed.
\<close>

theorem decide_no_silent_downgrade:
  assumes "decide V m installed cohort = Inr (Install v)"
  shows "sv_parse V (mf_version m) = Inr v \<and> v \<noteq> installed \<and> (v < installed \<longrightarrow> mf_rollback m)
    \<and> (mf_cohorts m = [] \<or> cohort \<in> set (mf_cohorts m))
    \<and> (\<forall>t minimum. mf_min_installed_version m = Some t \<longrightarrow> sv_parse V t = Inr minimum
        \<longrightarrow> minimum \<le> installed)"
  using assms
  by (auto simp: decide_def parsed_version_def outcome list_ex_iff not_less
      split: if_splits sum.splits option.splits)

definition demo_semver :: "nat semver_lib" where
  "demo_semver = \<lparr>sv_parse = (\<lambda>s. if s = [] then Inl ''empty'' else Inr (read_nat s)),
     sv_text = show_nat, sv_zero = 0\<rparr>"

definition demo_manifest :: "string \<Rightarrow> bool \<Rightarrow> artifact list \<Rightarrow> manifest" where
  "demo_manifest v back arts = \<lparr>mf_schema = 1, mf_version = v, mf_released_at = 0, mf_notes = [],
     mf_artifacts = arts, mf_min_installed_version = None, mf_rollback = back, mf_cohorts = [],
     mf_health_deadline_secs = 120\<rparr>"

lemma demo_read_nat: "read_nat ''3'' = 3" "read_nat ''5'' = 5"
  by (simp_all add: read_nat_def digit_val_def)

lemma decide_no_silent_downgrade_witness:
  "sv_parse demo_semver ''3'' = Inr (3::nat) \<and> mf_rollback (demo_manifest ''3'' True [])"
proof -
  have "decide demo_semver (demo_manifest ''3'' True []) 5 ''all'' = Inr (Install 3)"
    by (simp add: decide_def parsed_version_def demo_semver_def demo_manifest_def demo_read_nat)
  from decide_no_silent_downgrade [OF this] show ?thesis
    by (simp add: demo_manifest_def)
qed

section \<open>Paths\<close>

type_synonym path = "string list"

definition components :: "string \<Rightarrow> path" where
  "components s = filter (\<lambda>p. p \<noteq> [] \<and> p \<noteq> ''.'') (split_on CHR ''/'' s)"

definition is_absolute :: "string \<Rightarrow> bool" where
  "is_absolute s \<longleftrightarrow> s \<noteq> [] \<and> hd s = CHR ''/''"

text \<open>Following the components from a directory, as the kernel does.\<close>

fun walk :: "path \<Rightarrow> path \<Rightarrow> path" where
  "walk base [] = base"
| "walk base (p # ps) = (if p = ''..'' then walk (butlast base) ps else walk (base @ [p]) ps)"

definition path_join :: "path \<Rightarrow> string \<Rightarrow> path" where
  "path_join base s = walk (if is_absolute s then [] else base) (components s)"

record directory_source =
  ds_root :: path
  ds_manifest_name :: string

definition source_new :: "path \<Rightarrow> directory_source" where
  "source_new dir = \<lparr>ds_root = dir, ds_manifest_name = ''manifest.json''\<rparr>"

definition with_manifest_name :: "directory_source \<Rightarrow> string \<Rightarrow> directory_source" where
  "with_manifest_name src name = src\<lparr>ds_manifest_name := name\<rparr>"

definition source_resolve :: "directory_source \<Rightarrow> string \<Rightarrow> update_error + path" where
  "source_resolve src rel =
     (if is_absolute rel \<or> list_ex (\<lambda>c. c = ''..'') (components rel)
      then Inl (UpMalformed (''artifact path '' @ rel @ '' escapes the bundle root''))
      else Inr (path_join (ds_root src) rel))"

lemma walk_inside: "''..'' \<notin> set ps \<Longrightarrow> walk base ps = base @ ps"
  by (induction ps arbitrary: base) auto

text \<open>
  A bundle read from a directory never reaches outside it: every artifact path the source
  accepts resolves to the bundle root followed by the path's own components, and a path that is
  absolute or climbs with a parent component is refused.
\<close>

theorem source_resolve_contained:
  "(case source_resolve src rel of
      Inr p \<Rightarrow> p = ds_root src @ components rel \<and> prefix (ds_root src) p \<and> ''..'' \<notin> set (components rel)
    | Inl e \<Rightarrow> e = UpMalformed (''artifact path '' @ rel @ '' escapes the bundle root''))"
  by (auto simp: source_resolve_def path_join_def list_ex_iff walk_inside)

section \<open>The health gate\<close>

record health_report =
  hr_healthy :: bool
  hr_detail :: string

definition healthy_report :: health_report where
  "healthy_report = \<lparr>hr_healthy = True, hr_detail = []\<rparr>"

definition unhealthy_report :: "string \<Rightarrow> health_report" where
  "unhealthy_report d = \<lparr>hr_healthy = False, hr_detail = d\<rparr>"

text \<open>
  The default polling loop.  \<open>elapsed k\<close> is the time on the clock when the loop tests its
  deadline for the \<open>k\<close>-th time, \<open>check k\<close> the report of the \<open>k\<close>-th check.
  A clock that stands still keeps it polling, so it is a partial function.
\<close>

partial_function (option) poll_healthy ::
  "(nat \<Rightarrow> nat) \<Rightarrow> (nat \<Rightarrow> health_report) \<Rightarrow> u64 \<Rightarrow> nat \<Rightarrow> health_report \<Rightarrow> health_report option" where
  "poll_healthy elapsed check deadline k last_report =
     (if elapsed k < unat deadline * 1000
      then (if hr_healthy (check k) then Some (check k)
            else poll_healthy elapsed check deadline (k + 1) (check k))
      else Some (unhealthy_report (''still unhealthy after '' @ show_word deadline @ ''s: ''
        @ hr_detail last_report)))"

definition wait_until_healthy ::
  "(nat \<Rightarrow> nat) \<Rightarrow> (nat \<Rightarrow> health_report) \<Rightarrow> u64 \<Rightarrow> health_report option" where
  "wait_until_healthy elapsed check deadline =
     poll_healthy elapsed check deadline 0 (unhealthy_report ''health probe never ran'')"

text \<open>The probe of boxes with nothing to check: every one of its checks is healthy.\<close>

definition always_healthy :: "nat \<Rightarrow> health_report" where
  "always_healthy k = healthy_report"

lemma poll_healthy_returns:
  assumes "\<And>j. elapsed j + 2000 \<le> elapsed (Suc j)"
  shows "\<exists>r. poll_healthy elapsed check deadline k l = Some r
    \<and> (hr_healthy r \<longleftrightarrow> (\<exists>j \<ge> k. hr_healthy (check j) \<and> elapsed j < unat deadline * 1000))"
proof (induction "unat deadline * 1000 - elapsed k" arbitrary: k l rule: less_induct)
  case less
  have mono: "elapsed i \<le> elapsed j" if "i \<le> j" for i j
    using that by (induction rule: dec_induct) (use assms order_trans add_leD1 in blast)+
  show ?case
  proof (cases "elapsed k < unat deadline * 1000")
    case False
    then have "\<not> (elapsed j < unat deadline * 1000)" if "j \<ge> k" for j
      using mono [OF that] by linarith
    then show ?thesis
      using False by (subst poll_healthy.simps) (auto simp: unhealthy_report_def)
  next
    case True
    show ?thesis
    proof (cases "hr_healthy (check k)")
      case True
      then show ?thesis
        using \<open>elapsed k < unat deadline * 1000\<close> by (subst poll_healthy.simps) auto
    next
      case sick: False
      have "unat deadline * 1000 - elapsed (k + 1) < unat deadline * 1000 - elapsed k"
        using assms [of k] True by simp
      from less [OF this, of "check k"] obtain r where
        "poll_healthy elapsed check deadline (k + 1) (check k) = Some r"
        "hr_healthy r \<longleftrightarrow> (\<exists>j \<ge> k + 1. hr_healthy (check j) \<and> elapsed j < unat deadline * 1000)"
        by blast
      moreover have "(\<exists>j \<ge> k + 1. hr_healthy (check j) \<and> elapsed j < unat deadline * 1000)
          \<longleftrightarrow> (\<exists>j \<ge> k. hr_healthy (check j) \<and> elapsed j < unat deadline * 1000)"
        using sick by (metis Suc_eq_plus1 Suc_leD le_antisym not_less_eq_eq)
      ultimately show ?thesis
        using True sick by (subst poll_healthy.simps) simp
    qed
  qed
qed

text \<open>
  C38: The health gate always answers: on a clock that advances by the two seconds slept between
  checks (milliseconds are counted), the wait returns, and it reports healthy exactly when some
  check made before the deadline was healthy.
\<close>

theorem health_gate_answers:
  assumes "\<And>j. elapsed j + 2000 \<le> elapsed (Suc j)"
  shows "\<exists>r. wait_until_healthy elapsed check deadline = Some r
    \<and> (hr_healthy r \<longleftrightarrow> (\<exists>j. hr_healthy (check j) \<and> elapsed j < unat deadline * 1000))"
  using poll_healthy_returns [of elapsed check deadline 0, OF assms]
  by (simp add: wait_until_healthy_def)

lemma health_gate_answers_witness:
  "\<exists>r. wait_until_healthy (\<lambda>k. 2000 * k) (\<lambda>k. if k = 3 then healthy_report else unhealthy_report ''starting'') 120 = Some r
    \<and> hr_healthy r"
proof -
  have "\<exists>j. hr_healthy (if j = 3 then healthy_report else unhealthy_report ''starting'')
      \<and> 2000 * j < unat (120 :: u64) * 1000"
    by (intro exI [of _ 3]) (simp add: healthy_report_def)
  then show ?thesis
    using health_gate_answers [of "\<lambda>k. 2000 * k" "\<lambda>k. if k = 3 then healthy_report else unhealthy_report ''starting''" 120]
    by simp
qed

end
