(* ===== verification/Install.thy ===== *)
theory Install
  imports Manifest
begin

text \<open>
  Applying and rolling back a release: \<open>crates/trace-updater/src/apply.rs\<close>.  The
  file system is a map from paths to nodes.  Every change to it is one step of a program that the
  environment may make fail, leaving the step undone or half done, or cut short for good (a power
  loss), so a theorem about every world is a theorem about every interruption.  Reading is not made
  to fail.  A path that runs through a symbolic link is refused rather than followed; the program
  builds no such path itself.  The artifact source and the health probe are parameters.
\<close>

section \<open>File systems\<close>

datatype node = File string | Dir | Link path

type_synonym fs = "path \<Rightarrow> node option"

text \<open>
  The environment of a run: how many changes are made before the power goes, which of them fail,
  what an interrupted removal leaves standing, and what an interrupted write leaves in the file.
\<close>

record world =
  w_fs :: fs
  w_budget :: nat
  w_fault :: "nat \<Rightarrow> bool"
  w_keep :: "path \<Rightarrow> bool"
  w_torn :: string
  w_io :: string

datatype 'a finish = Done 'a | Failed update_error | PowerLoss

type_synonym 'a io = "world \<Rightarrow> 'a finish \<times> world"

definition io_return :: "'a \<Rightarrow> 'a io" where
  "io_return a w = (Done a, w)"

definition io_bind :: "'a io \<Rightarrow> ('a \<Rightarrow> 'b io) \<Rightarrow> 'b io" where
  "io_bind m f w =
     (case m w of
        (Done a, w') \<Rightarrow> f a w'
      | (Failed e, w') \<Rightarrow> (Failed e, w')
      | (PowerLoss, w') \<Rightarrow> (PowerLoss, w'))"

definition io_lift :: "update_error + 'a \<Rightarrow> 'a io" where
  "io_lift r w = (case r of Inl e \<Rightarrow> (Failed e, w) | Inr a \<Rightarrow> (Done a, w))"

definition io_read :: "(fs \<Rightarrow> 'a) \<Rightarrow> 'a io" where
  "io_read f w = (Done (f (w_fs w)), w)"

definition mutate :: "path \<Rightarrow> (fs \<Rightarrow> string + fs) \<Rightarrow> (world \<Rightarrow> fs \<Rightarrow> fs) \<Rightarrow> unit io" where
  "mutate p eff part w =
     (if w_budget w = 0 then (PowerLoss, w\<lparr>w_fs := part w (w_fs w)\<rparr>)
      else let w1 = w\<lparr>w_budget := w_budget w - 1\<rparr> in
        if w_fault w (w_budget w)
        then (Failed (UpIo p (w_io w)), w1\<lparr>w_fs := part w (w_fs w)\<rparr>)
        else (case eff (w_fs w) of
            Inl e \<Rightarrow> (Failed (UpIo p e), w1)
          | Inr fs' \<Rightarrow> (Done (), w1\<lparr>w_fs := fs'\<rparr>)))"

definition create_dir_all :: "path \<Rightarrow> unit io" where
  "create_dir_all p = mutate p
     (\<lambda>fs. if \<exists>q \<in> set (prefixes p). fs q \<noteq> None \<and> fs q \<noteq> Some Dir then Inl ''not a directory''
        else Inr (\<lambda>q. if prefix q p \<and> fs q = None then Some Dir else fs q))
     (\<lambda>w fs q. if prefix q p \<and> fs q = None \<and> \<not> w_keep w q then Some Dir else fs q)"

definition remove_dir_all :: "path \<Rightarrow> unit io" where
  "remove_dir_all p = mutate p
     (\<lambda>fs. if fs p = Some Dir then Inr (\<lambda>q. if prefix p q then None else fs q)
        else Inl ''not a directory'')
     (\<lambda>w fs q. if prefix p q \<and> \<not> w_keep w q then None else fs q)"

text \<open>\<open>File::create\<close>, \<open>write_all\<close> and \<open>sync_all\<close>.\<close>

definition create_file :: "path \<Rightarrow> unit io" where
  "create_file p = mutate p
     (\<lambda>fs. if fs (butlast p) \<noteq> Some Dir then Inl ''not found''
        else case fs p of Some Dir \<Rightarrow> Inl ''is a directory'' | Some (Link t) \<Rightarrow> Inl ''is a link''
          | _ \<Rightarrow> Inr (fs(p \<mapsto> File [])))
     (\<lambda>w fs. fs)"

definition write_all :: "path \<Rightarrow> string \<Rightarrow> unit io" where
  "write_all p bytes = mutate p (\<lambda>fs. Inr (fs(p \<mapsto> File bytes))) (\<lambda>w fs. fs(p \<mapsto> File (w_torn w)))"

definition sync_all :: "path \<Rightarrow> unit io" where
  "sync_all p = mutate p Inr (\<lambda>w fs. fs(p \<mapsto> File (w_torn w)))"

definition rename :: "path \<Rightarrow> path \<Rightarrow> unit io" where
  "rename s d = mutate d
     (\<lambda>fs. case fs s of
        None \<Rightarrow> Inl ''not found''
      | Some Dir \<Rightarrow>
          if fs d = None \<and> fs (butlast d) = Some Dir
          then Inr (\<lambda>q. if prefix d q then fs (s @ drop (length d) q)
                        else if prefix s q then None else fs q)
          else Inl ''exists''
      | Some n \<Rightarrow>
          if fs d = Some Dir \<or> fs (butlast d) \<noteq> Some Dir then Inl ''is a directory''
          else Inr (fs(s := None, d \<mapsto> n)))
     (\<lambda>w fs. fs)"

definition symlink :: "path \<Rightarrow> path \<Rightarrow> unit io" where
  "symlink t l = mutate l
     (\<lambda>fs. if fs l = None \<and> fs (butlast l) = Some Dir then Inr (fs(l \<mapsto> Link t)) else Inl ''exists'')
     (\<lambda>w fs. fs)"

definition remove_file :: "path \<Rightarrow> unit io" where
  "remove_file p = mutate p
     (\<lambda>fs. if fs p = None \<or> fs p = Some Dir then Inl ''not a file'' else Inr (fs(p := None)))
     (\<lambda>w fs. fs)"

text \<open>\<open>try_exists\<close> follows a link; \<open>read_link\<close> does not.\<close>

definition try_exists :: "path \<Rightarrow> fs \<Rightarrow> bool" where
  "try_exists p fs = (case fs p of None \<Rightarrow> False | Some (Link t) \<Rightarrow> fs t \<noteq> None | Some _ \<Rightarrow> True)"

section \<open>The install layout\<close>

record layout =
  lay_root :: path

definition layout_new :: "path \<Rightarrow> layout" where
  "layout_new r = \<lparr>lay_root = r\<rparr>"

definition releases_dir :: "layout \<Rightarrow> path" where
  "releases_dir y = lay_root y @ [''releases'']"

definition release_dir :: "'v semver_lib \<Rightarrow> layout \<Rightarrow> 'v \<Rightarrow> path" where
  "release_dir V y v = releases_dir y @ [sv_text V v]"

definition current_link :: "layout \<Rightarrow> path" where
  "current_link y = lay_root y @ [''current'']"

definition previous_link :: "layout \<Rightarrow> path" where
  "previous_link y = lay_root y @ [''previous'']"

definition staging_dir :: "layout \<Rightarrow> path" where
  "staging_dir y = lay_root y @ [''staging'']"

definition ensure :: "layout \<Rightarrow> unit io" where
  "ensure y = io_bind (create_dir_all (releases_dir y)) (\<lambda>_. create_dir_all (staging_dir y))"

definition installed_version :: "'v semver_lib \<Rightarrow> layout \<Rightarrow> 'v option io" where
  "installed_version V y = io_bind (io_read (\<lambda>fs. fs (current_link y))) (\<lambda>n.
     case n of
       Some (Link t) \<Rightarrow> io_return
         (if t = [] then None else (case sv_parse V (last t) of Inl _ \<Rightarrow> None | Inr v \<Rightarrow> Some v))
     | None \<Rightarrow> io_return None
     | Some _ \<Rightarrow> io_lift (Inl (UpIo (current_link y) ''invalid argument'')))"

section \<open>The updater\<close>

datatype 'v update_outcome =
    Installed 'v "'v option"
  | OutUpToDate 'v
  | OutNotInCohort "string list"
  | RolledBack 'v 'v string

record 'v updater =
  up_layout :: layout
  up_key :: trusted_key
  up_cohort :: string
  up_sign :: sign_lib
  up_semver :: "'v semver_lib"
  up_from_slice :: "string \<Rightarrow> string + manifest"
  up_pid :: string

record artifact_source =
  src_manifest :: "update_error + envelope"
  src_artifact :: "artifact \<Rightarrow> update_error + string"

text \<open>\<open>link.with_extension(tmp-pid)\<close>, for a link whose name has no extension.\<close>

definition tmp_link :: "string \<Rightarrow> path \<Rightarrow> path" where
  "tmp_link pid l = butlast l @ [last l @ ''.tmp-'' @ pid]"

definition replace_symlink :: "string \<Rightarrow> path \<Rightarrow> path \<Rightarrow> unit io" where
  "replace_symlink pid target l =
     (let tmp = tmp_link pid l in
      io_bind (io_read (try_exists tmp)) (\<lambda>there.
      io_bind (if there then remove_file tmp else io_return ()) (\<lambda>_.
      io_bind (symlink target tmp) (\<lambda>_. rename tmp l))))"

definition point_current_at :: "'v updater \<Rightarrow> 'v \<Rightarrow> unit io" where
  "point_current_at u v =
     replace_symlink (up_pid u) (release_dir (up_semver u) (up_layout u) v)
       (current_link (up_layout u))"

definition write_artifact :: "path \<Rightarrow> artifact \<Rightarrow> string \<Rightarrow> unit io" where
  "write_artifact staging a bytes =
     (let dest = path_join staging (ar_name a) in
      io_bind (if dest = [] then io_return () else create_dir_all (butlast dest)) (\<lambda>_.
      io_bind (create_file dest) (\<lambda>_.
      io_bind (write_all dest bytes) (\<lambda>_. sync_all dest))))"

fun stage_artifacts ::
  "sign_lib \<Rightarrow> artifact_source \<Rightarrow> path \<Rightarrow> artifact list \<Rightarrow> unit io" where
  "stage_artifacts L src staging [] = io_return ()"
| "stage_artifacts L src staging (a # as) =
     io_bind (io_lift (src_artifact src a)) (\<lambda>bytes.
     io_bind (io_lift (verify_digest L a bytes)) (\<lambda>_.
     io_bind (write_artifact staging a bytes) (\<lambda>_. stage_artifacts L src staging as)))"

definition stage :: "'v updater \<Rightarrow> artifact_source \<Rightarrow> manifest \<Rightarrow> 'v \<Rightarrow> path io" where
  "stage u src m target =
     (let staging = staging_dir (up_layout u) @ [sv_text (up_semver u) target] in
      io_bind (io_read (try_exists staging)) (\<lambda>there.
      io_bind (if there then remove_dir_all staging else io_return ()) (\<lambda>_.
      io_bind (create_dir_all staging) (\<lambda>_.
      io_bind (stage_artifacts (up_sign u) src staging (mf_artifacts m)) (\<lambda>_.
      io_return staging)))))"

definition activate :: "'v updater \<Rightarrow> path \<Rightarrow> 'v \<Rightarrow> 'v \<Rightarrow> 'v option io" where
  "activate u staged target installed =
     (let y = up_layout u; V = up_semver u; dir = release_dir V y target in
      io_bind (io_read (try_exists dir)) (\<lambda>there.
      io_bind (if there then remove_dir_all dir else io_return ()) (\<lambda>_.
      io_bind (rename staged dir) (\<lambda>_.
      io_bind (installed_version V y) (\<lambda>iv.
      io_bind (if iv \<noteq> None
               then replace_symlink (up_pid u) (release_dir V y installed) (previous_link y)
               else io_return ()) (\<lambda>_.
      io_bind (point_current_at u target) (\<lambda>_.
      io_return (if iv \<noteq> None then Some installed else None))))))))"

definition apply_target ::
  "'v updater \<Rightarrow> artifact_source \<Rightarrow> (u64 \<Rightarrow> health_report) \<Rightarrow> manifest \<Rightarrow> 'v \<Rightarrow> 'v
     \<Rightarrow> 'v update_outcome io" where
  "apply_target u src probe m installed target =
     io_bind (stage u src m target) (\<lambda>staged.
     io_bind (activate u staged target installed) (\<lambda>previous.
       let report = probe (mf_health_deadline_secs m) in
       if hr_healthy report then io_return (Installed target previous)
       else case previous of
         None \<Rightarrow> io_lift (Inl (RollbackImpossible (sv_text (up_semver u) target) (hr_detail report)))
       | Some restore \<Rightarrow>
           io_bind (point_current_at u restore) (\<lambda>_.
             io_return (RolledBack target restore (hr_detail report)))))"

definition update ::
  "('v::linorder) updater \<Rightarrow> artifact_source \<Rightarrow> (u64 \<Rightarrow> health_report) \<Rightarrow> 'v update_outcome io" where
  "update u src probe =
     io_bind (ensure (up_layout u)) (\<lambda>_.
     io_bind (io_lift (src_manifest src)) (\<lambda>env.
     io_bind (io_lift (manifest_verify (up_sign u) (up_semver u) (up_from_slice u) env (up_key u))) (\<lambda>m.
     io_bind (installed_version (up_semver u) (up_layout u)) (\<lambda>iv.
       let installed = (case iv of None \<Rightarrow> sv_zero (up_semver u) | Some v \<Rightarrow> v) in
       io_bind (io_lift (decide (up_semver u) m installed (up_cohort u))) (\<lambda>d.
         case d of
           UpToDate \<Rightarrow> io_return (OutUpToDate installed)
         | NotInCohort cs \<Rightarrow> io_return (OutNotInCohort cs)
         | Install target \<Rightarrow> apply_target u src probe m installed target)))))"

section \<open>Reasoning about interrupted programs\<close>

text \<open>
  From a file system in \<open>P\<close>, the program ends in \<open>Q\<close> of its result when it is
  done, and in \<open>E\<close> however it fails or is cut short.
\<close>

definition runs :: "(fs \<Rightarrow> bool) \<Rightarrow> 'a io \<Rightarrow> ('a \<Rightarrow> fs \<Rightarrow> bool) \<Rightarrow> (fs \<Rightarrow> bool) \<Rightarrow> bool" where
  "runs P m Q E \<longleftrightarrow> (\<forall>w. P (w_fs w) \<longrightarrow>
     (case m w of (Done a, w') \<Rightarrow> Q a (w_fs w') | (_, w') \<Rightarrow> E (w_fs w')))"

lemma runs_bind:
  assumes "runs P m Q E" and "\<And>a. runs (Q a) (f a) R E"
  shows "runs P (io_bind m f) R E"
  unfolding runs_def
proof (intro allI impI)
  fix w :: world
  assume P: "P (w_fs w)"
  obtain r w' where m: "m w = (r, w')"
    by fastforce
  have "case m w of (Done a, w') \<Rightarrow> Q a (w_fs w') | (_, w') \<Rightarrow> E (w_fs w')"
    using assms(1) P by (simp add: runs_def)
  then show "case io_bind m f w of (Done a, w') \<Rightarrow> R a (w_fs w') | (_, w') \<Rightarrow> E (w_fs w')"
    using assms(2) m by (cases r) (auto simp: io_bind_def runs_def)
qed

lemma runs_mutate:
  assumes "\<And>fs fs'. P fs \<Longrightarrow> eff fs = Inr fs' \<Longrightarrow> Q () fs'"
    and "\<And>w fs. P fs \<Longrightarrow> E (part w fs)" and "\<And>fs. P fs \<Longrightarrow> E fs"
  shows "runs P (mutate p eff part) Q E"
  using assms by (auto simp: runs_def mutate_def Let_def split: sum.splits)

lemma runs_return: "(\<And>fs. P fs \<Longrightarrow> Q a fs) \<Longrightarrow> runs P (io_return a) Q E"
  by (simp add: runs_def io_return_def)

lemma runs_read: "(\<And>fs. P fs \<Longrightarrow> Q (f fs) fs) \<Longrightarrow> runs P (io_read f) Q E"
  by (simp add: runs_def io_read_def)

lemma runs_lift:
  "(\<And>fs a. P fs \<Longrightarrow> r = Inr a \<Longrightarrow> Q a fs) \<Longrightarrow> (\<And>fs. P fs \<Longrightarrow> E fs) \<Longrightarrow> runs P (io_lift r) Q E"
  by (cases r) (auto simp: runs_def io_lift_def)

lemma runs_conseq:
  assumes "runs P' m Q' E'" and "\<And>fs. P fs \<Longrightarrow> P' fs"
    and "\<And>a fs. Q' a fs \<Longrightarrow> Q a fs" and "\<And>fs. E' fs \<Longrightarrow> E fs"
  shows "runs P m Q E"
  using assms unfolding runs_def by (fastforce split: prod.splits finish.splits)

lemma runs_if:
  "runs P m Q E \<Longrightarrow> runs P m' Q E \<Longrightarrow> runs P (if b then m else m') Q E"
  by simp

lemma runs_conj:
  assumes "runs P m Q E" and "runs P' m Q' E'"
  shows "runs (\<lambda>fs. P fs \<and> P' fs) m (\<lambda>a fs. Q a fs \<and> Q' a fs) (\<lambda>fs. E fs \<and> E' fs)"
  using assms unfolding runs_def by (fastforce split: prod.splits finish.splits)

text \<open>The paths in \<open>A\<close> hold what they held.\<close>

definition same_on :: "path set \<Rightarrow> fs \<Rightarrow> fs \<Rightarrow> bool" where
  "same_on A fs0 fs \<longleftrightarrow> (\<forall>q \<in> A. fs q = fs0 q)"

definition leaves :: "path set \<Rightarrow> 'a io \<Rightarrow> bool" where
  "leaves A m \<longleftrightarrow> (\<forall>fs0. runs (same_on A fs0) m (\<lambda>_. same_on A fs0) (same_on A fs0))"

lemma runs_frame:
  assumes "leaves A m" and "\<And>fs fs'. P fs \<Longrightarrow> same_on A fs fs' \<Longrightarrow> P fs'"
  shows "runs P m (\<lambda>_. P) P"
  unfolding runs_def
proof (intro allI impI)
  fix w :: world
  assume P: "P (w_fs w)"
  have "runs (same_on A (w_fs w)) m (\<lambda>_. same_on A (w_fs w)) (same_on A (w_fs w))"
    using assms(1) by (simp add: leaves_def)
  then have "case m w of (Done a, w') \<Rightarrow> same_on A (w_fs w) (w_fs w') | (_, w') \<Rightarrow> same_on A (w_fs w) (w_fs w')"
    by (simp add: runs_def same_on_def)
  then have "same_on A (w_fs w) (w_fs (snd (m w)))"
    by (auto split: prod.splits finish.splits)
  then have "P (w_fs (snd (m w)))"
    using assms(2) P by blast
  then show "case m w of (Done a, w') \<Rightarrow> P (w_fs w') | (_, w') \<Rightarrow> P (w_fs w')"
    by (auto split: prod.splits finish.splits)
qed

lemma leaves_bind: "leaves A m \<Longrightarrow> (\<And>a. leaves A (f a)) \<Longrightarrow> leaves A (io_bind m f)"
  unfolding leaves_def by (blast intro: runs_bind)

lemma leaves_basic: "leaves A (io_return a)" "leaves A (io_read f)" "leaves A (io_lift r)"
  unfolding leaves_def by (blast intro: runs_return runs_read runs_lift)+

lemma leaves_mutate:
  assumes "\<And>fs fs' q. eff fs = Inr fs' \<Longrightarrow> q \<in> A \<Longrightarrow> fs' q = fs q"
    and "\<And>w fs q. q \<in> A \<Longrightarrow> part w fs q = fs q"
  shows "leaves A (mutate p eff part)"
  unfolding leaves_def by (intro allI runs_mutate) (auto simp: same_on_def assms)

lemma leaves_create_dir_all: "\<forall>q \<in> A. \<not> prefix q p \<Longrightarrow> leaves A (create_dir_all p)"
  unfolding create_dir_all_def by (rule leaves_mutate) (auto split: if_splits)

lemma leaves_remove_dir_all: "\<forall>q \<in> A. \<not> prefix p q \<Longrightarrow> leaves A (remove_dir_all p)"
  unfolding remove_dir_all_def by (rule leaves_mutate) (auto split: if_splits)

lemma leaves_file_ops:
  assumes "p \<notin> A"
  shows "leaves A (create_file p)" "leaves A (write_all p b)" "leaves A (sync_all p)"
    "leaves A (symlink t p)" "leaves A (remove_file p)"
  using assms unfolding create_file_def write_all_def sync_all_def symlink_def remove_file_def
  by (auto intro!: leaves_mutate split: if_splits option.splits node.splits)

lemma leaves_rename: "\<forall>q \<in> A. \<not> prefix s q \<and> \<not> prefix d q \<Longrightarrow> leaves A (rename s d)"
  unfolding rename_def by (rule leaves_mutate) (auto split: option.splits node.splits if_splits)

section \<open>Staging\<close>

text \<open>A name that is one component of a path.\<close>

definition safe_name :: "string \<Rightarrow> bool" where
  "safe_name n \<longleftrightarrow> n \<noteq> [] \<and> n \<noteq> ''.'' \<and> n \<noteq> ''..'' \<and> CHR ''/'' \<notin> set n"

definition safe_names :: "artifact list \<Rightarrow> bool" where
  "safe_names as \<longleftrightarrow> distinct (map ar_name as) \<and> list_all (\<lambda>a. safe_name (ar_name a)) as"

lemma path_join_safe: "safe_name n \<Longrightarrow> path_join base n = base @ [n]"
  by (cases n) (auto simp: safe_name_def path_join_def is_absolute_def components_def split_on_none)

text \<open>A directory that holds every artifact, with bytes that match its digest.\<close>

definition holds_release :: "sign_lib \<Rightarrow> path \<Rightarrow> artifact list \<Rightarrow> fs \<Rightarrow> bool" where
  "holds_release L dir as fs \<longleftrightarrow> fs dir = Some Dir \<and>
     (\<forall>a \<in> set as. \<exists>b. fs (dir @ [ar_name a]) = Some (File b) \<and> verify_digest L a b = Inr ())"

lemma leaves_write_artifact:
  assumes "safe_name (ar_name a)" and "\<forall>q \<in> A. \<not> prefix q st" and "st @ [ar_name a] \<notin> A"
  shows "leaves A (write_artifact st a b)"
  unfolding write_artifact_def Let_def path_join_safe [OF assms(1)]
  using assms(2,3) by (auto intro!: leaves_bind leaves_create_dir_all leaves_file_ops)

lemma write_artifact_post:
  assumes "safe_name (ar_name a)"
  shows "runs (\<lambda>_. True) (write_artifact st a b)
    (\<lambda>_ fs. fs (st @ [ar_name a]) = Some (File b)) (\<lambda>_. True)"
proof -
  let ?dest = "st @ [ar_name a]"
  have any: "runs (\<lambda>_. True) m (\<lambda>_ _. True) (\<lambda>_. True)" for m :: "unit io"
    by (auto simp: runs_def split: prod.splits finish.splits)
  have wr: "runs (\<lambda>_. True) (write_all ?dest b) (\<lambda>_ fs. fs ?dest = Some (File b)) (\<lambda>_. True)"
    unfolding write_all_def by (rule runs_mutate) auto
  have sy: "runs (\<lambda>fs. fs ?dest = Some (File b)) (sync_all ?dest)
      (\<lambda>_ fs. fs ?dest = Some (File b)) (\<lambda>_. True)"
    unfolding sync_all_def by (rule runs_mutate) auto
  show ?thesis
    unfolding write_artifact_def Let_def path_join_safe [OF assms]
    using runs_bind [OF any runs_bind [OF any runs_bind [OF wr sy]]] by simp
qed

lemma create_dir_all_keeps_dir:
  "runs (\<lambda>fs. fs q = Some Dir) (create_dir_all p) (\<lambda>_ fs. fs q = Some Dir) (\<lambda>fs. fs q = Some Dir)"
  unfolding create_dir_all_def by (rule runs_mutate) (auto split: if_splits)

lemma write_artifact_dir:
  assumes "safe_name (ar_name a)"
  shows "runs (\<lambda>fs. fs st = Some Dir) (write_artifact st a b) (\<lambda>_ fs. fs st = Some Dir) (\<lambda>_. True)"
proof -
  let ?dest = "st @ [ar_name a]"
  have keep: "runs (\<lambda>fs. fs st = Some Dir) m (\<lambda>_ fs. fs st = Some Dir) (\<lambda>fs. fs st = Some Dir)"
    if "leaves {st} m" for m :: "unit io"
    using that by (rule runs_frame) (simp add: same_on_def)
  have "st \<noteq> ?dest"
    by simp
  then have "runs (\<lambda>fs. fs st = Some Dir) (write_artifact st a b)
      (\<lambda>_ fs. fs st = Some Dir) (\<lambda>fs. fs st = Some Dir)"
    unfolding write_artifact_def Let_def path_join_safe [OF assms]
    by (simp, intro runs_bind [OF create_dir_all_keeps_dir runs_bind [OF keep runs_bind [OF keep keep]]])
      (auto intro: leaves_file_ops)
  then show ?thesis
    by (rule runs_conseq) simp_all
qed

lemma stage_artifacts_runs:
  assumes stable: "\<And>fs fs'. P fs \<Longrightarrow> same_on A fs fs' \<Longrightarrow> P fs'"
    and away: "\<forall>q \<in> A. \<not> prefix q st \<and> \<not> prefix st q"
  shows "safe_names (ds @ as) \<Longrightarrow>
    runs (\<lambda>fs. P fs \<and> holds_release L st ds fs) (stage_artifacts L src st as)
      (\<lambda>_ fs. P fs \<and> holds_release L st (ds @ as) fs) P"
proof (induction as arbitrary: ds)
  case Nil
  then show ?case
    by (auto intro!: runs_return)
next
  case (Cons a as)
  have safe: "safe_name (ar_name a)"
    using Cons.prems by (simp add: safe_names_def)
  let ?A' = "A \<union> (\<lambda>d. st @ [ar_name d]) ` set ds"
  let ?Pre = "\<lambda>fs. P fs \<and> holds_release L st ds fs"
  let ?files = "\<lambda>fs. \<forall>d \<in> set ds. \<exists>b. fs (st @ [ar_name d]) = Some (File b) \<and> verify_digest L d b = Inr ()"
  have wrote: "runs ?Pre (write_artifact st a b)
      (\<lambda>_ fs. ?Pre fs \<and> fs (st @ [ar_name a]) = Some (File b)) P" for b
  proof -
    have "leaves ?A' (write_artifact st a b)"
    proof (rule leaves_write_artifact [OF safe])
      show "\<forall>q \<in> ?A'. \<not> prefix q st"
        using away by auto
      show "st @ [ar_name a] \<notin> ?A'"
        using away Cons.prems by (auto simp: safe_names_def)
    qed
    then have "runs (\<lambda>fs. P fs \<and> ?files fs) (write_artifact st a b)
        (\<lambda>_ fs. P fs \<and> ?files fs) (\<lambda>fs. P fs \<and> ?files fs)"
    proof (rule runs_frame)
      fix fs fs'
      assume "P fs \<and> ?files fs" and same: "same_on ?A' fs fs'"
      then show "P fs' \<and> ?files fs'"
        using stable [of fs fs'] by (auto simp: same_on_def)
    qed
    from runs_conj [OF this runs_conj [OF write_artifact_dir [OF safe] write_artifact_post [OF safe]]]
    show ?thesis
      by (rule runs_conseq) (auto simp: holds_release_def)
  qed
  have "runs (\<lambda>fs. P fs \<and> holds_release L st (ds @ [a]) fs) (stage_artifacts L src st as)
      (\<lambda>_ fs. P fs \<and> holds_release L st ((ds @ [a]) @ as) fs) P"
    using Cons.prems by (intro Cons.IH) simp
  then have rest: "runs (\<lambda>fs. ?Pre fs \<and> fs (st @ [ar_name a]) = Some (File b))
      (stage_artifacts L src st as) (\<lambda>_ fs. P fs \<and> holds_release L st (ds @ a # as) fs) P"
    if "verify_digest L a b = Inr ()" for b
    by (rule runs_conseq) (use that in \<open>auto simp: holds_release_def\<close>)
  show ?case
    unfolding stage_artifacts.simps
  proof (rule runs_bind)
    show "runs ?Pre (io_lift (src_artifact src a)) (\<lambda>_. ?Pre) P"
      by (rule runs_lift) simp_all
  next
    fix b
    show "runs ?Pre (io_bind (io_lift (verify_digest L a b))
        (\<lambda>_. io_bind (write_artifact st a b) (\<lambda>_. stage_artifacts L src st as)))
        (\<lambda>_ fs. P fs \<and> holds_release L st (ds @ a # as) fs) P"
    proof (cases "verify_digest L a b")
      case (Inl e)
      then show ?thesis
        by (auto simp: runs_def io_bind_def io_lift_def)
    next
      case (Inr u)
      then have ok: "verify_digest L a b = Inr ()"
        by simp
      have "runs ?Pre (io_lift (verify_digest L a b)) (\<lambda>_. ?Pre) P"
        by (rule runs_lift) simp_all
      then show ?thesis
        by (rule runs_bind) (rule runs_bind [OF wrote rest [OF ok]])
    qed
  qed
qed

definition stable_on :: "path set \<Rightarrow> (fs \<Rightarrow> bool) \<Rightarrow> bool" where
  "stable_on A P \<longleftrightarrow> (\<forall>fs fs'. P fs \<longrightarrow> same_on A fs fs' \<longrightarrow> P fs')"

lemma runs_stable: "stable_on A P \<Longrightarrow> leaves A m \<Longrightarrow> runs P m (\<lambda>_. P) P"
  by (rule runs_frame) (auto simp: stable_on_def)

lemma stable_same_on: "A \<subseteq> B \<Longrightarrow> stable_on B (same_on A fs0)"
  by (auto simp: stable_on_def same_on_def)

lemma runs_read_branch:
  "runs P m Q E \<Longrightarrow> (\<And>fs. P fs \<Longrightarrow> Q () fs) \<Longrightarrow>
     runs P (io_bind (io_read f) (\<lambda>there. if there then m else io_return ())) Q E"
  by (rule runs_bind [where Q = "\<lambda>_. P"]) (auto intro: runs_read runs_return)

lemma io_bind_assoc: "io_bind (io_bind m f) g = io_bind m (\<lambda>a. io_bind (f a) g)"
  by (rule ext) (auto simp: io_bind_def split: prod.splits finish.splits)

lemma runs_read_if_then:
  assumes "runs P m (\<lambda>_. P) E" and "runs P (rest ()) R E"
  shows "runs P (io_bind (io_read f) (\<lambda>there. io_bind (if there then m else io_return ()) rest)) R E"
proof -
  have "runs P (io_bind (io_bind (io_read f) (\<lambda>there. if there then m else io_return ())) rest) R E"
    by (rule runs_bind [OF runs_read_branch [OF assms(1)]]) (use assms(2) in auto)
  then show ?thesis
    by (simp add: io_bind_assoc)
qed

lemma create_dir_all_post: "runs (\<lambda>_. True) (create_dir_all p) (\<lambda>_ fs. fs p = Some Dir) (\<lambda>_. True)"
  unfolding create_dir_all_def
proof (rule runs_mutate)
  fix fs fs' :: fs
  assume "(if \<exists>q \<in> set (prefixes p). fs q \<noteq> None \<and> fs q \<noteq> Some Dir then Inl ''not a directory''
      else Inr (\<lambda>q. if prefix q p \<and> fs q = None then Some Dir else fs q)) = Inr fs'"
  then have all: "\<forall>q \<in> set (prefixes p). fs q = None \<or> fs q = Some Dir"
    and fs': "fs' = (\<lambda>q. if prefix q p \<and> fs q = None then Some Dir else fs q)"
    by (auto split: if_splits)
  have "p \<in> set (prefixes p)"
    by simp
  then have "fs p = None \<or> fs p = Some Dir"
    using all by blast
  then show "fs' p = Some Dir"
    by (auto simp: fs')
qed simp_all

lemma stage_runs:
  assumes P: "stable_on A P" and names: "safe_names (mf_artifacts m)"
    and st: "st = staging_dir (up_layout u) @ [sv_text (up_semver u) v]"
    and away: "\<forall>q \<in> A. \<not> prefix q st \<and> \<not> prefix st q"
  shows "runs P (stage u src m v)
    (\<lambda>staged fs. staged = st \<and> P fs \<and> holds_release (up_sign u) st (mf_artifacts m) fs) P"
proof -
  have rm: "runs P (remove_dir_all st) (\<lambda>_. P) P"
    by (rule runs_stable [OF P]) (use away in \<open>auto intro: leaves_remove_dir_all\<close>)
  have "runs P (create_dir_all st) (\<lambda>_. P) P"
    by (rule runs_stable [OF P]) (use away in \<open>auto intro: leaves_create_dir_all\<close>)
  from runs_conj [OF this create_dir_all_post [of st]]
  have mk: "runs P (create_dir_all st)
      (\<lambda>_ fs. P fs \<and> holds_release (up_sign u) st [] fs) P"
    by (rule runs_conseq) (simp_all add: holds_release_def)
  have "runs (\<lambda>fs. P fs \<and> holds_release (up_sign u) st [] fs)
      (stage_artifacts (up_sign u) src st (mf_artifacts m))
      (\<lambda>_ fs. P fs \<and> holds_release (up_sign u) st ([] @ mf_artifacts m) fs) P"
    using P names by (intro stage_artifacts_runs [OF _ away]) (auto simp: stable_on_def)
  then have "runs P (io_bind (create_dir_all st) (\<lambda>_.
      io_bind (stage_artifacts (up_sign u) src st (mf_artifacts m)) (\<lambda>_. io_return st)))
      (\<lambda>staged fs. staged = st \<and> P fs \<and> holds_release (up_sign u) st (mf_artifacts m) fs) P"
    by (intro runs_bind [OF mk] runs_bind [where Q = "\<lambda>_ fs. P fs \<and> holds_release (up_sign u) st (mf_artifacts m) fs"])
      (auto intro: runs_return)
  then show ?thesis
    unfolding stage_def Let_def st [symmetric] by (rule runs_read_if_then [OF rm])
qed

section \<open>Swapping a link\<close>

lemma leaves_replace_symlink:
  assumes "\<forall>q \<in> A. \<not> prefix (tmp_link pid l) q \<and> \<not> prefix l q"
  shows "leaves A (replace_symlink pid t l)"
proof -
  have "tmp_link pid l \<notin> A"
    using assms by auto
  then show ?thesis
    unfolding replace_symlink_def Let_def using assms
    by (intro leaves_bind leaves_basic leaves_rename)
      (auto intro: leaves_file_ops leaves_basic)
qed

text \<open>
  Replacing the link that stands at \<open>l\<close>: until the last step \<open>l\<close> is what it was, and
  after it \<open>l\<close> points at the target.
\<close>

lemma replace_symlink_runs:
  assumes P: "stable_on A P" and step: "\<And>fs fs'. P fs \<Longrightarrow>
      same_on B fs fs' \<Longrightarrow> fs' l = Some (Link t) \<Longrightarrow> R fs'"
    and "l \<noteq> []" and A: "\<forall>q \<in> A. \<not> prefix (tmp_link pid l) q"
    and B: "\<forall>q \<in> B. \<not> prefix (tmp_link pid l) q \<and> q \<noteq> l"
  shows "runs P (replace_symlink pid t l) (\<lambda>_. R) P"
proof -
  let ?tmp = "tmp_link pid l"
  have diff: "?tmp \<noteq> l"
    using assms(4) by (cases l rule: rev_cases) (auto simp: tmp_link_def)
  have tmp: "?tmp \<notin> A"
    using A by auto
  have rm: "runs P (remove_file ?tmp) (\<lambda>_. P) P"
    by (rule runs_stable [OF P leaves_file_ops(5) [OF tmp]])
  have keeps_P: "runs P (symlink t ?tmp) (\<lambda>_. P) P"
    by (rule runs_stable [OF P leaves_file_ops(4) [OF tmp]])
  have points: "runs (\<lambda>_. True) (symlink t ?tmp) (\<lambda>_ fs. fs ?tmp = Some (Link t)) (\<lambda>_. True)"
    unfolding symlink_def by (rule runs_mutate) (auto split: if_splits)
  from runs_conj [OF keeps_P points]
  have mk: "runs P (symlink t ?tmp) (\<lambda>_ fs. P fs \<and> fs ?tmp = Some (Link t)) P"
    by (rule runs_conseq) simp_all
  have mv: "runs (\<lambda>fs. P fs \<and> fs ?tmp = Some (Link t)) (rename ?tmp l) (\<lambda>_. R) P"
    unfolding rename_def
  proof (rule runs_mutate)
    fix fs fs' :: fs
    assume pre: "P fs \<and> fs ?tmp = Some (Link t)"
      and eff: "(case fs ?tmp of None \<Rightarrow> Inl ''not found''
        | Some Dir \<Rightarrow> if fs l = None \<and> fs (butlast l) = Some Dir
            then Inr (\<lambda>q. if prefix l q then fs (?tmp @ drop (length l) q)
                          else if prefix ?tmp q then None else fs q)
            else Inl ''exists''
        | Some n \<Rightarrow> if fs l = Some Dir \<or> fs (butlast l) \<noteq> Some Dir then Inl ''is a directory''
            else Inr (fs(?tmp := None, l \<mapsto> n))) = Inr fs'"
    then have fs': "fs' = fs(?tmp := None, l \<mapsto> Link t)"
      by (auto split: if_splits)
    have "same_on B fs fs'"
      using B by (auto simp: same_on_def fs')
    then show "R fs'"
      using step [of fs fs'] pre by (simp add: fs')
  qed (use P in auto)
  have "runs P (io_bind (symlink t ?tmp) (\<lambda>_. rename ?tmp l)) (\<lambda>_. R) P"
    by (rule runs_bind [OF mk mv])
  then show ?thesis
    unfolding replace_symlink_def Let_def by (rule runs_read_if_then [OF rm])
qed

section \<open>The update keeps the box running\<close>

text \<open>The tree of a release.\<close>

definition below :: "path \<Rightarrow> path set" where
  "below p = {q. prefix p q}"

lemma below_apart:
  assumes "length xs \<le> length ys" "take (length xs) ys \<noteq> xs" "q \<in> below (r @ ys)"
  shows "\<not> prefix (r @ xs) q"
  using assms by (auto simp: below_def prefix_def append_eq_append_conv2)

lemmas layout_defs = release_dir_def releases_dir_def current_link_def previous_link_def
  staging_dir_def tmp_link_def

text \<open>
  A file system a reader of \<open>current\<close> can rely on: the running release is as it was at the
  start, and the link points at it still or at a complete release, every artifact of the manifest
  in place with the bytes its digest names.
\<close>

definition relies_on ::
  "'v updater \<Rightarrow> artifact list \<Rightarrow> 'v \<Rightarrow> 'v \<Rightarrow> fs \<Rightarrow> fs \<Rightarrow> bool" where
  "relies_on u as v0 v fs0 fs \<longleftrightarrow>
     same_on (below (release_dir (up_semver u) (up_layout u) v0)) fs0 fs
     \<and> (fs (current_link (up_layout u)) = fs0 (current_link (up_layout u))
        \<or> (fs (current_link (up_layout u)) = Some (Link (release_dir (up_semver u) (up_layout u) v))
           \<and> holds_release (up_sign u) (release_dir (up_semver u) (up_layout u) v) as fs))"

lemma holds_release_stable: "below dir \<subseteq> A \<Longrightarrow> stable_on A (holds_release L dir as)"
  unfolding stable_on_def same_on_def holds_release_def below_def
  by (auto simp: subset_iff)

lemma stable_conj: "stable_on A P \<Longrightarrow> stable_on A Q \<Longrightarrow> stable_on A (\<lambda>fs. P fs \<and> Q fs)"
  by (auto simp: stable_on_def)

lemma rename_release:
  "runs (holds_release L s as) (rename s d) (\<lambda>_. holds_release L d as) (\<lambda>_. True)"
  unfolding rename_def
proof (rule runs_mutate)
  fix fs fs' :: fs
  assume h: "holds_release L s as fs"
    and eff: "(case fs s of None \<Rightarrow> Inl ''not found''
      | Some Dir \<Rightarrow> if fs d = None \<and> fs (butlast d) = Some Dir
          then Inr (\<lambda>q. if prefix d q then fs (s @ drop (length d) q)
                        else if prefix s q then None else fs q)
          else Inl ''exists''
      | Some n \<Rightarrow> if fs d = Some Dir \<or> fs (butlast d) \<noteq> Some Dir then Inl ''is a directory''
          else Inr (fs(s := None, d \<mapsto> n))) = Inr fs'"
  then have "fs' = (\<lambda>q. if prefix d q then fs (s @ drop (length d) q)
      else if prefix s q then None else fs q)"
    by (auto simp: holds_release_def split: if_splits)
  then show "holds_release L d as fs'"
    using h by (simp add: holds_release_def)
qed simp_all

lemma installed_version_runs:
  assumes "\<And>fs. P fs \<Longrightarrow> fs (current_link y) = Some (Link (release_dir V y v0))"
    and "sv_parse V (sv_text V v0) = Inr v0"
  shows "runs P (installed_version V y) (\<lambda>iv fs. iv = Some v0 \<and> P fs) E"
  unfolding runs_def
proof (intro allI impI)
  fix w :: world
  assume P: "P (w_fs w)"
  then have "w_fs w (current_link y) = Some (Link (releases_dir y @ [sv_text V v0]))"
    using assms(1) by (simp add: release_dir_def)
  then show "case installed_version V y w of (Done iv, w') \<Rightarrow> iv = Some v0 \<and> P (w_fs w') | (_, w') \<Rightarrow> E (w_fs w')"
    using assms(2) P by (simp add: installed_version_def io_bind_def io_read_def io_return_def)
qed

lemma activate_runs:
  assumes parse: "sv_parse (up_semver u) (sv_text (up_semver u) v0) = Inr v0"
    and other: "sv_text (up_semver u) v \<noteq> sv_text (up_semver u) v0"
    and cur0: "fs0 (current_link (up_layout u)) = Some (Link (release_dir (up_semver u) (up_layout u) v0))"
    and P: "P = same_on (insert (current_link (up_layout u))
      (below (release_dir (up_semver u) (up_layout u) v0))) fs0"
    and st: "st = staging_dir (up_layout u) @ [sv_text (up_semver u) v]"
    and dir: "dir = release_dir (up_semver u) (up_layout u) v"
  shows "runs (\<lambda>fs. P fs \<and> holds_release (up_sign u) st as fs) (activate u st v v0)
    (\<lambda>prev fs. prev = Some v0 \<and> same_on (below (release_dir (up_semver u) (up_layout u) v0)) fs0 fs
      \<and> fs (current_link (up_layout u)) = Some (Link dir) \<and> holds_release (up_sign u) dir as fs)
    (relies_on u as v0 v fs0)"
proof -
  let ?y = "up_layout u" and ?V = "up_semver u" and ?L = "up_sign u"
  let ?r = "lay_root ?y"
  let ?cur = "current_link ?y" and ?old = "below (release_dir ?V ?y v0)"
  let ?A = "insert ?cur ?old"
  have PA: "stable_on (?A \<union> B) P" for B
    unfolding P by (rule stable_same_on) blast
  have safe: "relies_on u as v0 v fs0 fs" if "P fs" for fs
    using that by (auto simp: P relies_on_def same_on_def)
  have away_dir: "\<forall>q \<in> ?A \<union> below st. \<not> prefix dir q"
    using below_apart [of "[''releases'', sv_text ?V v]" "[''releases'', sv_text ?V v0]" _ ?r]
      below_apart [of "[''releases'', sv_text ?V v]" "[''staging'', sv_text ?V v]" _ ?r] other
    by (auto simp: dir st layout_defs)
  have away_st: "\<forall>q \<in> ?A. \<not> prefix st q"
    using below_apart [of "[''staging'', sv_text ?V v]" "[''releases'', sv_text ?V v0]" _ ?r]
    by (auto simp: st layout_defs)
  have away_links: "\<forall>q \<in> ?old \<union> below dir. \<not> prefix (?r @ [n]) q" if "n \<noteq> ''releases''" for n
    using below_apart [of "[n]" "[''releases'', sv_text ?V v0]" _ ?r]
      below_apart [of "[n]" "[''releases'', sv_text ?V v]" _ ?r] that
    by (auto simp: dir layout_defs)
  let ?Pst = "\<lambda>fs. P fs \<and> holds_release ?L st as fs"
  let ?Pdir = "\<lambda>fs. P fs \<and> holds_release ?L dir as fs"
  let ?R = "\<lambda>fs. same_on ?old fs0 fs \<and> fs ?cur = Some (Link dir) \<and> holds_release ?L dir as fs"
  have clear: "runs ?Pst (remove_dir_all dir) (\<lambda>_. ?Pst) ?Pst"
    using away_dir by (intro runs_stable [of "?A \<union> below st"] stable_conj PA
        holds_release_stable leaves_remove_dir_all) auto
  have "runs P (rename st dir) (\<lambda>_. P) P"
    using away_dir away_st PA [of "{}"] by (intro runs_stable [of ?A] leaves_rename) auto
  from runs_conj [OF this rename_release]
  have move: "runs ?Pst (rename st dir) (\<lambda>_. ?Pdir) P"
    by (rule runs_conseq) simp_all
  have ver: "runs ?Pdir (installed_version ?V ?y) (\<lambda>iv fs. iv = Some v0 \<and> ?Pdir fs) P"
    by (rule installed_version_runs) (simp_all add: P same_on_def cur0 parse)
  have Pdir: "stable_on (?A \<union> below dir) ?Pdir"
    by (intro stable_conj PA holds_release_stable) blast
  have prev_away: "\<forall>q \<in> ?A \<union> below dir. \<not> prefix (tmp_link (up_pid u) (previous_link ?y)) q
      \<and> \<not> prefix (previous_link ?y) q"
    using away_links [of "''previous''"] away_links [of "''previous.tmp-'' @ up_pid u"]
    by (auto simp: layout_defs)
  have prev: "runs ?Pdir (replace_symlink (up_pid u) (release_dir ?V ?y v0) (previous_link ?y))
      (\<lambda>_. ?Pdir) ?Pdir"
    by (rule runs_stable [OF Pdir leaves_replace_symlink [OF prev_away]])
  have cur: "runs ?Pdir (point_current_at u v) (\<lambda>_. ?R) ?Pdir"
    unfolding point_current_at_def
  proof (rule replace_symlink_runs [OF Pdir, where B = "?old \<union> below dir"])
    show "current_link ?y \<noteq> []"
      by (simp add: current_link_def)
    show "\<forall>q \<in> ?A \<union> below dir. \<not> prefix (tmp_link (up_pid u) (current_link ?y)) q"
      using away_links [of "''current.tmp-'' @ up_pid u"] by (auto simp: layout_defs)
    show "\<forall>q \<in> ?old \<union> below dir. \<not> prefix (tmp_link (up_pid u) (current_link ?y)) q \<and> q \<noteq> current_link ?y"
      using away_links [of "''current.tmp-'' @ up_pid u"] away_links [of "''current''"]
      by (auto simp: layout_defs)
    show "?R fs'" if "?Pdir fs" "same_on (?old \<union> below dir) fs fs'"
      "fs' (current_link ?y) = Some (Link (release_dir ?V ?y v))" for fs fs'
    proof -
      have "holds_release ?L dir as fs'"
        using that holds_release_stable [of dir "?old \<union> below dir"] unfolding stable_on_def by blast
      then show ?thesis
        using that by (auto simp: P same_on_def dir)
    qed
  qed
  have cont: "runs (\<lambda>fs. iv = Some v0 \<and> ?Pdir fs)
      (io_bind (if iv \<noteq> None then replace_symlink (up_pid u) (release_dir ?V ?y v0) (previous_link ?y)
         else io_return ()) (\<lambda>_. io_bind (point_current_at u v)
           (\<lambda>_. io_return (if iv \<noteq> None then Some v0 else None))))
      (\<lambda>p fs. p = Some v0 \<and> ?R fs) P" for iv
  proof (cases "iv = Some v0")
    case True
    have "runs ?Pdir (io_bind (replace_symlink (up_pid u) (release_dir ?V ?y v0) (previous_link ?y))
        (\<lambda>_. io_bind (point_current_at u v) (\<lambda>_. io_return (Some v0))))
        (\<lambda>p fs. p = Some v0 \<and> ?R fs) ?Pdir"
      by (rule runs_bind [OF prev runs_bind [OF cur]]) (auto intro: runs_return)
    then have "runs ?Pdir (io_bind (replace_symlink (up_pid u) (release_dir ?V ?y v0) (previous_link ?y))
        (\<lambda>_. io_bind (point_current_at u v) (\<lambda>_. io_return (Some v0))))
        (\<lambda>p fs. p = Some v0 \<and> ?R fs) P"
      by (rule runs_conseq) simp_all
    then show ?thesis
      by (simp add: True)
  qed (simp add: runs_def)
  have "runs ?Pst (activate u st v v0) (\<lambda>p fs. p = Some v0 \<and> ?R fs) (\<lambda>fs. P fs)"
    unfolding activate_def Let_def dir [symmetric]
  proof (rule runs_read_if_then)
    show "runs ?Pst (remove_dir_all dir) (\<lambda>_. ?Pst) P"
      using clear by (rule runs_conseq) simp_all
    show "runs ?Pst (io_bind (rename st dir) (\<lambda>_. io_bind (installed_version ?V ?y) (\<lambda>iv.
        io_bind (if iv \<noteq> None then replace_symlink (up_pid u) (release_dir ?V ?y v0) (previous_link ?y)
          else io_return ()) (\<lambda>_. io_bind (point_current_at u v)
            (\<lambda>_. io_return (if iv \<noteq> None then Some v0 else None))))))
        (\<lambda>p fs. p = Some v0 \<and> ?R fs) P"
      by (rule runs_bind [OF move runs_bind [OF ver cont]])
  qed
  then show ?thesis
    by (rule runs_conseq) (simp_all add: safe)
qed

text \<open>How each outcome leaves the \<open>current\<close> link.\<close>

fun link_after :: "'v semver_lib \<Rightarrow> layout \<Rightarrow> 'v \<Rightarrow> 'v update_outcome \<Rightarrow> path" where
  "link_after V y v0 (Installed v _) = release_dir V y v"
| "link_after V y v0 (RolledBack _ v _) = release_dir V y v"
| "link_after V y v0 (OutUpToDate _) = release_dir V y v0"
| "link_after V y v0 (OutNotInCohort _) = release_dir V y v0"

fun names_running :: "'v \<Rightarrow> 'v update_outcome \<Rightarrow> bool" where
  "names_running v0 (Installed v p) = (v \<noteq> v0 \<and> p = Some v0)"
| "names_running v0 (RolledBack v r _) = (v \<noteq> v0 \<and> r = v0)"
| "names_running v0 (OutUpToDate v) = (v = v0)"
| "names_running v0 (OutNotInCohort _) = True"

definition outcome_ok ::
  "'v updater \<Rightarrow> 'v \<Rightarrow> 'v update_outcome \<Rightarrow> fs \<Rightarrow> bool" where
  "outcome_ok u v0 res fs \<longleftrightarrow> names_running v0 res \<and>
     fs (current_link (up_layout u)) = Some (Link (link_after (up_semver u) (up_layout u) v0 res))"

lemma apply_target_runs:
  assumes parse: "sv_parse (up_semver u) (sv_text (up_semver u) v0) = Inr v0"
    and other: "sv_text (up_semver u) v \<noteq> sv_text (up_semver u) v0" and "v \<noteq> v0"
    and cur0: "fs0 (current_link (up_layout u)) = Some (Link (release_dir (up_semver u) (up_layout u) v0))"
    and P: "P = same_on (insert (current_link (up_layout u))
      (below (release_dir (up_semver u) (up_layout u) v0))) fs0"
    and names: "safe_names (mf_artifacts m)"
  shows "runs P (apply_target u src probe m v0 v)
    (\<lambda>res fs. relies_on u (mf_artifacts m) v0 v fs0 fs \<and> outcome_ok u v0 res fs)
    (relies_on u (mf_artifacts m) v0 v fs0)"
proof -
  let ?y = "up_layout u" and ?V = "up_semver u" and ?as = "mf_artifacts m"
  let ?r = "lay_root ?y" and ?cur = "current_link ?y"
  let ?old = "below (release_dir ?V ?y v0)" and ?dir = "release_dir ?V ?y v"
  let ?st = "staging_dir ?y @ [sv_text ?V v]"
  let ?safe = "relies_on u ?as v0 v fs0"
  let ?live = "\<lambda>fs. same_on ?old fs0 fs \<and> fs ?cur = Some (Link ?dir) \<and> holds_release (up_sign u) ?dir ?as fs"
  have away: "\<forall>q \<in> insert ?cur ?old. \<not> prefix q ?st \<and> \<not> prefix ?st q"
  proof -
    have "\<not> prefix q ?st" if "q \<in> ?old" for q
    proof
      assume "prefix q ?st"
      then have "prefix (release_dir ?V ?y v0) ?st"
        using that prefix_order.trans by (auto simp: below_def)
      then show False
        by (simp add: layout_defs)
    qed
    then show ?thesis
      using below_apart [of "[''staging'', sv_text ?V v]" "[''releases'', sv_text ?V v0]" _ ?r]
      by (auto simp: layout_defs)
  qed
  have PA: "stable_on (insert ?cur ?old) P"
    unfolding P by (rule stable_same_on) blast
  have Psafe: "?safe fs" if "P fs" for fs
    using that by (auto simp: P relies_on_def same_on_def)
  have staged: "runs P (stage u src m v)
      (\<lambda>staged fs. staged = ?st \<and> P fs \<and> holds_release (up_sign u) ?st ?as fs) ?safe"
    by (rule runs_conseq [OF stage_runs [OF PA names refl away]]) (simp_all add: Psafe)
  have act: "runs (\<lambda>fs. staged = ?st \<and> P fs \<and> holds_release (up_sign u) ?st ?as fs)
      (activate u staged v v0) (\<lambda>prev fs. prev = Some v0 \<and> ?live fs) ?safe" for staged
  proof (cases "staged = ?st")
    case True
    then show ?thesis
      using activate_runs [OF parse other cur0 P refl refl, of ?as] by simp
  qed (simp add: runs_def)
  have links: "\<forall>q \<in> ?old \<union> below ?dir. \<not> prefix (?r @ [n]) q" if "n \<noteq> ''releases''" for n
    using below_apart [of "[n]" "[''releases'', sv_text ?V v0]" _ ?r]
      below_apart [of "[n]" "[''releases'', sv_text ?V v]" _ ?r] that
    by (auto simp: layout_defs)
  have restore: "runs ?live (point_current_at u v0)
      (\<lambda>_ fs. same_on ?old fs0 fs \<and> fs ?cur = Some (Link (release_dir ?V ?y v0))) ?live"
    unfolding point_current_at_def
  proof (rule replace_symlink_runs [where A = "insert ?cur (?old \<union> below ?dir)" and B = ?old])
    have "stable_on (insert ?cur (?old \<union> below ?dir)) (same_on ?old fs0)"
      by (rule stable_same_on) blast
    moreover have "stable_on (insert ?cur (?old \<union> below ?dir)) (holds_release (up_sign u) ?dir ?as)"
      by (rule holds_release_stable) blast
    moreover have "stable_on (insert ?cur (?old \<union> below ?dir)) (\<lambda>fs. fs ?cur = Some (Link ?dir))"
      by (simp add: stable_on_def same_on_def)
    ultimately show "stable_on (insert ?cur (?old \<union> below ?dir)) ?live"
      by (intro stable_conj)
    show "\<forall>q \<in> insert ?cur (?old \<union> below ?dir). \<not> prefix (tmp_link (up_pid u) ?cur) q"
      using links [of "''current.tmp-'' @ up_pid u"] by (auto simp: layout_defs)
    show "\<forall>q \<in> ?old. \<not> prefix (tmp_link (up_pid u) ?cur) q \<and> q \<noteq> ?cur"
      using links [of "''current.tmp-'' @ up_pid u"] links [of "''current''"]
      by (auto simp: layout_defs)
  qed (auto simp: current_link_def same_on_def)
  have gate: "runs (\<lambda>fs. prev = Some v0 \<and> ?live fs)
      (let report = probe (mf_health_deadline_secs m) in
       if hr_healthy report then io_return (Installed v prev)
       else case prev of
         None \<Rightarrow> io_lift (Inl (RollbackImpossible (sv_text ?V v) (hr_detail report)))
       | Some restore \<Rightarrow> io_bind (point_current_at u restore) (\<lambda>_.
           io_return (RolledBack v restore (hr_detail report))))
      (\<lambda>res fs. ?safe fs \<and> outcome_ok u v0 res fs) ?safe" for prev
  proof (cases "prev = Some v0")
    case True
    have rb: "runs ?live (io_bind (point_current_at u v0) (\<lambda>_. io_return (RolledBack v v0 d)))
        (\<lambda>res fs. ?safe fs \<and> outcome_ok u v0 res fs) ?safe" for d
    proof (rule runs_bind)
      show "runs ?live (point_current_at u v0)
          (\<lambda>_ fs. same_on ?old fs0 fs \<and> fs ?cur = Some (Link (release_dir ?V ?y v0))) ?safe"
        by (rule runs_conseq [OF restore]) (auto simp: relies_on_def)
      show "runs (\<lambda>fs. same_on ?old fs0 fs \<and> fs ?cur = Some (Link (release_dir ?V ?y v0)))
          (io_return (RolledBack v v0 d)) (\<lambda>res fs. ?safe fs \<and> outcome_ok u v0 res fs) ?safe"
        by (rule runs_return) (simp add: relies_on_def outcome_ok_def cur0 assms(3))
    qed
    have inst: "runs ?live (io_return (Installed v (Some v0)))
        (\<lambda>res fs. ?safe fs \<and> outcome_ok u v0 res fs) ?safe"
      by (rule runs_return) (simp add: relies_on_def outcome_ok_def assms(3))
    show ?thesis
      using rb inst by (simp add: True Let_def)
  qed (simp add: runs_def)
  show ?thesis
    unfolding apply_target_def by (rule runs_bind [OF staged runs_bind [OF act gate]])
qed

text \<open>The manifest an update acted on, and what \<open>current\<close> may point at afterwards.\<close>

definition new_release_live ::
  "('v::linorder) updater \<Rightarrow> artifact_source \<Rightarrow> 'v \<Rightarrow> fs \<Rightarrow> bool" where
  "new_release_live u src v0 fs \<longleftrightarrow> (\<exists>env m v. src_manifest src = Inr env
     \<and> manifest_verify (up_sign u) (up_semver u) (up_from_slice u) env (up_key u) = Inr m
     \<and> decide (up_semver u) m v0 (up_cohort u) = Inr (Install v)
     \<and> fs (current_link (up_layout u)) = Some (Link (release_dir (up_semver u) (up_layout u) v))
     \<and> holds_release (up_sign u) (release_dir (up_semver u) (up_layout u) v) (mf_artifacts m) fs)"

definition manifests_safe :: "('v::linorder) updater \<Rightarrow> artifact_source \<Rightarrow> bool" where
  "manifests_safe u src \<longleftrightarrow> (\<forall>env m. src_manifest src = Inr env \<longrightarrow>
     manifest_verify (up_sign u) (up_semver u) (up_from_slice u) env (up_key u) = Inr m \<longrightarrow>
     safe_names (mf_artifacts m))"

definition version_text_parses :: "'v semver_lib \<Rightarrow> bool" where
  "version_text_parses V \<longleftrightarrow> (\<forall>v. sv_parse V (sv_text V v) = Inr v)"

lemma decide_Install_other: "decide V m v0 c = Inr (Install v) \<Longrightarrow> v \<noteq> v0"
  by (auto simp: decide_def outcome split: if_splits)

lemma runs_any_E: "runs P m Q E \<Longrightarrow> (\<And>fs. E fs \<Longrightarrow> E' fs) \<Longrightarrow> runs P m Q E'"
  using runs_conseq [of P m Q E P Q E'] by blast

lemma update_runs:
  fixes u :: "('v::linorder) updater"
  assumes texts: "version_text_parses (up_semver u)"
    and cur0: "fs0 (current_link (up_layout u)) = Some (Link (release_dir (up_semver u) (up_layout u) v0))"
    and names: "manifests_safe u src"
  shows "runs (\<lambda>fs. fs = fs0) (update u src probe)
    (\<lambda>res fs. (same_on (below (release_dir (up_semver u) (up_layout u) v0)) fs0 fs
        \<and> (fs (current_link (up_layout u)) = fs0 (current_link (up_layout u)) \<or> new_release_live u src v0 fs))
      \<and> outcome_ok u v0 res fs)
    (\<lambda>fs. same_on (below (release_dir (up_semver u) (up_layout u) v0)) fs0 fs
        \<and> (fs (current_link (up_layout u)) = fs0 (current_link (up_layout u)) \<or> new_release_live u src v0 fs))"
proof -
  let ?y = "up_layout u" and ?V = "up_semver u"
  let ?cur = "current_link ?y" and ?old = "below (release_dir ?V ?y v0)"
  let ?E = "\<lambda>fs. same_on ?old fs0 fs \<and> (fs ?cur = fs0 ?cur \<or> new_release_live u src v0 fs)"
  let ?Q = "\<lambda>res fs. ?E fs \<and> outcome_ok u v0 res fs"
  let ?verify = "\<lambda>env. manifest_verify (up_sign u) ?V (up_from_slice u) env (up_key u)"
  define P where "P = same_on (insert ?cur ?old) fs0"
  have PA: "stable_on (insert ?cur ?old) P"
    unfolding P_def by (rule stable_same_on) blast
  have PE: "?E fs" if "P fs" for fs
    using that by (auto simp: P_def same_on_def)
  have parse: "sv_parse ?V (sv_text ?V v) = Inr v" for v
    using texts by (simp add: version_text_parses_def)
  have skel: "\<forall>q \<in> insert ?cur ?old. \<not> prefix q d" if "d = releases_dir ?y \<or> d = staging_dir ?y" for d
  proof -
    have "\<not> prefix q d" if "q \<in> ?old" for q
    proof
      assume "prefix q d"
      then have "prefix (release_dir ?V ?y v0) d"
        using that prefix_order.trans by (auto simp: below_def)
      then show False
        using \<open>d = releases_dir ?y \<or> d = staging_dir ?y\<close> by (auto simp: layout_defs)
    qed
    then show ?thesis
      using that by (auto simp: layout_defs)
  qed
  have ens: "runs P (ensure ?y) (\<lambda>_. P) ?E"
  proof -
    have "leaves (insert ?cur ?old) (ensure ?y)"
      unfolding ensure_def by (intro leaves_bind leaves_create_dir_all skel) simp_all
    then show ?thesis
      by (intro runs_any_E [OF runs_stable [OF PA]] PE)
  qed
  have tail: "runs (\<lambda>fs. iv = Some v0 \<and> P fs)
      (let installed = (case iv of None \<Rightarrow> sv_zero ?V | Some v \<Rightarrow> v) in
       io_bind (io_lift (decide ?V m installed (up_cohort u))) (\<lambda>d.
         case d of UpToDate \<Rightarrow> io_return (OutUpToDate installed)
         | NotInCohort cs \<Rightarrow> io_return (OutNotInCohort cs)
         | Install target \<Rightarrow> apply_target u src probe m installed target)) ?Q ?E"
    if verified: "src_manifest src = Inr env" "?verify env = Inr m" for env m iv
  proof (cases "iv = Some v0")
    case True
    have branch: "runs (\<lambda>fs. decide ?V m v0 (up_cohort u) = Inr d \<and> P fs)
        (case d of UpToDate \<Rightarrow> io_return (OutUpToDate v0)
         | NotInCohort cs \<Rightarrow> io_return (OutNotInCohort cs)
         | Install target \<Rightarrow> apply_target u src probe m v0 target) ?Q ?E" for d
    proof (cases d)
      case (Install v)
      show ?thesis
      proof (cases "decide ?V m v0 (up_cohort u) = Inr (Install v)")
        case dec: True
        have live: "?E fs" if "relies_on u (mf_artifacts m) v0 v fs0 fs" for fs
          using that verified dec unfolding relies_on_def new_release_live_def by blast
        have "v \<noteq> v0"
          by (rule decide_Install_other [OF dec])
        moreover have "sv_text ?V v \<noteq> sv_text ?V v0"
          using calculation parse [of v] parse [of v0] by (metis sum.inject(2))
        moreover have "safe_names (mf_artifacts m)"
          using names verified by (auto simp: manifests_safe_def)
        ultimately have "runs P (apply_target u src probe m v0 v)
            (\<lambda>res fs. relies_on u (mf_artifacts m) v0 v fs0 fs \<and> outcome_ok u v0 res fs)
            (relies_on u (mf_artifacts m) v0 v fs0)"
          by (intro apply_target_runs [OF parse _ _ cur0 P_def])
        then have "runs P (apply_target u src probe m v0 v) ?Q ?E"
          by (rule runs_conseq) (simp_all add: live)
        then have "runs (\<lambda>fs. decide ?V m v0 (up_cohort u) = Inr d \<and> P fs)
            (apply_target u src probe m v0 v) ?Q ?E"
          by (rule runs_conseq) simp_all
        then show ?thesis
          by (simp add: Install)
      qed (simp add: Install runs_def)
    next
      case UpToDate
      then show ?thesis
        by (auto intro!: runs_return simp: PE outcome_ok_def P_def same_on_def cur0)
    next
      case (NotInCohort cs)
      then show ?thesis
        by (auto intro!: runs_return simp: PE outcome_ok_def P_def same_on_def cur0)
    qed
    have "runs P (io_lift (decide ?V m v0 (up_cohort u)))
        (\<lambda>d fs. decide ?V m v0 (up_cohort u) = Inr d \<and> P fs) ?E"
      by (rule runs_lift) (simp_all add: PE)
    from runs_bind [OF this branch] show ?thesis
      by (simp add: True Let_def)
  qed (simp add: runs_def)
  have ver: "runs P (installed_version ?V ?y) (\<lambda>iv fs. iv = Some v0 \<and> P fs) ?E"
    by (rule installed_version_runs) (simp_all add: P_def same_on_def cur0 parse)
  have after_verify: "runs (\<lambda>fs. ?verify env = Inr m \<and> P fs)
      (io_bind (installed_version ?V ?y) (\<lambda>iv.
       let installed = (case iv of None \<Rightarrow> sv_zero ?V | Some v \<Rightarrow> v) in
       io_bind (io_lift (decide ?V m installed (up_cohort u))) (\<lambda>d.
         case d of UpToDate \<Rightarrow> io_return (OutUpToDate installed)
         | NotInCohort cs \<Rightarrow> io_return (OutNotInCohort cs)
         | Install target \<Rightarrow> apply_target u src probe m installed target))) ?Q ?E"
    if "src_manifest src = Inr env" for env m
  proof (cases "?verify env = Inr m")
    case True
    show ?thesis
      using runs_bind [OF ver tail [OF that True]] by (simp add: True)
  qed (simp add: runs_def)
  have after_fetch: "runs (\<lambda>fs. src_manifest src = Inr env \<and> P fs)
      (io_bind (io_lift (?verify env)) (\<lambda>m. io_bind (installed_version ?V ?y) (\<lambda>iv.
       let installed = (case iv of None \<Rightarrow> sv_zero ?V | Some v \<Rightarrow> v) in
       io_bind (io_lift (decide ?V m installed (up_cohort u))) (\<lambda>d.
         case d of UpToDate \<Rightarrow> io_return (OutUpToDate installed)
         | NotInCohort cs \<Rightarrow> io_return (OutNotInCohort cs)
         | Install target \<Rightarrow> apply_target u src probe m installed target)))) ?Q ?E" for env
  proof (cases "src_manifest src = Inr env")
    case True
    have "runs P (io_lift (?verify env)) (\<lambda>m fs. ?verify env = Inr m \<and> P fs) ?E"
      by (rule runs_lift) (simp_all add: PE)
    from runs_bind [OF this after_verify [OF True]] show ?thesis
      by (simp add: True)
  qed (simp add: runs_def)
  have fetch: "runs P (io_lift (src_manifest src)) (\<lambda>env fs. src_manifest src = Inr env \<and> P fs) ?E"
    by (rule runs_lift) (simp_all add: PE)
  have "runs P (update u src probe) ?Q ?E"
    unfolding update_def by (rule runs_bind [OF ens runs_bind [OF fetch after_fetch]])
  then show ?thesis
    by (rule runs_conseq) (simp_all add: P_def same_on_def)
qed

text \<open>
  C4: An update can be cut short anywhere: whichever step fails or loses power, half-written files
  included, the running release stays byte for byte what it was, and the current link points at it
  still or at the complete new release, which a verified manifest offered, the version decision
  accepted, and whose artifacts are all in place with the digests the manifest names.  An update
  that finishes points current at the version it reports: the new one, the one rolled back to, or
  the one it left alone.
\<close>

theorem update_is_crash_safe:
  fixes u :: "('v::linorder) updater"
  assumes "version_text_parses (up_semver u)" and "manifests_safe u src"
    and "w_fs w (current_link (up_layout u)) = Some (Link (release_dir (up_semver u) (up_layout u) v0))"
    and "update u src probe w = (r, w')"
  shows "same_on (below (release_dir (up_semver u) (up_layout u) v0)) (w_fs w) (w_fs w')
    \<and> (w_fs w' (current_link (up_layout u)) = w_fs w (current_link (up_layout u))
       \<or> new_release_live u src v0 (w_fs w'))
    \<and> (case r of Done res \<Rightarrow> outcome_ok u v0 res (w_fs w') | _ \<Rightarrow> True)"
  using update_runs [OF assms(1), of "w_fs w" v0 src probe, OF assms(3,2)] assms(4)
  by (auto simp: runs_def split: finish.splits)

section \<open>A box, an update and an escaping name\<close>

definition demo_updater :: "manifest \<Rightarrow> nat updater" where
  "demo_updater m = \<lparr>up_layout = layout_new [''opt''], up_key = TrustedKey ''k'', up_cohort = ''all'',
     up_sign = strict_lib, up_semver = demo_semver, up_from_slice = (\<lambda>_. Inr m), up_pid = ''7''\<rparr>"

definition demo_artifact :: "string \<Rightarrow> string \<Rightarrow> artifact" where
  "demo_artifact n content = \<lparr>ar_name = n, ar_sha256 = content, ar_size = of_nat (length content),
     ar_path = n, ar_delta_from = None\<rparr>"

text \<open>A source that has every artifact but the one called missing; the digest is the identity.\<close>

definition demo_source :: artifact_source where
  "demo_source = \<lparr>src_manifest = Inr \<lparr>env_alg = ALG_ED25519, env_payload_b64 = ''true'',
       env_signature_b64 = replicate 64 CHR ''s'', env_key_id = []\<rparr>,
     src_artifact = (\<lambda>a. if ar_name a = ''missing'' then Inl (UpFetch ''missing'' ''404'')
       else Inr (ar_sha256 a))\<rparr>"

definition demo_fs :: fs where
  "demo_fs q =
     (if q = [] \<or> q = [''opt''] \<or> q = [''opt'', ''releases''] \<or> q = [''opt'', ''releases'', ''2''] then Some Dir
      else if q = [''opt'', ''releases'', ''2'', ''app''] then Some (File ''good'')
      else if q = [''opt'', ''current''] then Some (Link [''opt'', ''releases'', ''2''])
      else None)"

definition demo_world :: "nat \<Rightarrow> world" where
  "demo_world budget = \<lparr>w_fs = demo_fs, w_budget = budget, w_fault = (\<lambda>_. False), w_keep = (\<lambda>_. False),
     w_torn = ''torn'', w_io = ''io error''\<rparr>"

definition demo_bytes :: string where
  "demo_bytes = replicate 64 CHR ''a''"

lemma demo_show_2: "show_nat 2 = ''2''"
  by code_simp

lemma demo_parses: "version_text_parses demo_semver"
  by (simp add: version_text_parses_def demo_semver_def)

lemma demo_verified:
  "manifest_verify strict_lib demo_semver (\<lambda>_. Inr m) env key = Inr m' \<Longrightarrow> m' = m"
  by (auto simp: manifest_verify_def trusted_verify_def outcome split: if_splits sum.splits)

lemma demo_safe:
  "manifests_safe (demo_updater (demo_manifest ''3'' False [demo_artifact ''app'' demo_bytes])) demo_source"
proof -
  let ?m = "demo_manifest ''3'' False [demo_artifact ''app'' demo_bytes]"
  have "safe_names (mf_artifacts ?m)"
    by (simp add: safe_names_def demo_manifest_def demo_artifact_def safe_name_def)
  then show ?thesis
    unfolding manifests_safe_def using demo_verified by (fastforce simp: demo_updater_def)
qed

lemma update_is_crash_safe_witness:
  "same_on (below [''opt'', ''releases'', ''2'']) demo_fs
     (w_fs (snd (update (demo_updater (demo_manifest ''3'' False [demo_artifact ''app'' demo_bytes]))
       demo_source (\<lambda>_. healthy_report) (demo_world 9))))"
proof -
  let ?u = "demo_updater (demo_manifest ''3'' False [demo_artifact ''app'' demo_bytes])"
  have "w_fs (demo_world 9) (current_link (up_layout ?u))
      = Some (Link (release_dir (up_semver ?u) (up_layout ?u) 2))"
    by (simp add: demo_world_def demo_fs_def demo_updater_def layout_new_def layout_defs
        demo_semver_def demo_show_2)
  moreover have "version_text_parses (up_semver ?u)"
    using demo_parses by (simp add: demo_updater_def)
  ultimately have "same_on (below (release_dir (up_semver ?u) (up_layout ?u) 2)) (w_fs (demo_world 9))
      (w_fs (snd (update ?u demo_source (\<lambda>_. healthy_report) (demo_world 9))))"
    using update_is_crash_safe [OF _ demo_safe] by (metis prod.collapse)
  then show ?thesis
    by (simp add: demo_world_def demo_updater_def layout_new_def layout_defs
        demo_semver_def demo_show_2)
qed

lemma demo_update_installs:
  "fst (update (demo_updater (demo_manifest ''3'' False [demo_artifact ''app'' demo_bytes]))
     demo_source (\<lambda>_. healthy_report) (demo_world 30)) = Done (Installed 3 (Some 2))"
  by code_simp

text \<open>
  Names are not confined: a verified manifest whose artifact is called with parent components
  makes the updater write over the release that is running, and the damage stays when the update
  then fails, although the paths the bytes are read from are confined to the bundle.
\<close>

theorem escaping_name_overwrites_running_release:
  "(case update (demo_updater (demo_manifest ''3'' False
        [demo_artifact ''../../releases/2/app'' demo_bytes, demo_artifact ''missing'' demo_bytes]))
      demo_source (\<lambda>_. healthy_report) (demo_world 30) of
     (r, w') \<Rightarrow> r = Failed (UpFetch ''missing'' ''404'')
       \<and> demo_fs [''opt'', ''releases'', ''2'', ''app''] = Some (File ''good'')
       \<and> w_fs w' [''opt'', ''releases'', ''2'', ''app''] = Some (File demo_bytes)
       \<and> w_fs w' [''opt'', ''current''] = Some (Link [''opt'', ''releases'', ''2'']))"
  by code_simp

end
