(* ===== verification/Billing.thy ===== *)
theory Billing
  imports License BTree
begin

text \<open>
  The billing control plane, \<open>crates/trace-billing\<close>: the price catalogue, what a Stripe
  subscription is reduced to, the entitlement issued for it, and the verification of webhooks.
  The keyed hash, the reading of events and the conversions of \<open>chrono\<close> are packages:
  the fields of \<open>billing_lib\<close>.  The client that fetches
  subscriptions is the theory \<open>StripeApi\<close>.
\<close>

section \<open>Errors and packages\<close>

datatype billing_error =
    WebhookSignature string
  | WebhookReplay i64 i64
  | BillParse string
  | UnknownPrice string
  | Api nat string
  | Transport string
  | Signing sign_error

record stripe_event =
  ev_id :: string
  event_type :: string
  ev_created :: i64
  ev_object :: json

text \<open>
  \<open>bl_hmac\<close> is HMAC-SHA256 of a key and a message; \<open>bl_event\<close> reads an event from JSON
  text; \<open>bl_timestamp\<close> gives the whole seconds of an instant; \<open>bl_day_before\<close> subtracts one
  day and panics out of range; \<open>bl_instant\<close> is the instant of a number of seconds, if there is one.
\<close>

record billing_lib =
  bl_hmac :: "string \<Rightarrow> string \<Rightarrow> string"
  bl_event :: "string \<Rightarrow> string + stripe_event"
  bl_timestamp :: "utc \<Rightarrow> i64"
  bl_day_before :: "utc \<Rightarrow> utc option"
  bl_instant :: "i64 \<Rightarrow> utc option"

section \<open>The catalogue\<close>

record plan_definition =
  stripe_price_id :: string
  display_name :: string
  pl_tier :: tier
  pl_limits :: license_limits
  pl_features :: "feature list"
  pl_grace_days :: u32

datatype plan_catalog = PlanCatalog "(string, plan_definition) btree"

definition catalog_new :: "plan_definition list \<Rightarrow> plan_catalog" where
  "catalog_new ps = PlanCatalog (bt_collect (map (\<lambda>p. (stripe_price_id p, p)) ps))"

fun plan_for_price :: "plan_catalog \<Rightarrow> string \<Rightarrow> billing_error + plan_definition" where
  "plan_for_price (PlanCatalog m) price_id =
     (case bt_get m price_id of None \<Rightarrow> Inl (UnknownPrice price_id) | Some p \<Rightarrow> Inr p)"

fun catalog_all :: "plan_catalog \<Rightarrow> plan_definition list" where
  "catalog_all (PlanCatalog m) = map snd m"

fun catalog_is_empty :: "plan_catalog \<Rightarrow> bool" where
  "catalog_is_empty (PlanCatalog m) \<longleftrightarrow> m = []"

definition example_plans :: "plan_definition list" where
  "example_plans =
     [\<lparr>stripe_price_id = ''price_starter_monthly'', display_name = ''Starter'', pl_tier = Starter,
       pl_limits = \<lparr>max_stations = 3, max_plants = 1, max_users = 10\<rparr>, pl_features = [],
       pl_grace_days = 30\<rparr>,
      \<lparr>stripe_price_id = ''price_professional_monthly'', display_name = ''Professional'',
       pl_tier = Professional,
       pl_limits = \<lparr>max_stations = 15, max_plants = 1, max_users = 100\<rparr>,
       pl_features = [DeviceDrivers, RemoteDiagnostics], pl_grace_days = 30\<rparr>,
      \<lparr>stripe_price_id = ''price_enterprise_monthly'', display_name = ''Enterprise'',
       pl_tier = Enterprise,
       pl_limits = \<lparr>max_stations = 200, max_plants = 25, max_users = 1000\<rparr>,
       pl_features = [DeviceDrivers, RemoteDiagnostics, CloudSync, MultiPlant, ApiAccess, LaserMarking],
       pl_grace_days = 45\<rparr>]"

definition example_catalog :: plan_catalog where
  "example_catalog = catalog_new example_plans"

section \<open>Subscriptions\<close>

datatype subscription_status =
    Active | Trialing | PastDue | Unpaid | Canceled | Incomplete | Paused

definition is_entitled :: "subscription_status \<Rightarrow> bool" where
  "is_entitled s \<longleftrightarrow> s = Active \<or> s = Trialing \<or> s = PastDue"

record subscription_state =
  subscription_id :: string
  customer_id :: string
  price_id :: string
  sub_status :: subscription_status
  current_period_end :: utc
  cancel_at_period_end :: bool

record raw_subscription =
  raw_id :: string
  raw_customer :: string
  raw_status :: string
  raw_period_end :: i64
  raw_cancel_at_period_end :: bool
  raw_prices :: "string list"

definition parse_status :: "string \<Rightarrow> subscription_status" where
  "parse_status s =
     (if s = ''active'' then Active
      else if s = ''trialing'' then Trialing
      else if s = ''past_due'' then PastDue
      else if s = ''unpaid'' then Unpaid
      else if s = ''canceled'' then Canceled
      else if s = ''paused'' then Paused
      else Incomplete)"

text \<open>A time of the period end that does not exist becomes the current instant, \<open>now\<close>.\<close>

definition to_utc :: "billing_lib \<Rightarrow> utc \<Rightarrow> i64 \<Rightarrow> utc" where
  "to_utc B now unix = (case bl_instant B unix of Some t \<Rightarrow> t | None \<Rightarrow> now)"

definition into_state ::
  "billing_lib \<Rightarrow> utc \<Rightarrow> raw_subscription \<Rightarrow> billing_error + subscription_state" where
  "into_state B now raw =
     (case raw_prices raw of
        [] \<Rightarrow> Inl (Api 200 (''subscription '' @ raw_id raw @ '' has no line items''))
      | price # _ \<Rightarrow> Inr \<lparr>subscription_id = raw_id raw, customer_id = raw_customer raw,
          price_id = price, sub_status = parse_status (raw_status raw),
          current_period_end = to_utc B now (raw_period_end raw),
          cancel_at_period_end = raw_cancel_at_period_end raw\<rparr>)"

section \<open>Issuing\<close>

record issue_request =
  rq_subscription :: subscription_state
  rq_tenant_code :: string
  rq_customer_name :: string
  rq_node_id :: "string option"
  rq_license_id :: string

record entitlement_issuer =
  ei_issuer :: issuer
  ei_catalog :: plan_catalog

definition issuer_public_key_hex :: "sign_lib \<Rightarrow> entitlement_issuer \<Rightarrow> string" where
  "issuer_public_key_hex L ei = public_key_hex L (ei_issuer ei)"

definition expiry_for :: "subscription_state \<Rightarrow> utc \<Rightarrow> utc" where
  "expiry_for sub now =
     (if is_entitled (sub_status sub) then current_period_end sub else min (current_period_end sub) now)"

definition entitlement_for :: "plan_definition \<Rightarrow> issue_request \<Rightarrow> utc \<Rightarrow> utc \<Rightarrow> entitlement" where
  "entitlement_for plan req start now =
     \<lparr>en_schema = SCHEMA_VERSION, en_license_id = rq_license_id req,
      en_tenant_code = rq_tenant_code req, en_node_id = rq_node_id req,
      en_tier = pl_tier plan, en_limits = pl_limits plan,
      en_features = set (pl_features plan), en_issued_at = now,
      en_not_before = start, en_expires_at = expiry_for (rq_subscription req) now,
      en_grace_days = pl_grace_days plan, en_customer_name = rq_customer_name req\<rparr>"

text \<open>The result is \<open>None\<close> where subtracting a day panics.\<close>

definition issue ::
  "sign_lib \<Rightarrow> billing_lib \<Rightarrow> (entitlement \<Rightarrow> string + json) \<Rightarrow> entitlement_issuer
     \<Rightarrow> issue_request \<Rightarrow> utc \<Rightarrow> (billing_error + envelope) option" where
  "issue L B to_value ei req now =
     (case plan_for_price (ei_catalog ei) (price_id (rq_subscription req)) of
        Inl e \<Rightarrow> Some (Inl e)
      | Inr plan \<Rightarrow>
         (case bl_day_before B now of
            None \<Rightarrow> None
          | Some start \<Rightarrow>
              Some (case sign L to_value (ei_issuer ei) (entitlement_for plan req start now) of
                  Inl e \<Rightarrow> Inl (Signing e)
                | Inr env \<Rightarrow> Inr env)))"

section \<open>Webhooks\<close>

text \<open>Release builds do not check \<open>i64\<close> arithmetic: it wraps, as words do.\<close>

record webhook_verifier =
  wv_secret :: string
  wv_tolerance :: i64

definition DEFAULT_WEBHOOK_TOLERANCE :: i64 where
  "DEFAULT_WEBHOOK_TOLERANCE = 300"

definition webhook_new :: "string \<Rightarrow> webhook_verifier" where
  "webhook_new secret = \<lparr>wv_secret = secret, wv_tolerance = DEFAULT_WEBHOOK_TOLERANCE\<rparr>"

definition with_tolerance_secs :: "webhook_verifier \<Rightarrow> i64 \<Rightarrow> webhook_verifier" where
  "with_tolerance_secs w secs = w\<lparr>wv_tolerance := secs\<rparr>"

text \<open>The hand-written \<open>Debug\<close>: the secret never reaches a log line.\<close>

definition webhook_debug :: "webhook_verifier \<Rightarrow> string" where
  "webhook_debug w = ''WebhookVerifier { secret: '' @ debug_string ''<redacted>'' @ '', tolerance_secs: ''
     @ show_int (sint (wv_tolerance w)) @ '' }''"

record signature_header =
  sh_timestamp :: i64
  sh_v1 :: "string list"

text \<open>The loop over the parts of the header: the timestamp so far and the signatures so far.\<close>

fun header_parts :: "string list \<Rightarrow> i64 option \<times> string list \<Rightarrow> i64 option \<times> string list" where
  "header_parts [] acc = acc"
| "header_parts (p # ps) (ts, v1) =
     (case split_once CHR ''='' (trim p) of
        None \<Rightarrow> header_parts ps (ts, v1)
      | Some (k, v) \<Rightarrow>
          if k = ''t'' then header_parts ps (parse_i64 v, v1)
          else if k = ''v1'' then header_parts ps (ts, v1 @ [v])
          else header_parts ps (ts, v1))"

definition header_parse :: "string \<Rightarrow> billing_error + signature_header" where
  "header_parse raw =
     (case header_parts (split_on CHR '','' raw) (None, []) of
        (None, v1) \<Rightarrow> Inl (WebhookSignature ''header has no valid t= timestamp'')
      | (Some ts, v1) \<Rightarrow>
          if v1 = [] then Inl (WebhookSignature ''header carries no v1 signature'')
          else Inr \<lparr>sh_timestamp = ts, sh_v1 = v1\<rparr>)"

definition webhook_compute ::
  "sign_lib \<Rightarrow> billing_lib \<Rightarrow> webhook_verifier \<Rightarrow> i64 \<Rightarrow> string \<Rightarrow> string" where
  "webhook_compute L B w timestamp body =
     hex_encode L (bl_hmac B (wv_secret w) (show_int (sint timestamp) @ ''.'' @ body))"

definition sign_for_test ::
  "sign_lib \<Rightarrow> billing_lib \<Rightarrow> webhook_verifier \<Rightarrow> string \<Rightarrow> i64 \<Rightarrow> string" where
  "sign_for_test L B w body timestamp =
     ''t='' @ show_int (sint timestamp) @ '',v1='' @ webhook_compute L B w timestamp body"

definition wrapping_abs :: "i64 \<Rightarrow> i64" where
  "wrapping_abs a = (if sint a < 0 then - a else a)"

definition webhook_verify ::
  "sign_lib \<Rightarrow> billing_lib \<Rightarrow> webhook_verifier \<Rightarrow> string \<Rightarrow> string \<Rightarrow> utc
     \<Rightarrow> billing_error + stripe_event" where
  "webhook_verify L B w body signature_header now =
     and_then (header_parse signature_header) (\<lambda>header.
       let age = bl_timestamp B now - sh_timestamp header in
       if sint (wrapping_abs age) > sint (wv_tolerance w) then Inl (WebhookReplay age (wv_tolerance w))
       else let expected = webhook_compute L B w (sh_timestamp header) body in
         if \<not> list_ex (\<lambda>candidate. candidate = expected) (sh_v1 header)
         then Inl (WebhookSignature ''no v1 signature matched the computed digest'')
         else case bl_event B body of Inl e \<Rightarrow> Inl (BillParse e) | Inr ev \<Rightarrow> Inr ev)"

definition affects_entitlement :: "stripe_event \<Rightarrow> bool" where
  "affects_entitlement ev \<longleftrightarrow> event_type ev \<in> set
     [''customer.subscription.created'', ''customer.subscription.updated'',
      ''customer.subscription.deleted'', ''customer.subscription.paused'',
      ''customer.subscription.resumed'', ''invoice.paid'', ''invoice.payment_failed'',
      ''checkout.session.completed'']"

definition event_subscription_id :: "stripe_event \<Rightarrow> string option" where
  "event_subscription_id ev =
     (case str_field (ev_object ev) ''subscription'' of
        Some s \<Rightarrow> Some s
      | None \<Rightarrow>
          if str_field (ev_object ev) ''object'' = Some ''subscription''
          then str_field (ev_object ev) ''id'' else None)"

section \<open>Which webhooks are accepted\<close>

text \<open>The fields of a header, as its sender meant them.\<close>

definition header_fields :: "string \<Rightarrow> (string \<times> string) list" where
  "header_fields raw = List.map_filter (\<lambda>p. split_once CHR ''='' (trim p)) (split_on CHR '','' raw)"

definition field_values :: "string \<Rightarrow> string \<Rightarrow> string list" where
  "field_values k raw = map snd (filter (\<lambda>kv. fst kv = k) (header_fields raw))"

lemma header_parts_eq:
  "header_parts ps (ts, v1) =
    (let kvs = List.map_filter (\<lambda>p. split_once CHR ''='' (trim p)) ps;
         tv = map snd (filter (\<lambda>kv. fst kv = ''t'') kvs)
     in (if tv = [] then ts else parse_i64 (last tv),
         v1 @ map snd (filter (\<lambda>kv. fst kv = ''v1'') kvs)))"
proof (induction ps arbitrary: ts v1)
  case (Cons p ps)
  then show ?case
    by (cases "split_once CHR ''='' (trim p)") (auto simp: Let_def map_filter_simps)
qed (simp add: map_filter_simps)

lemma header_parse_Inr:
  "header_parse raw = Inr h \<longleftrightarrow>
     field_values ''t'' raw \<noteq> [] \<and> parse_i64 (last (field_values ''t'' raw)) = Some (sh_timestamp h)
     \<and> sh_v1 h = field_values ''v1'' raw \<and> field_values ''v1'' raw \<noteq> []"
  unfolding header_parse_def header_parts_eq field_values_def header_fields_def Let_def
  by (cases h) (auto split: option.splits)

text \<open>The freshness check, over the integers: the difference of two instants of this age.\<close>

lemma wrapped_age:
  fixes now ts :: i64
  assumes "0 \<le> sint now" and "sint now < 2 ^ 62" and "0 \<le> tol" and "tol < 2 ^ 62"
  shows "sint (wrapping_abs (now - ts)) \<le> tol \<longleftrightarrow>
    \<bar>sint now - sint ts\<bar> \<le> tol \<or> sint now - sint ts = 2 ^ 63"
proof -
  define d where "d = sint now - sint ts"
  have r: "- (2 ^ 63) \<le> sint ts" "sint ts < 2 ^ 63"
    using sint_ge [of ts] sint_lt [of ts] by simp_all
  then have d: "- (2 ^ 63) < d" "d < 2 ^ 63 + 2 ^ 62"
    using assms by (simp_all add: d_def)
  have s: "sint (now - ts) = signed_take_bit 63 d" "sint (- (now - ts)) = signed_take_bit 63 (- d)"
    by (simp_all add: d_def sint_word_ariths signed_take_bit_diff signed_take_bit_minus
        flip: signed_take_bit_minus)
  have wrap: "signed_take_bit 63 k = (k + 2 ^ 63) mod 2 ^ 64 - 2 ^ 63" for k :: int
    by (simp add: signed_take_bit_eq_take_bit_shift take_bit_eq_mod)
  have same: "sint (now - ts) = d" "sint (- (now - ts)) = - d" if "d < 2 ^ 63"
    using that d by (simp_all add: s wrap del: minus_diff_eq)
  have over: "sint (now - ts) = d - 2 ^ 64" if "2 ^ 63 \<le> d"
  proof -
    have "(d + 2 ^ 63) mod 2 ^ 64 = (d + 2 ^ 63 - 2 ^ 64) mod 2 ^ 64"
      by (rule minus_mod_self2 [symmetric])
    also have "\<dots> = d + 2 ^ 63 - 2 ^ 64"
      using that d by (intro mod_pos_pos_trivial) simp_all
    finally show ?thesis
      by (simp add: s wrap)
  qed
  have over_neg: "sint (- (now - ts)) = (if d = 2 ^ 63 then - (2 ^ 63) else 2 ^ 64 - d)"
    if "2 ^ 63 \<le> d"
  proof -
    have "(- d + 2 ^ 63) mod 2 ^ 64 = (if d = 2 ^ 63 then 0 else - d + 2 ^ 63 + 2 ^ 64)"
    proof (cases "d = 2 ^ 63")
      case False
      have "(- d + 2 ^ 63) mod 2 ^ 64 = (- d + 2 ^ 63 + 2 ^ 64) mod 2 ^ 64"
        by (rule mod_add_self2 [symmetric])
      also have "\<dots> = - d + 2 ^ 63 + 2 ^ 64"
        using that d False by (intro mod_pos_pos_trivial) simp_all
      finally show ?thesis
        using False by simp
    qed simp
    then show ?thesis
      by (simp add: s wrap del: minus_diff_eq)
  qed
  show ?thesis
  proof (cases "d < 2 ^ 63")
    case True
    then show ?thesis
      using d assms(3) same by (auto simp: wrapping_abs_def d_def [symmetric] simp del: minus_diff_eq)
  next
    case False
    then show ?thesis
      using d assms(3,4) over over_neg by (auto simp: wrapping_abs_def d_def [symmetric] simp del: minus_diff_eq)
  qed
qed

text \<open>
  C23: Which webhooks are acted on, for a header of any shape: the last timestamp field is a number
  within five minutes of the clock, some signature field is the keyed hash of that timestamp and
  the exact body, and the body reads as an event; nothing else is accepted.  The one exception to
  freshness is a timestamp 2 to the 63 seconds in the past, where the age wraps around.
\<close>

theorem webhook_accepted_iff:
  assumes "0 \<le> sint (bl_timestamp B now)" and "sint (bl_timestamp B now) < 2 ^ 62"
  shows "webhook_verify L B (webhook_new secret) body raw now = Inr ev \<longleftrightarrow>
    (\<exists>ts. field_values ''t'' raw \<noteq> [] \<and> parse_i64 (last (field_values ''t'' raw)) = Some ts
      \<and> (\<bar>sint (bl_timestamp B now) - sint ts\<bar> \<le> 300
          \<or> sint (bl_timestamp B now) - sint ts = 2 ^ 63)
      \<and> hex_encode L (bl_hmac B secret (show_int (sint ts) @ ''.'' @ body)) \<in> set (field_values ''v1'' raw)
      \<and> bl_event B body = Inr ev)" (is "?lhs \<longleftrightarrow> ?rhs")
proof -
  have fresh: "\<not> sint (wrapping_abs (bl_timestamp B now - ts)) > 300 \<longleftrightarrow>
      \<bar>sint (bl_timestamp B now) - sint ts\<bar> \<le> 300 \<or> sint (bl_timestamp B now) - sint ts = 2 ^ 63" for ts
    using wrapped_age [OF assms, of 300 ts] by (simp add: not_less)
  have ex: "list_ex (\<lambda>c. c = e) vs \<longleftrightarrow> e \<in> set vs" for e :: string and vs
    by (auto simp: list_ex_iff)
  have header: "webhook_verify L B (webhook_new secret) body raw now = Inr ev \<longleftrightarrow>
      (\<exists>h. header_parse raw = Inr h
        \<and> \<not> sint (wrapping_abs (bl_timestamp B now - sh_timestamp h)) > 300
        \<and> webhook_compute L B (webhook_new secret) (sh_timestamp h) body \<in> set (sh_v1 h)
        \<and> bl_event B body = Inr ev)"
    by (auto simp: webhook_verify_def outcome Let_def ex webhook_new_def DEFAULT_WEBHOOK_TOLERANCE_def
        split: if_splits sum.splits)
  show ?thesis
  proof
    assume ?lhs
    then show ?rhs
      unfolding header header_parse_Inr fresh
      by (auto simp: webhook_compute_def webhook_new_def)
  next
    assume ?rhs
    then obtain ts where ts: "field_values ''t'' raw \<noteq> []"
        "parse_i64 (last (field_values ''t'' raw)) = Some ts"
        "\<bar>sint (bl_timestamp B now) - sint ts\<bar> \<le> 300 \<or> sint (bl_timestamp B now) - sint ts = 2 ^ 63"
        "hex_encode L (bl_hmac B secret (show_int (sint ts) @ ''.'' @ body)) \<in> set (field_values ''v1'' raw)"
        "bl_event B body = Inr ev"
      by blast
    then have "field_values ''v1'' raw \<noteq> []"
      by force
    then show ?lhs
      unfolding header header_parse_Inr fresh using ts
      by (intro exI [of _ "\<lparr>sh_timestamp = ts, sh_v1 = field_values ''v1'' raw\<rparr>"])
        (simp add: webhook_compute_def webhook_new_def)
  qed
qed

definition demo_billing :: billing_lib where
  "demo_billing = \<lparr>bl_hmac = (\<lambda>k m. k @ ''-'' @ m),
     bl_event = (\<lambda>s. if s = [] then Inl ''eof'' else
        Inr \<lparr>ev_id = ''e1'', event_type = s, ev_created = 0, ev_object = JNull\<rparr>),
     bl_timestamp = (\<lambda>t. word_of_int (t div nanos_per_sec)),
     bl_day_before = (\<lambda>t. Some (t - nanos_per_day)),
     bl_instant = (\<lambda>s. Some (sint s * nanos_per_sec))\<rparr>"

lemma webhook_accepted_iff_witness:
  "webhook_verify demo_lib demo_billing (webhook_new ''s'') ''invoice.paid'' ''t=5, v1=s-5.invoice.paid'' 0
    = Inr \<lparr>ev_id = ''e1'', event_type = ''invoice.paid'', ev_created = 0, ev_object = JNull\<rparr>"
proof -
  have "field_values ''t'' ''t=5, v1=s-5.invoice.paid'' = [''5'']"
    "field_values ''v1'' ''t=5, v1=s-5.invoice.paid'' = [''s-5.invoice.paid'']"
    "parse_i64 ''5'' = Some 5"
    by code_simp+
  moreover have "show_int (sint (5 :: i64)) = ''5''"
    by code_simp
  moreover have "sint (bl_timestamp demo_billing 0) = 0"
    by (simp add: demo_billing_def)
  ultimately show ?thesis
    using webhook_accepted_iff [of demo_billing 0 demo_lib "''s''" "''invoice.paid''"
        "''t=5, v1=s-5.invoice.paid''"
        "\<lparr>ev_id = ''e1'', event_type = ''invoice.paid'', ev_created = 0, ev_object = JNull\<rparr>"]
    by (simp add: demo_billing_def demo_lib_def)
qed

text \<open>A signed header reads back, because a hex digest holds no separator and no space.\<close>

definition hex_laws :: "sign_lib \<Rightarrow> bool" where
  "hex_laws L \<longleftrightarrow> (\<forall>s. list_all (\<lambda>c. is_digit_char c \<or> c \<in> set ''abcdef'') (hex_encode L s))"

lemma plain_char:
  "is_digit_char c \<or> c \<in> set ''abcdef'' \<Longrightarrow> c \<noteq> CHR '','' \<and> c \<noteq> CHR ''='' \<and> \<not> is_space c"
  by (auto simp: is_digit_char_def is_space_def)

lemma plain_text:
  "list_all (\<lambda>c. is_digit_char c \<or> c \<in> set ''abcdef'') s \<Longrightarrow>
     CHR '','' \<notin> set s \<and> CHR ''='' \<notin> set s \<and> (\<forall>c \<in> set s. \<not> is_space c)"
  using plain_char by (fastforce simp: list_all_iff)

lemma show_int_plain: "CHR '','' \<notin> set (show_int i) \<and> (\<forall>c \<in> set (show_int i). \<not> is_space c)"
proof -
  have "c \<noteq> CHR '','' \<and> \<not> is_space c" if "c \<in> set (show_nat n)" for c n
    using plain_char [of c] show_nat_digits [OF that] by blast
  then show ?thesis
    by (auto simp: show_int_def is_space_def)
qed

lemma trim_no_space:
  assumes "\<forall>c \<in> set s. \<not> is_space c"
  shows "trim s = s"
proof -
  have "dropWhile is_space u = u" if "\<forall>c \<in> set u. \<not> is_space c" for u
    using that by (cases u) auto
  from this [of s] this [of "rev s"] show ?thesis
    using assms by (simp add: trim_def)
qed

lemma signed_header_parts:
  assumes "hex_laws L"
  shows "header_parse (sign_for_test L B w body ts)
    = Inr \<lparr>sh_timestamp = ts, sh_v1 = [webhook_compute L B w ts body]\<rparr>"
proof -
  let ?d = "webhook_compute L B w ts body"
  have d: "CHR '','' \<notin> set ?d" "CHR ''='' \<notin> set ?d" "\<forall>c \<in> set ?d. \<not> is_space c"
    using plain_text [of ?d] assms by (simp_all add: hex_laws_def webhook_compute_def)
  let ?t = "''t='' @ show_int (sint ts)"
  have parts: "split_on CHR '','' (sign_for_test L B w body ts) = [?t, ''v1='' @ ?d]"
    using split_on_append [of "CHR '',''" ?t "''v1='' @ ?d"] split_on_none [of "CHR '',''" "''v1='' @ ?d"]
      show_int_plain [of "sint ts"] d(1) by (simp add: sign_for_test_def)
  have "trim ?t = ?t" "trim (''v1='' @ ?d) = ''v1='' @ ?d"
    using show_int_plain [of "sint ts"] d(3) by (intro trim_no_space; auto simp: is_space_def)+
  then show ?thesis
    by (simp add: header_parse_def parts)
qed

text \<open>
  Signing and verifying a webhook fit together: a header made for a body and a time is accepted
  for that body exactly while the verifier's clock is within its tolerance of that time, and
  otherwise refused as a replay that names the age; an accepted body is read as its event.
\<close>

theorem webhook_round_trip:
  assumes "hex_laws L" and "wv_secret v = wv_secret w"
    and "0 \<le> sint (bl_timestamp B now)" and "sint (bl_timestamp B now) < 2 ^ 62"
    and "0 \<le> sint ts" and "0 \<le> sint (wv_tolerance v)" and "sint (wv_tolerance v) < 2 ^ 62"
  shows "webhook_verify L B v body (sign_for_test L B w body ts) now =
    (if \<bar>sint (bl_timestamp B now) - sint ts\<bar> \<le> sint (wv_tolerance v)
     then case bl_event B body of Inl e \<Rightarrow> Inl (BillParse e) | Inr ev \<Rightarrow> Inr ev
     else Inl (WebhookReplay (bl_timestamp B now - ts) (wv_tolerance v)))"
proof -
  have "webhook_compute L B v ts body = webhook_compute L B w ts body"
    using assms(2) by (simp add: webhook_compute_def)
  moreover have "sint (bl_timestamp B now) - sint ts \<noteq> 2 ^ 63"
    using assms(4,5) by simp
  then have "sint (wrapping_abs (bl_timestamp B now - ts)) > sint (wv_tolerance v)
      \<longleftrightarrow> \<not> \<bar>sint (bl_timestamp B now) - sint ts\<bar> \<le> sint (wv_tolerance v)"
    using wrapped_age [OF assms(3,4,6,7), of ts] by (metis linorder_not_le)
  ultimately show ?thesis
    by (simp add: webhook_verify_def signed_header_parts [OF assms(1)] Let_def)
qed

definition hex_lib :: sign_lib where
  "hex_lib = demo_lib\<lparr>hex_encode := (\<lambda>s. concat (map (\<lambda>c. show_nat (of_char c)) s))\<rparr>"

lemma hex_lib_laws: "hex_laws hex_lib"
  by (auto simp: hex_laws_def hex_lib_def list_all_iff dest: show_nat_digits)

lemma webhook_round_trip_witness:
  "webhook_verify hex_lib demo_billing (webhook_new ''s'') ''paid''
      (sign_for_test hex_lib demo_billing (webhook_new ''s'') ''paid'' 5) (400 * nanos_per_sec)
    = Inl (WebhookReplay 395 300)"
  using webhook_round_trip [OF hex_lib_laws, of "webhook_new ''s''" "webhook_new ''s''" demo_billing
      "400 * nanos_per_sec" 5 "''paid''"]
  by (simp add: demo_billing_def webhook_new_def DEFAULT_WEBHOOK_TOLERANCE_def nanos_per_sec_def)

section \<open>From a subscription to what an edge box allows\<close>

text \<open>What \<open>chrono\<close> documents: subtracting a day is exact, where it does not panic.\<close>

definition day_laws :: "billing_lib \<Rightarrow> bool" where
  "day_laws B \<longleftrightarrow> (\<forall>t s. bl_day_before B t = Some s \<longrightarrow> s = t - nanos_per_day)"

lemma issue_Inr:
  "issue L B to_value ei req now = Some (Inr env) \<longleftrightarrow>
     (\<exists>plan start. plan_for_price (ei_catalog ei) (price_id (rq_subscription req)) = Inr plan
       \<and> bl_day_before B now = Some start
       \<and> sign L to_value (ei_issuer ei) (entitlement_for plan req start now) = Inr env)"
  by (auto simp: issue_def split: sum.splits option.splits)

text \<open>The answer of a box, checking a licence whose document is known.\<close>

lemma license_verify_read:
  assumes "trusted_verify L from_slice key env = Inr en" and "en_schema en = SCHEMA_VERSION"
    and "calendar_laws last_instant cal"
  shows "case license_verify L from_slice cal env key node now of
      None \<Rightarrow> last_instant < en_expires_at en + uint (en_grace_days en) * nanos_per_day
    | Some (Inl e) \<Rightarrow> \<exists>locked. en_node_id en = Some locked \<and> locked \<noteq> node \<and> e = WrongNode locked node
    | Some (Inr st) \<Rightarrow> en_node_id en \<in> {None, Some node} \<and> ls_entitlement st = Some en
        \<and> ls_enforcement st = level_at en now"
  using assms(1,2) license_evaluate_cases [OF assms(3), of en now]
  by (auto simp: license_verify_def split: option.splits)

lemma level_of_issued:
  assumes "day_laws B" and "bl_day_before B now = Some start" and "now \<le> later"
  shows "level_at (entitlement_for plan req start now) later =
    (let expires = expiry_for (rq_subscription req) now in
      if later \<le> expires then Full
      else if later \<le> expires + uint (pl_grace_days plan) * nanos_per_day then Grace else Restricted)"
proof -
  have "start = now - nanos_per_day"
    using assms(1,2) by (simp add: day_laws_def)
  then have "start \<le> later"
    using assms(3) by (simp add: nanos_per_day_def nanos_per_sec_def)
  then show ?thesis
    by (simp add: level_at_def entitlement_for_def Let_def)
qed

text \<open>
  C15: What a plant gets for its subscription, from the billing system to the edge box: a licence
  issued for a subscription and checked later by a box with the issuer's key is refused only by a
  box it is not locked to, stops the check only if its grace period is not representable, and
  otherwise gives the limits and features of the plan of the subscription's price; it is in force
  until the end of the period that was paid for, or, without an entitled status, not after the
  instant of issue, and in grace for the plan's days after that.
\<close>

theorem issued_licence_enforcement:
  assumes "sign_laws L" and "serde_laws L to_value from_slice" and "calendar_laws last_instant cal"
    and "day_laws B" and "issue L B to_value ei req now = Some (Inr env)" and "now \<le> later"
  shows "\<exists>plan. plan_for_price (ei_catalog ei) (price_id (rq_subscription req)) = Inr plan
    \<and> (let sub = rq_subscription req;
           expires = (if sub_status sub \<in> {Active, Trialing, PastDue} then current_period_end sub
              else min (current_period_end sub) now);
           grace_end = expires + uint (pl_grace_days plan) * nanos_per_day
       in case license_verify L from_slice cal env (verifier L (ei_issuer ei)) node later of
            None \<Rightarrow> last_instant < grace_end
          | Some (Inl e) \<Rightarrow> (\<exists>locked. rq_node_id req = Some locked \<and> locked \<noteq> node
              \<and> e = WrongNode locked node)
          | Some (Inr st) \<Rightarrow> rq_node_id req \<in> {None, Some node}
              \<and> ls_enforcement st = (if later \<le> expires then Full
                  else if later \<le> grace_end then Grace else Restricted)
              \<and> status_max_stations st = Some (max_stations (pl_limits plan))
              \<and> (\<forall>f. has_feature st f \<longleftrightarrow> later \<le> grace_end \<and> f \<in> set (pl_features plan)))"
proof -
  obtain plan start where plan: "plan_for_price (ei_catalog ei) (price_id (rq_subscription req)) = Inr plan"
      and start: "bl_day_before B now = Some start"
      and sig: "sign L to_value (ei_issuer ei) (entitlement_for plan req start now) = Inr env"
    using assms(5) unfolding issue_Inr by blast
  let ?en = "entitlement_for plan req start now"
  have read: "trusted_verify L from_slice (verifier L (ei_issuer ei)) env = Inr ?en"
    using signed_verifies [OF assms(1,2) sig] by simp
  have expires: "expiry_for (rq_subscription req) now =
      (if sub_status (rq_subscription req) \<in> {Active, Trialing, PastDue}
       then current_period_end (rq_subscription req) else min (current_period_end (rq_subscription req)) now)"
    by (simp add: expiry_for_def is_entitled_def)
  have fields_en: "en_schema ?en = SCHEMA_VERSION" "en_node_id ?en = rq_node_id req"
      "en_expires_at ?en = expiry_for (rq_subscription req) now"
      "en_grace_days ?en = pl_grace_days plan" "en_limits ?en = pl_limits plan"
      "en_features ?en = set (pl_features plan)"
    by (simp_all add: entitlement_for_def)
  show ?thesis
    unfolding Let_def expires [symmetric]
    using plan license_verify_read [OF read fields_en(1) assms(3), of node later]
      level_of_issued [OF assms(4) start assms(6), of plan req] grace_end_after [of ?en]
    by (intro exI [of _ plan] conjI)
      (auto simp: fields_en has_feature_def status_max_stations_def Let_def
        split: option.splits sum.splits if_splits)
qed

text \<open>A cancelled subscription, its licence, and a box that checks it ten days later.\<close>

definition demo_request :: issue_request where
  "demo_request = \<lparr>rq_subscription = \<lparr>subscription_id = ''sub_1'', customer_id = ''cus_1'',
       price_id = ''price_professional_monthly'', sub_status = Canceled,
       current_period_end = 90 * nanos_per_day, cancel_at_period_end = False\<rparr>,
     rq_tenant_code = ''T1'', rq_customer_name = ''Acme'', rq_node_id = Some ''box'',
     rq_license_id = ''L1''\<rparr>"

definition demo_issuer :: entitlement_issuer where
  "demo_issuer = \<lparr>ei_issuer = Issuer (replicate 32 CHR ''k''), ei_catalog = example_catalog\<rparr>"

definition demo_issued :: entitlement where
  "demo_issued = entitlement_for (example_plans ! 1) demo_request (19 * nanos_per_day) (20 * nanos_per_day)"

definition issued_to_value :: "entitlement \<Rightarrow> string + json" where
  "issued_to_value d = (if d = demo_issued then Inr (JString ''L1'') else Inl ''unknown'')"

definition issued_from_slice :: "string \<Rightarrow> string + entitlement" where
  "issued_from_slice s = Inr demo_issued"

lemma issued_serde: "serde_laws demo_lib issued_to_value issued_from_slice"
  by (simp add: demo_compact serde_laws_def issued_to_value_def issued_from_slice_def)

lemma demo_plan: "plan_for_price example_catalog ''price_professional_monthly'' = Inr (example_plans ! 1)"
  by (simp add: example_catalog_def catalog_new_def bt_get_collect example_plans_def)

lemma demo_day_laws: "day_laws demo_billing"
  by (simp add: day_laws_def demo_billing_def)

lemma demo_issue: "\<exists>env. issue demo_lib demo_billing issued_to_value demo_issuer demo_request (20 * nanos_per_day)
    = Some (Inr env)"
proof -
  have "bl_day_before demo_billing (20 * nanos_per_day) = Some (19 * nanos_per_day)"
    by (simp add: demo_billing_def nanos_per_day_def nanos_per_sec_def)
  moreover have "plan_for_price (ei_catalog demo_issuer) (price_id (rq_subscription demo_request))
      = Inr (example_plans ! 1)"
    using demo_plan by (simp add: demo_issuer_def demo_request_def)
  ultimately show ?thesis
    unfolding issue_Inr
    by (auto simp: demo_issuer_def canonical_json_def issued_to_value_def demo_issued_def)
qed

lemma issued_licence_enforcement_witness:
  "\<exists>env. issue demo_lib demo_billing issued_to_value demo_issuer demo_request (20 * nanos_per_day) = Some (Inr env)
    \<and> (case license_verify demo_lib issued_from_slice demo_calendar env
          (verifier demo_lib (ei_issuer demo_issuer)) ''box'' (30 * nanos_per_day) of
        Some (Inr st) \<Rightarrow> ls_enforcement st = Grace | _ \<Rightarrow> False)"
proof -
  from demo_issue obtain env where env: "issue demo_lib demo_billing issued_to_value demo_issuer
      demo_request (20 * nanos_per_day) = Some (Inr env)" ..
  have "20 * nanos_per_day \<le> 30 * nanos_per_day"
    by (simp add: nanos_per_day_def nanos_per_sec_def)
  from issued_licence_enforcement [OF demo_laws(1) issued_serde demo_calendar_laws demo_day_laws env this,
      of "''box''"]
  have "case license_verify demo_lib issued_from_slice demo_calendar env
          (verifier demo_lib (ei_issuer demo_issuer)) ''box'' (30 * nanos_per_day) of
        Some (Inr st) \<Rightarrow> ls_enforcement st = Grace | _ \<Rightarrow> False"
    using demo_plan
    by (auto simp: Let_def demo_request_def demo_issuer_def example_plans_def nanos_per_day_def
        nanos_per_sec_def split: option.splits sum.splits)
  then show ?thesis
    using env by blast
qed

text \<open>
  A status the billing system does not know grants nothing: a subscription reported by Stripe
  becomes one that is issued in full exactly for the three statuses that mean paid, trial or still
  being retried; otherwise its licence never runs past the instant of issue.  A subscription
  without a price is refused.
\<close>

theorem unknown_status_not_entitled:
  "case into_state B t raw of
      Inl e \<Rightarrow> raw_prices raw = [] \<and> (\<exists>m. e = Api 200 m)
    | Inr sub \<Rightarrow> raw_prices raw \<noteq> [] \<and> price_id sub = hd (raw_prices raw)
        \<and> (if raw_status raw \<in> {''active'', ''trialing'', ''past_due''}
           then expiry_for sub now = to_utc B t (raw_period_end raw)
           else expiry_for sub now \<le> now)"
  by (auto simp: into_state_def parse_status_def expiry_for_def is_entitled_def split: list.splits)

end
