(* ===== verification/Device.thy ===== *)
theory Device
  imports Sign Dcp
begin

text \<open>
  The device abstraction, \<open>crates/trace-devices/src/driver.rs\<close>, and the reconnect backoff,
  \<open>retry.rs\<close>.  The trait \<open>DeviceDriver\<close> is the record \<open>driver_ops\<close>; what its callers
  rely on is the locale \<open>device_driver\<close>, interpreted on every driver of the program.
\<close>

section \<open>Errors and health\<close>

datatype device_error =
    NotConnected string string
  | Timeout string string u64
  | Unparseable string string
  | UnknownPoint string string
  | Unsupported string string string
  | BadConfig string string

fun device_error_display :: "device_error \<Rightarrow> string" where
  "device_error_display (NotConnected dev detail) =
     ''device '' @ dev @ '': not connected ('' @ detail @ '')''"
| "device_error_display (Timeout dev point ms) =
     ''device '' @ dev @ '': timed out after '' @ show_word ms @ ''ms waiting for '' @ point"
| "device_error_display (Unparseable dev raw) =
     ''device '' @ dev @ '': cannot parse response '' @ debug_string raw"
| "device_error_display (UnknownPoint dev point) = ''device '' @ dev @ '': unknown point '' @ point"
| "device_error_display (Unsupported dev knd operation) =
     ''device '' @ dev @ '': '' @ operation @ '' is not supported by the '' @ knd @ '' driver''"
| "device_error_display (BadConfig dev detail) =
     ''device '' @ dev @ '': bad configuration: '' @ detail"

fun is_transient :: "device_error \<Rightarrow> bool" where
  "is_transient (NotConnected _ _) = True"
| "is_transient (Timeout _ _ _) = True"
| "is_transient _ = False"

text \<open>A \<open>PointRef\<close> is its name.\<close>

datatype point_ref = PointRef string

fun point_name :: "point_ref \<Rightarrow> string" where
  "point_name (PointRef n) = n"

record raw_sample =
  rs_point :: point_ref
  rs_value :: val
  rs_raw :: string
  rs_recorded_at :: utc

record device_health =
  dh_connected :: bool
  dh_failures :: u32
  dh_last_success :: "utc option"
  dh_last_error :: "string option"

definition default_health :: device_health where
  "default_health = \<lparr>dh_connected = False, dh_failures = 0, dh_last_success = None, dh_last_error = None\<rparr>"

definition record_success :: "utc \<Rightarrow> device_health \<Rightarrow> device_health" where
  "record_success t h =
     h\<lparr>dh_connected := True, dh_failures := 0, dh_last_success := Some t, dh_last_error := None\<rparr>"

definition record_failure :: "device_error \<Rightarrow> device_health \<Rightarrow> device_health" where
  "record_failure err h =
     h\<lparr>dh_connected := False, dh_failures := sat_inc (dh_failures h),
       dh_last_error := Some (device_error_display err)\<rparr>"

record device_config =
  dc_code :: string
  dc_kind :: string
  dc_settings :: json
  dc_timeout_ms :: u64

definition default_timeout_ms :: u64 where
  "default_timeout_ms = 5000"

definition require_str :: "device_config \<Rightarrow> string \<Rightarrow> device_error + string" where
  "require_str cfg key =
     (case str_field (dc_settings cfg) key of
        None \<Rightarrow> Inl (BadConfig (dc_code cfg) (''missing string setting '' @ debug_string key))
      | Some s \<Rightarrow> Inr s)"

section \<open>The driver interface\<close>

text \<open>
  What the outside does during one call of a driver: the clock; the values the operator entered
  since the last look; whether a connection to an address succeeds; whether bytes can be sent; the
  line that is read, empty at the end of the stream.
\<close>

datatype dial_outcome = Dialled | DialTimeout | DialFailed string
datatype line_outcome = LineRead string | LineTimeout | LineFailed string

record surroundings =
  sur_now :: utc
  sur_entered :: "(string \<times> val) list"
  sur_dial :: "string \<Rightarrow> dial_outcome"
  sur_send :: "string \<Rightarrow> string option"
  sur_line :: line_outcome

record 'd driver_ops =
  op_connect :: "surroundings \<Rightarrow> device_config \<Rightarrow> 'd \<Rightarrow> (device_error + unit) \<times> 'd"
  op_read :: "surroundings \<Rightarrow> point_ref \<Rightarrow> 'd \<Rightarrow> (device_error + raw_sample) \<times> 'd"
  op_write :: "surroundings \<Rightarrow> point_ref \<Rightarrow> val \<Rightarrow> 'd \<Rightarrow> (device_error + unit) \<times> 'd"
  op_health :: "'d \<Rightarrow> device_health"
  op_kind :: "'d \<Rightarrow> string"

text \<open>
  What every driver promises: a reading is of the point that was asked for and is recorded in the
  health; a failed reading is recorded or leaves the health alone; connecting records success or
  nothing; writing leaves the health alone.
\<close>

locale device_driver =
  fixes D :: "'d driver_ops"
  assumes read_ok: "op_read D e p d = (Inr s, d') \<Longrightarrow>
      rs_point s = p \<and> rs_recorded_at s = sur_now e
      \<and> op_health D d' = record_success (sur_now e) (op_health D d)"
    and read_err: "op_read D e p d = (Inl err, d') \<Longrightarrow>
      op_health D d' \<in> {op_health D d, record_failure err (op_health D d)}"
    and connect_ok: "op_connect D e c d = (Inr u, d') \<Longrightarrow>
      op_health D d' = record_success (sur_now e) (op_health D d)"
    and connect_err: "op_connect D e c d = (Inl err, d') \<Longrightarrow> op_health D d' = op_health D d"
    and write_health: "op_health D (snd (op_write D e p v d)) = op_health D d"
    and kind_fixed: "op_kind D (snd (op_connect D e c d)) = op_kind D d"
      "op_kind D (snd (op_read D e p d)) = op_kind D d"
      "op_kind D (snd (op_write D e p v d)) = op_kind D d"
begin

lemma failures_step:
  "unat (dh_failures (op_health D (snd (op_read D e p d)))) \<le> Suc (unat (dh_failures (op_health D d)))"
proof (cases "op_read D e p d")
  case (Pair r d')
  then show ?thesis
    using read_ok [of e p d _ d'] read_err [of e p d _ d']
    by (cases r) (fastforce simp: record_success_def record_failure_def unat_sat_inc split: if_splits)+
qed

end

section \<open>Backoff\<close>

text \<open>
  A \<open>Duration\<close> is a number of nanoseconds up to \<open>DURATION_MAX\<close>, where multiplication saturates.
\<close>

definition DURATION_MAX :: nat where
  "DURATION_MAX = (2 ^ 64 - 1) * 1000000000 + 999999999"

definition saturating_mul :: "nat \<Rightarrow> u32 \<Rightarrow> nat" where
  "saturating_mul d k = min (d * unat k) DURATION_MAX"

record backoff =
  bo_initial :: nat
  bo_max :: nat
  bo_factor :: u32
  bo_attempt :: u32

definition backoff_new :: "nat \<Rightarrow> nat \<Rightarrow> u32 \<Rightarrow> backoff" where
  "backoff_new initial mx factor =
     \<lparr>bo_initial = initial, bo_max = mx, bo_factor = max factor 1, bo_attempt = 0\<rparr>"

definition default_backoff :: backoff where
  "default_backoff = backoff_new 250000000 30000000000 2"

text \<open>The loop of \<open>ceiling\<close>, from delay \<open>d\<close>: it stops early at the maximum.\<close>

fun ceiling_loop :: "nat \<Rightarrow> u32 \<Rightarrow> nat \<Rightarrow> nat \<Rightarrow> nat" where
  "ceiling_loop mx factor 0 d = min d mx"
| "ceiling_loop mx factor (Suc n) d =
     (let d' = saturating_mul d factor in if d' \<ge> mx then mx else ceiling_loop mx factor n d')"

definition backoff_ceiling :: "backoff \<Rightarrow> nat" where
  "backoff_ceiling b = ceiling_loop (bo_max b) (bo_factor b) (unat (bo_attempt b)) (bo_initial b)"

text \<open>The seed is the clock's nanoseconds; the arithmetic is on 128 bits, the result on 64.\<close>

definition jitter :: "128 word \<Rightarrow> nat \<Rightarrow> nat" where
  "jitter seed ceil =
     (let nanos = max ceil 1;
          mixed = word_rotl 17 (seed * 6364136223846793005)
      in unat (of_nat (unat mixed mod nanos) :: 64 word))"

definition next_delay :: "128 word \<Rightarrow> backoff \<Rightarrow> nat \<times> backoff" where
  "next_delay seed b =
     (jitter seed (backoff_ceiling b), b\<lparr>bo_attempt := sat_inc (bo_attempt b)\<rparr>)"

definition backoff_reset :: "backoff \<Rightarrow> backoff" where
  "backoff_reset b = b\<lparr>bo_attempt := 0\<rparr>"

text \<open>The early stop and the saturation do not show: the ceiling is the capped power.\<close>

lemma ceiling_loop_power:
  assumes "mx \<le> DURATION_MAX" and "1 \<le> unat factor"
  shows "ceiling_loop mx factor n d = min mx (d * unat factor ^ n)"
proof (induction n arbitrary: d)
  case (Suc n)
  let ?F = "unat factor"
  show ?case
  proof (cases "mx \<le> d * ?F")
    case True
    have "1 \<le> ?F ^ n"
      using assms(2) by simp
    then have "d * ?F * 1 \<le> d * ?F * ?F ^ n"
      by (intro mult_left_mono) auto
    then have "mx \<le> d * ?F * ?F ^ n"
      using True by linarith
    then have "mx \<le> d * ?F ^ Suc n"
      by (simp add: mult.assoc)
    then show ?thesis
      using True assms(1) by (simp add: saturating_mul_def Let_def)
  next
    case False
    then have "saturating_mul d factor = d * ?F"
      using assms(1) by (simp add: saturating_mul_def)
    then show ?thesis
      using False Suc.IH by (simp add: Let_def ac_simps)
  qed
qed (simp add: min.commute)

lemma jitter_le: "jitter seed ceil \<le> ceil"
proof -
  let ?k = "unat (word_rotl 17 (seed * 6364136223846793005)) mod max ceil 1"
  have "unat (of_nat ?k :: 64 word) \<le> ?k"
    by (simp add: unsigned_of_nat take_bit_nat_less_eq_self)
  moreover have "?k < max ceil 1"
    by (rule mod_less_divisor) simp
  then have "?k \<le> ceil"
    by linarith
  ultimately show ?thesis
    by (simp add: jitter_def Let_def)
qed

text \<open>The delays of a run of failures, one seed per attempt.\<close>

fun delays :: "128 word list \<Rightarrow> backoff \<Rightarrow> nat list" where
  "delays [] b = []"
| "delays (s # ss) b = (let (d, b') = next_delay s b in d # delays ss b')"

lemma delays_bounded:
  assumes "bo_max b \<le> DURATION_MAX" and "1 \<le> unat (bo_factor b)"
    and "unat (bo_attempt b) + length seeds < 2 ^ 32" and "i < length seeds"
  shows "delays seeds b ! i \<le> min (bo_max b) (bo_initial b * unat (bo_factor b) ^ (unat (bo_attempt b) + i))"
  using assms
proof (induction seeds arbitrary: b i)
  case (Cons s ss)
  show ?case
  proof (cases i)
    case 0
    then show ?thesis
      using jitter_le [of s "backoff_ceiling b"] ceiling_loop_power [OF Cons.prems(1,2)]
      by (simp add: next_delay_def backoff_ceiling_def)
  next
    case (Suc j)
    have "unat (bo_attempt b) \<noteq> unat (- 1 :: u32)"
      using Cons.prems(3) by (simp add: unsigned_minus_1_eq_mask mask_eq_exp_minus_1)
    then have "bo_attempt b \<noteq> - 1"
      by auto
    then have "unat (sat_inc (bo_attempt b)) = Suc (unat (bo_attempt b))"
      by (simp add: unat_sat_inc)
    then show ?thesis
      using Cons.IH [of "b\<lparr>bo_attempt := sat_inc (bo_attempt b)\<rparr>" j] Cons.prems Suc
      by (simp add: next_delay_def)
  qed
qed simp

text \<open>
  C39: Reconnecting backs off exponentially and is capped: of any number of successive retries, the
  one after \<open>i\<close> failures waits at most the initial delay times the factor to the \<open>i\<close> and at most
  the maximum, whatever the jitter; a factor of zero counts as one; and a success starts the
  sequence over.
\<close>

theorem backoff_bounded:
  assumes "mx \<le> DURATION_MAX" and "length seeds < 2 ^ 32" and "i < length seeds"
  shows "delays seeds (backoff_new initial mx factor) ! i
      \<le> min mx (initial * unat (max factor 1) ^ i)
    \<and> backoff_reset (snd (next_delay seed (backoff_new initial mx factor))) = backoff_new initial mx factor"
proof -
  have "1 \<le> max factor 1"
    by simp
  then have "1 \<le> unat (max factor 1)"
    by (metis unat_1 word_le_nat_alt)
  then show ?thesis
    using delays_bounded [of "backoff_new initial mx factor" seeds i] assms
    by (simp add: backoff_new_def next_delay_def backoff_reset_def)
qed

lemma backoff_bounded_witness: "delays [1, 2, 3] default_backoff ! 2 \<le> 1000000000"
  using backoff_bounded [of 30000000000 "[1, 2, 3]" 2 250000000 2 0]
  by (simp add: DURATION_MAX_def default_backoff_def)

end
