(* ===== verification/Drivers.thy ===== *)
theory Drivers
  imports Device
begin

text \<open>
  The three drivers of the program: operator entry (\<open>manual.rs\<close>), the scripted simulator
  (\<open>simulator.rs\<close>) and the line protocol over TCP (\<open>tcp.rs\<close>), all under
  \<open>crates/trace-devices/src/\<close>.  A \<open>HashMap\<close> is only looked up by key: it is a map.
\<close>

section \<open>Operator entry\<close>

record manual_driver =
  md_code :: string
  md_health :: device_health
  md_pending :: "string \<rightharpoonup> val"

definition manual_new :: "string \<Rightarrow> manual_driver" where
  "manual_new code = \<lparr>md_code = code, md_health = default_health, md_pending = (\<lambda>_. None)\<rparr>"

text \<open>What the channel delivers is inserted in order, so a later entry for a point wins.\<close>

definition manual_drain :: "(string \<times> val) list \<Rightarrow> manual_driver \<Rightarrow> manual_driver" where
  "manual_drain entered d = d\<lparr>md_pending := foldl (\<lambda>m (p, v). m(p \<mapsto> v)) (md_pending d) entered\<rparr>"

definition manual_connect ::
  "surroundings \<Rightarrow> device_config \<Rightarrow> manual_driver \<Rightarrow> (device_error + unit) \<times> manual_driver" where
  "manual_connect e cfg d = (Inr (), d\<lparr>md_health := record_success (sur_now e) (md_health d)\<rparr>)"

definition manual_read ::
  "externals \<Rightarrow> surroundings \<Rightarrow> point_ref \<Rightarrow> manual_driver \<Rightarrow> (device_error + raw_sample) \<times> manual_driver" where
  "manual_read x e point d0 =
     (let d = manual_drain (sur_entered e) d0 in
      case md_pending d (point_name point) of
        Some v \<Rightarrow>
          (Inr \<lparr>rs_point = point, rs_value = v, rs_raw = canonical x v, rs_recorded_at = sur_now e\<rparr>,
           d\<lparr>md_pending := (md_pending d)(point_name point := None),
             md_health := record_success (sur_now e) (md_health d)\<rparr>)
      | None \<Rightarrow> (Inl (Timeout (md_code d) (point_name point) 0), d))"

definition manual_write ::
  "surroundings \<Rightarrow> point_ref \<Rightarrow> val \<Rightarrow> manual_driver \<Rightarrow> (device_error + unit) \<times> manual_driver" where
  "manual_write e point v d = (Inl (Unsupported (md_code d) ''MANUAL'' ''write''), d)"

definition manual_ops :: "externals \<Rightarrow> manual_driver driver_ops" where
  "manual_ops x = \<lparr>op_connect = manual_connect, op_read = manual_read x, op_write = manual_write,
     op_health = md_health, op_kind = (\<lambda>_. ''MANUAL'')\<rparr>"

section \<open>The simulator\<close>

datatype scripted = SValue val | SRaw val string | SDisconnect | STimeout | SGarbage string

record simulated_driver =
  sd_code :: string
  sd_script :: "string \<rightharpoonup> scripted list"
  sd_defaults :: "string \<rightharpoonup> val"
  sd_health :: device_health
  sd_writes :: "(string \<times> val) list"
  sd_connected :: bool

definition simulated_new :: "string \<Rightarrow> simulated_driver" where
  "simulated_new code = \<lparr>sd_code = code, sd_script = (\<lambda>_. None), sd_defaults = (\<lambda>_. None),
     sd_health = default_health, sd_writes = [], sd_connected = False\<rparr>"

definition with_default :: "string \<Rightarrow> val \<Rightarrow> simulated_driver \<Rightarrow> simulated_driver" where
  "with_default point v d = d\<lparr>sd_defaults := (sd_defaults d)(point \<mapsto> v)\<rparr>"

definition with_script :: "string \<Rightarrow> scripted \<Rightarrow> simulated_driver \<Rightarrow> simulated_driver" where
  "with_script point st d =
     d\<lparr>sd_script := (sd_script d)(point \<mapsto>
         (case sd_script d point of None \<Rightarrow> [] | Some q \<Rightarrow> q) @ [st])\<rparr>"

definition simulated_connect ::
  "surroundings \<Rightarrow> device_config \<Rightarrow> simulated_driver \<Rightarrow> (device_error + unit) \<times> simulated_driver" where
  "simulated_connect e cfg d =
     (Inr (), d\<lparr>sd_code := dc_code cfg, sd_connected := True,
        sd_health := record_success (sur_now e) (sd_health d)\<rparr>)"

text \<open>The next step of a point's script, and the script without it.\<close>

definition pop_script :: "string \<Rightarrow> simulated_driver \<Rightarrow> scripted option \<times> simulated_driver" where
  "pop_script point d =
     (case sd_script d point of
        Some (st # q) \<Rightarrow> (Some st, d\<lparr>sd_script := (sd_script d)(point \<mapsto> q)\<rparr>)
      | _ \<Rightarrow> (None, d))"

definition simulated_result ::
  "externals \<Rightarrow> utc \<Rightarrow> point_ref \<Rightarrow> scripted option \<Rightarrow> simulated_driver
     \<Rightarrow> (device_error + raw_sample) \<times> simulated_driver" where
  "simulated_result x t point st d =
     (let sample = (\<lambda>v raw. Inr \<lparr>rs_point = point, rs_value = v, rs_raw = raw, rs_recorded_at = t\<rparr>) in
      case st of
        Some (SValue v) \<Rightarrow> (sample v (canonical x v), d)
      | Some (SRaw v raw) \<Rightarrow> (sample v raw, d)
      | Some SDisconnect \<Rightarrow>
          (Inl (NotConnected (sd_code d) ''simulated cable pull''), d\<lparr>sd_connected := False\<rparr>)
      | Some STimeout \<Rightarrow> (Inl (Timeout (sd_code d) (point_name point) 5000), d)
      | Some (SGarbage raw) \<Rightarrow> (Inl (Unparseable (sd_code d) raw), d)
      | None \<Rightarrow>
          (case sd_defaults d (point_name point) of
             Some v \<Rightarrow> (sample v (canonical x v), d)
           | None \<Rightarrow> (Inl (UnknownPoint (sd_code d) (point_name point)), d)))"

definition simulated_read ::
  "externals \<Rightarrow> surroundings \<Rightarrow> point_ref \<Rightarrow> simulated_driver
     \<Rightarrow> (device_error + raw_sample) \<times> simulated_driver" where
  "simulated_read x e point d =
     (if \<not> sd_connected d
      then let err = NotConnected (sd_code d) ''simulator not connected'' in
        (Inl err, d\<lparr>sd_health := record_failure err (sd_health d)\<rparr>)
      else let (st, d1) = pop_script (point_name point) d;
               (r, d2) = simulated_result x (sur_now e) point st d1
           in (r, d2\<lparr>sd_health := (case r of
                 Inr s \<Rightarrow> record_success (rs_recorded_at s) (sd_health d2)
               | Inl err \<Rightarrow> record_failure err (sd_health d2))\<rparr>))"

definition simulated_write ::
  "surroundings \<Rightarrow> point_ref \<Rightarrow> val \<Rightarrow> simulated_driver \<Rightarrow> (device_error + unit) \<times> simulated_driver" where
  "simulated_write e point v d =
     (if \<not> sd_connected d then (Inl (NotConnected (sd_code d) ''simulator not connected''), d)
      else (Inr (), d\<lparr>sd_writes := sd_writes d @ [(point_name point, v)]\<rparr>))"

definition simulated_ops :: "externals \<Rightarrow> simulated_driver driver_ops" where
  "simulated_ops x = \<lparr>op_connect = simulated_connect, op_read = simulated_read x,
     op_write = simulated_write, op_health = sd_health, op_kind = (\<lambda>_. ''SIMULATED'')\<rparr>"

section \<open>The line protocol\<close>

text \<open>
  Rust's \<open>parse::<f64>()\<close> on a token of digits, points and a leading sign: at most one point, at
  least one digit.  The value is the double nearest to the decimal number: \<open>nearest\<close>, given the sign
  and the magnitude, is a parameter.
\<close>

definition decimal_token :: "string \<Rightarrow> bool" where
  "decimal_token s \<longleftrightarrow>
     (let body = (if s \<noteq> [] \<and> (hd s = CHR ''-'' \<or> hd s = CHR ''+'') then tl s else s) in
      list_all (\<lambda>c. is_digit_char c \<or> c = CHR ''.'') body
      \<and> length (filter (\<lambda>c. c = CHR ''.'') body) \<le> 1 \<and> list_ex is_digit_char body)"

definition decimal_magnitude :: "string \<Rightarrow> rat" where
  "decimal_magnitude s =
     (let digits = filter is_digit_char s;
          places = length (filter is_digit_char (tl (dropWhile (\<lambda>c. c \<noteq> CHR ''.'') (s @ ''.''))))
      in of_nat (read_nat digits) / 10 ^ places)"

definition parse_f64 :: "(bool \<Rightarrow> rat \<Rightarrow> f64) \<Rightarrow> string \<Rightarrow> f64 option" where
  "parse_f64 nearest s =
     (if decimal_token s then Some (nearest (hd s = CHR ''-'') (decimal_magnitude s)) else None)"

definition flush_token ::
  "(bool \<Rightarrow> rat \<Rightarrow> f64) \<Rightarrow> string \<Rightarrow> f64 option \<Rightarrow> f64 option" where
  "flush_token nearest cur best =
     (if cur \<noteq> [] \<and> best = None then parse_f64 nearest cur else best)"

fun scan_line ::
  "(bool \<Rightarrow> rat \<Rightarrow> f64) \<Rightarrow> string \<Rightarrow> string \<Rightarrow> f64 option \<Rightarrow> f64 option" where
  "scan_line nearest [] cur best = flush_token nearest cur best"
| "scan_line nearest (ch # cs) cur best =
     (if is_digit_char ch \<or> ch = CHR ''.'' \<or> ((ch = CHR ''-'' \<or> ch = CHR ''+'') \<and> cur = [])
      then scan_line nearest cs (cur @ [ch]) best
      else scan_line nearest cs [] (flush_token nearest cur best))"

definition parse_line :: "(bool \<Rightarrow> rat \<Rightarrow> f64) \<Rightarrow> string \<Rightarrow> f64 option" where
  "parse_line nearest line = scan_line nearest line [] None"

record tcp_driver =
  td_code :: string
  td_addr :: string
  td_timeout_ms :: u64
  td_poll :: "string option"
  td_stream :: bool
  td_health :: device_health

definition tcp_new :: "string \<Rightarrow> tcp_driver" where
  "tcp_new code = \<lparr>td_code = code, td_addr = [], td_timeout_ms = 5000, td_poll = None,
     td_stream = False, td_health = default_health\<rparr>"

definition tcp_connect ::
  "surroundings \<Rightarrow> device_config \<Rightarrow> tcp_driver \<Rightarrow> (device_error + unit) \<times> tcp_driver" where
  "tcp_connect e cfg d0 =
     (case require_str cfg ''host'' of
        Inl err \<Rightarrow> (Inl err, d0)
      | Inr host \<Rightarrow>
          (case Option.bind (json_get (dc_settings cfg) ''port'') json_as_u64 of
             None \<Rightarrow> (Inl (BadConfig (dc_code cfg) (''missing numeric setting '' @ debug_string ''port'')), d0)
           | Some port \<Rightarrow>
               (let addr = host @ '':'' @ show_word port;
                    d = d0\<lparr>td_code := dc_code cfg, td_addr := addr, td_timeout_ms := dc_timeout_ms cfg,
                      td_poll := str_field (dc_settings cfg) ''poll_command''\<rparr>
                in case sur_dial e addr of
                     DialTimeout \<Rightarrow>
                       (Inl (NotConnected (dc_code cfg) (''connect to '' @ addr @ '' timed out'')), d)
                   | DialFailed err \<Rightarrow> (Inl (NotConnected (dc_code cfg) (addr @ '': '' @ err)), d)
                   | Dialled \<Rightarrow> (Inr (), d\<lparr>td_stream := True,
                       td_health := record_success (sur_now e) (td_health d)\<rparr>))))"

text \<open>The body of a read on an open stream.\<close>

definition tcp_exchange ::
  "(bool \<Rightarrow> rat \<Rightarrow> f64) \<Rightarrow> surroundings \<Rightarrow> point_ref \<Rightarrow> tcp_driver \<Rightarrow> device_error + raw_sample" where
  "tcp_exchange nearest e point d =
     (case Option.bind (td_poll d) (sur_send e) of
        Some err \<Rightarrow> Inl (NotConnected (td_code d) err)
      | None \<Rightarrow>
          (case sur_line e of
             LineTimeout \<Rightarrow> Inl (Timeout (td_code d) (point_name point) (td_timeout_ms d))
           | LineFailed err \<Rightarrow> Inl (NotConnected (td_code d) err)
           | LineRead line \<Rightarrow>
               if line = [] then Inl (NotConnected (td_code d) ''device closed the connection'')
               else case parse_line nearest (trim line) of
                 None \<Rightarrow> Inl (Unparseable (td_code d) line)
               | Some v \<Rightarrow> Inr \<lparr>rs_point = point, rs_value = V_Numeric v, rs_raw = line,
                   rs_recorded_at = sur_now e\<rparr>))"

definition tcp_read ::
  "(bool \<Rightarrow> rat \<Rightarrow> f64) \<Rightarrow> surroundings \<Rightarrow> point_ref \<Rightarrow> tcp_driver
     \<Rightarrow> (device_error + raw_sample) \<times> tcp_driver" where
  "tcp_read nearest e point d =
     (if \<not> td_stream d then (Inl (NotConnected (td_code d) ''connect() has not been called''), d)
      else case tcp_exchange nearest e point d of
        Inr s \<Rightarrow> (Inr s, d\<lparr>td_health := record_success (rs_recorded_at s) (td_health d)\<rparr>)
      | Inl err \<Rightarrow> (Inl err, d\<lparr>td_health := record_failure err (td_health d),
          td_stream := (case err of Unparseable _ _ \<Rightarrow> True | _ \<Rightarrow> False)\<rparr>))"

definition tcp_write ::
  "externals \<Rightarrow> surroundings \<Rightarrow> point_ref \<Rightarrow> val \<Rightarrow> tcp_driver \<Rightarrow> (device_error + unit) \<times> tcp_driver" where
  "tcp_write x e point v d =
     (if \<not> td_stream d then (Inl (NotConnected (td_code d) ''connect() has not been called''), d)
      else case sur_send e (point_name point @ ''='' @ canonical x v @ [CHR 0x0A]) of
        Some err \<Rightarrow> (Inl (NotConnected (td_code d) err), d)
      | None \<Rightarrow> (Inr (), d))"

definition tcp_ops :: "externals \<Rightarrow> (bool \<Rightarrow> rat \<Rightarrow> f64) \<Rightarrow> tcp_driver driver_ops" where
  "tcp_ops x nearest = \<lparr>op_connect = tcp_connect, op_read = tcp_read nearest, op_write = tcp_write x,
     op_health = td_health, op_kind = (\<lambda>_. ''TCP_LINE'')\<rparr>"

section \<open>Every driver provides the interface\<close>

interpretation manual: device_driver "manual_ops x" for x
  by unfold_locales
    (auto simp: manual_ops_def manual_connect_def manual_read_def manual_write_def manual_drain_def
      Let_def split: option.splits)

lemma pop_script_health [simp]:
  "sd_health (snd (pop_script p d)) = sd_health d" "sd_connected (snd (pop_script p d)) = sd_connected d"
  by (auto simp: pop_script_def split: option.splits list.splits)

lemma simulated_result_health [simp]: "sd_health (snd (simulated_result x t p st d)) = sd_health d"
  by (auto simp: simulated_result_def Let_def split: option.splits scripted.splits)

lemma simulated_result_ok:
  "fst (simulated_result x t p st d) = Inr s \<Longrightarrow> rs_point s = p \<and> rs_recorded_at s = t"
  by (auto simp: simulated_result_def Let_def split: option.splits scripted.splits)

lemma simulated_read_cases:
  assumes "simulated_read x e p d = (r, d')"
  shows "(case r of
      Inr s \<Rightarrow> rs_point s = p \<and> rs_recorded_at s = sur_now e
        \<and> sd_health d' = record_success (sur_now e) (sd_health d)
    | Inl err \<Rightarrow> sd_health d' = record_failure err (sd_health d))"
  using assms simulated_result_ok [of x "sur_now e" p]
  by (cases r) (auto simp: simulated_read_def Let_def case_prod_unfold split: if_splits sum.splits)

interpretation simulated: device_driver "simulated_ops x" for x
proof unfold_locales
  fix e p d s d'
  show "op_read (simulated_ops x) e p d = (Inr s, d') \<Longrightarrow> rs_point s = p \<and> rs_recorded_at s = sur_now e
      \<and> op_health (simulated_ops x) d' = record_success (sur_now e) (op_health (simulated_ops x) d)"
    using simulated_read_cases [of x e p d "Inr s" d'] by (simp add: simulated_ops_def)
next
  fix e p d err d'
  show "op_read (simulated_ops x) e p d = (Inl err, d') \<Longrightarrow>
      op_health (simulated_ops x) d'
        \<in> {op_health (simulated_ops x) d, record_failure err (op_health (simulated_ops x) d)}"
    using simulated_read_cases [of x e p d "Inl err" d'] by (simp add: simulated_ops_def)
qed (auto simp: simulated_ops_def simulated_connect_def simulated_write_def)

lemma tcp_exchange_ok:
  "tcp_exchange nearest e p d = Inr s \<Longrightarrow> rs_point s = p \<and> rs_recorded_at s = sur_now e"
  by (auto simp: tcp_exchange_def split: option.splits line_outcome.splits if_splits)

interpretation tcp: device_driver "tcp_ops x nearest" for x nearest
proof unfold_locales
  fix e p d s d'
  show "op_read (tcp_ops x nearest) e p d = (Inr s, d') \<Longrightarrow> rs_point s = p \<and> rs_recorded_at s = sur_now e
      \<and> op_health (tcp_ops x nearest) d' = record_success (sur_now e) (op_health (tcp_ops x nearest) d)"
    using tcp_exchange_ok [of nearest e p d s]
    by (auto simp: tcp_ops_def tcp_read_def split: if_splits sum.splits)
qed (auto simp: tcp_ops_def tcp_read_def tcp_connect_def tcp_write_def Let_def
    split: if_splits sum.splits option.splits dial_outcome.splits)

text \<open>A boxed driver of any of the three kinds.\<close>

datatype boxed_driver =
    ManualBox manual_driver | SimulatedBox simulated_driver | TcpBox tcp_driver

definition boxed_ops :: "externals \<Rightarrow> (bool \<Rightarrow> rat \<Rightarrow> f64) \<Rightarrow> boxed_driver driver_ops" where
  "boxed_ops x nearest = \<lparr>
     op_connect = (\<lambda>e c b. case b of
         ManualBox d \<Rightarrow> map_prod id ManualBox (op_connect (manual_ops x) e c d)
       | SimulatedBox d \<Rightarrow> map_prod id SimulatedBox (op_connect (simulated_ops x) e c d)
       | TcpBox d \<Rightarrow> map_prod id TcpBox (op_connect (tcp_ops x nearest) e c d)),
     op_read = (\<lambda>e p b. case b of
         ManualBox d \<Rightarrow> map_prod id ManualBox (op_read (manual_ops x) e p d)
       | SimulatedBox d \<Rightarrow> map_prod id SimulatedBox (op_read (simulated_ops x) e p d)
       | TcpBox d \<Rightarrow> map_prod id TcpBox (op_read (tcp_ops x nearest) e p d)),
     op_write = (\<lambda>e p v b. case b of
         ManualBox d \<Rightarrow> map_prod id ManualBox (op_write (manual_ops x) e p v d)
       | SimulatedBox d \<Rightarrow> map_prod id SimulatedBox (op_write (simulated_ops x) e p v d)
       | TcpBox d \<Rightarrow> map_prod id TcpBox (op_write (tcp_ops x nearest) e p v d)),
     op_health = (\<lambda>b. case b of
         ManualBox d \<Rightarrow> op_health (manual_ops x) d
       | SimulatedBox d \<Rightarrow> op_health (simulated_ops x) d
       | TcpBox d \<Rightarrow> op_health (tcp_ops x nearest) d),
     op_kind = (\<lambda>b. case b of
         ManualBox d \<Rightarrow> op_kind (manual_ops x) d
       | SimulatedBox d \<Rightarrow> op_kind (simulated_ops x) d
       | TcpBox d \<Rightarrow> op_kind (tcp_ops x nearest) d)\<rparr>"

lemma boxed_step: "map_prod id f q = (r, b) \<longleftrightarrow> (\<exists>d. q = (r, d) \<and> b = f d)"
  by (cases q) auto

interpretation boxed: device_driver "boxed_ops x nearest" for x nearest
proof unfold_locales
  fix e p b s b'
  show "op_read (boxed_ops x nearest) e p b = (Inr s, b') \<Longrightarrow> rs_point s = p \<and> rs_recorded_at s = sur_now e
      \<and> op_health (boxed_ops x nearest) b' = record_success (sur_now e) (op_health (boxed_ops x nearest) b)"
    by (cases b) (auto simp: boxed_ops_def boxed_step dest: manual.read_ok simulated.read_ok tcp.read_ok)
next
  fix e p b err b'
  show "op_read (boxed_ops x nearest) e p b = (Inl err, b') \<Longrightarrow>
      op_health (boxed_ops x nearest) b'
        \<in> {op_health (boxed_ops x nearest) b, record_failure err (op_health (boxed_ops x nearest) b)}"
    by (cases b) (fastforce simp: boxed_ops_def boxed_step
        dest: manual.read_err simulated.read_err tcp.read_err)+
next
  fix e c b u b'
  show "op_connect (boxed_ops x nearest) e c b = (Inr u, b') \<Longrightarrow>
      op_health (boxed_ops x nearest) b' = record_success (sur_now e) (op_health (boxed_ops x nearest) b)"
    by (cases b) (auto simp: boxed_ops_def boxed_step
        dest: manual.connect_ok simulated.connect_ok tcp.connect_ok)
next
  fix e c b err b'
  show "op_connect (boxed_ops x nearest) e c b = (Inl err, b') \<Longrightarrow>
      op_health (boxed_ops x nearest) b' = op_health (boxed_ops x nearest) b"
    by (cases b) (auto simp: boxed_ops_def boxed_step
        dest: manual.connect_err simulated.connect_err tcp.connect_err)
next
  fix e p v b
  show "op_health (boxed_ops x nearest) (snd (op_write (boxed_ops x nearest) e p v b))
      = op_health (boxed_ops x nearest) b"
    by (cases b) (simp_all add: boxed_ops_def manual.write_health simulated.write_health tcp.write_health)
next
  fix e c p v b
  show "op_kind (boxed_ops x nearest) (snd (op_connect (boxed_ops x nearest) e c b))
      = op_kind (boxed_ops x nearest) b"
    "op_kind (boxed_ops x nearest) (snd (op_read (boxed_ops x nearest) e p b))
      = op_kind (boxed_ops x nearest) b"
    "op_kind (boxed_ops x nearest) (snd (op_write (boxed_ops x nearest) e p v b))
      = op_kind (boxed_ops x nearest) b"
    by (cases b; simp add: boxed_ops_def manual.kind_fixed simulated.kind_fixed tcp.kind_fixed)+
qed

section \<open>What a line of text is read as\<close>

definition numeral_char :: "char \<Rightarrow> bool" where
  "numeral_char c \<longleftrightarrow> is_digit_char c \<or> c = CHR ''.''"

definition sign_char :: "char \<Rightarrow> bool" where
  "sign_char c \<longleftrightarrow> c = CHR ''-'' \<or> c = CHR ''+''"

lemma scan_skips:
  "\<forall>c \<in> set pre. \<not> numeral_char c \<and> \<not> sign_char c \<Longrightarrow>
     scan_line nearest (pre @ s) [] None = scan_line nearest s [] None"
  by (induction pre) (auto simp: numeral_char_def sign_char_def flush_token_def)

lemma scan_collects:
  "list_all numeral_char body \<Longrightarrow>
     scan_line nearest (body @ s) cur None = scan_line nearest s (cur @ body) None"
  by (induction body arbitrary: cur) (auto simp: numeral_char_def)

lemma scan_settled: "scan_line nearest s cur (Some v) = Some v"
  by (induction s arbitrary: cur) (auto simp: flush_token_def)

lemma scan_token_end:
  assumes "tok \<noteq> []" and "post = [] \<or> \<not> numeral_char (hd post)" and "decimal_token tok"
  shows "scan_line nearest post tok None = parse_f64 nearest tok"
  using assms by (cases post) (auto simp: flush_token_def numeral_char_def parse_f64_def scan_settled)

lemma decimal_token_shape:
  assumes "decimal_token tok"
  obtains sg body where "tok = sg @ body" and "list_all numeral_char body" and "body \<noteq> []"
    and "sg = [] \<or> (\<exists>c. sg = [c] \<and> sign_char c)"
proof (cases "tok \<noteq> [] \<and> sign_char (hd tok)")
  case True
  show thesis
    by (rule that [of "[hd tok]" "tl tok"])
      (use True assms in \<open>auto simp: decimal_token_def numeral_char_def sign_char_def Let_def list_all_iff\<close>)
next
  case False
  show thesis
    by (rule that [of "[]" tok])
      (use False assms in \<open>auto simp: decimal_token_def numeral_char_def sign_char_def Let_def list_all_iff\<close>)
qed

lemma scan_token:
  assumes "decimal_token tok"
  shows "scan_line nearest (tok @ s) [] None = scan_line nearest s tok None \<and> tok \<noteq> []"
proof -
  obtain sg body where tok: "tok = sg @ body" "list_all numeral_char body" "body \<noteq> []"
      and sg: "sg = [] \<or> (\<exists>c. sg = [c] \<and> sign_char c)"
    using decimal_token_shape [OF assms] .
  then show ?thesis
    using scan_collects [OF tok(2), of nearest s sg] by (auto simp: sign_char_def)
qed

text \<open>
  What a line from an instrument is read as: text without digits, points and signs, then a
  decimal number with an optional sign, then anything that does not continue it, is the number
  nearest to that decimal.
\<close>

theorem parse_line_first_number:
  assumes "\<forall>c \<in> set pre. \<not> numeral_char c \<and> \<not> sign_char c" and "decimal_token tok"
    and "post = [] \<or> \<not> numeral_char (hd post)"
  shows "parse_line nearest (pre @ tok @ post)
    = Some (nearest (hd tok = CHR ''-'') (decimal_magnitude tok))"
  using scan_skips [OF assms(1), of nearest "tok @ post"] scan_token [OF assms(2), of nearest post]
    scan_token_end [of tok post nearest] assms(2,3)
  by (simp add: parse_line_def parse_f64_def)

definition demo_nearest :: "bool \<Rightarrow> rat \<Rightarrow> f64" where
  "demo_nearest neg q = F_Fin (if neg then - q else q)"

lemma parse_line_first_number_witness:
  "parse_line demo_nearest ''T: -12.1 NM'' = Some (F_Fin (- (121 / 10)))"
proof -
  have "decimal_token ''-12.1''" "decimal_magnitude ''-12.1'' = 121 / 10"
    by code_simp+
  moreover have "\<forall>c \<in> set ''T: ''. \<not> numeral_char c \<and> \<not> sign_char c" "\<not> numeral_char (hd '' NM'')"
    by code_simp+
  ultimately show ?thesis
    using parse_line_first_number [of "''T: ''" "''-12.1''" "'' NM''" demo_nearest]
    by (simp add: demo_nearest_def)
qed

text \<open>
  A sign that is set apart from its number is lost: in the fixed-width form that the driver's
  own documentation gives for weighing scales, where blanks separate the sign from the digits, a
  negative reading is recorded with the value of the positive one.
\<close>

theorem separated_sign_is_lost:
  assumes "\<forall>c \<in> set pre. \<not> numeral_char c \<and> \<not> sign_char c" and "sign_char sg"
    and "gap \<noteq> []" and "\<forall>c \<in> set gap. \<not> numeral_char c \<and> \<not> sign_char c"
    and "decimal_token tok" and "numeral_char (hd tok)" and "post = [] \<or> \<not> numeral_char (hd post)"
  shows "parse_line nearest (pre @ [sg] @ gap @ tok @ post) = Some (nearest False (decimal_magnitude tok))"
proof -
  obtain g gs where gap: "gap = g # gs"
    using assms(3) by (cases gap) auto
  have "\<not> decimal_token [sg]"
    using assms(2) by (auto simp: decimal_token_def sign_char_def)
  then have "scan_line nearest ([sg] @ gap @ tok @ post) [] None = scan_line nearest (gs @ tok @ post) [] None"
    using assms(2,4) by (auto simp: gap numeral_char_def sign_char_def flush_token_def parse_f64_def)
  also have "\<dots> = scan_line nearest (tok @ post) [] None"
    using assms(4) by (intro scan_skips) (simp add: gap)
  finally have "parse_line nearest (pre @ [sg] @ gap @ tok @ post) = parse_f64 nearest tok"
    using scan_skips [OF assms(1)] scan_token [OF assms(5)] scan_token_end [OF _ assms(7,5)]
    by (simp add: parse_line_def)
  moreover have "hd tok \<noteq> CHR ''-''"
    using assms(6) by (auto simp: numeral_char_def is_digit_char_def)
  ultimately show ?thesis
    using assms(5) by (simp add: parse_f64_def)
qed

lemma separated_sign_is_lost_witness:
  "parse_line demo_nearest ''ST,GS,-  12.1 g'' = Some (F_Fin (121 / 10))"
proof -
  have "decimal_token ''12.1''" "decimal_magnitude ''12.1'' = 121 / 10"
    by code_simp+
  moreover have "\<forall>c \<in> set ''ST,GS,''. \<not> numeral_char c \<and> \<not> sign_char c"
      "\<forall>c \<in> set ''  ''. \<not> numeral_char c \<and> \<not> sign_char c" "\<not> numeral_char (hd '' g'')"
      "numeral_char (hd ''12.1'')" "sign_char CHR ''-''"
    by code_simp+
  ultimately show ?thesis
    using separated_sign_is_lost [of "''ST,GS,''" "CHR ''-''" "''  ''" "''12.1''" "'' g''" demo_nearest]
    by (simp add: demo_nearest_def)
qed

end
