(* ===== verification/Registry.thy ===== *)
theory Registry
  imports Drivers BTree Clock
begin

text \<open>
  The drivers a station owns, \<open>crates/trace-devices/src/registry.rs\<close>.  The registry works
  through the driver interface only: its operations take the \<open>driver_ops\<close>, its lemmas are proved
  once from the interface and then hold of the program's boxed drivers.
\<close>

record 'd entry =
  en_driver :: 'd
  en_config :: device_config
  en_backoff :: backoff

type_synonym 'd registry = "(string, 'd entry) btree"

definition registry_new :: "'d registry" where
  "registry_new = []"

definition registry_insert :: "device_config \<Rightarrow> 'd \<Rightarrow> 'd registry \<Rightarrow> 'd registry" where
  "registry_insert cfg d r =
     bt_insert (dc_code cfg) \<lparr>en_driver = d, en_config = cfg, en_backoff = default_backoff\<rparr> r"

definition registry_codes :: "'d registry \<Rightarrow> string list" where
  "registry_codes r = bt_keys r"

definition registry_health :: "'d driver_ops \<Rightarrow> 'd registry \<Rightarrow> (string, device_health) btree" where
  "registry_health D r = map (\<lambda>(k, e). (k, op_health D (en_driver e))) r"

text \<open>Every device is connected in the order of the codes; the failures are collected.\<close>

fun connect_all ::
  "'d driver_ops \<Rightarrow> (string \<Rightarrow> surroundings) \<Rightarrow> 'd registry \<Rightarrow> (string \<times> device_error) list \<times> 'd registry" where
  "connect_all D w [] = ([], [])"
| "connect_all D w ((k, e) # r) =
     (let (res, d) = op_connect D (w k) (en_config e) (en_driver e);
          (failures, r') = connect_all D w r
      in ((case res of Inl err \<Rightarrow> [(k, err)] | Inr _ \<Rightarrow> []) @ failures, (k, e\<lparr>en_driver := d\<rparr>) # r'))"

text \<open>
  Reading: \<open>w 0\<close> is what the outside does during the first attempt, \<open>w 1\<close> while reconnecting
  and \<open>w 2\<close> during the second attempt, after waiting for the delay the backoff gives.  The
  \<open>?\<close> on the reconnection returns its error at once.
\<close>

definition entry_read ::
  "'d driver_ops \<Rightarrow> (nat \<Rightarrow> surroundings) \<Rightarrow> 128 word \<Rightarrow> point_ref \<Rightarrow> 'd entry
     \<Rightarrow> (device_error + raw_sample) \<times> 'd entry" where
  "entry_read D w seed point e =
     (case op_read D (w 0) point (en_driver e) of
        (Inr s, d) \<Rightarrow> (Inr s, e\<lparr>en_driver := d, en_backoff := backoff_reset (en_backoff e)\<rparr>)
      | (Inl err, d) \<Rightarrow>
          if is_transient err
          then let e1 = e\<lparr>en_driver := d, en_backoff := snd (next_delay seed (en_backoff e))\<rparr> in
            (case op_connect D (w 1) (en_config e) d of
               (Inl err', d') \<Rightarrow> (Inl err', e1\<lparr>en_driver := d'\<rparr>)
             | (Inr _, d') \<Rightarrow>
                 (case op_read D (w 2) point d' of (res, d'') \<Rightarrow> (res, e1\<lparr>en_driver := d''\<rparr>)))
          else (Inl err, e\<lparr>en_driver := d\<rparr>))"

definition registry_read ::
  "'d driver_ops \<Rightarrow> (nat \<Rightarrow> surroundings) \<Rightarrow> 128 word \<Rightarrow> string \<Rightarrow> point_ref \<Rightarrow> 'd registry
     \<Rightarrow> (device_error + raw_sample) \<times> 'd registry" where
  "registry_read D w seed device_code point r =
     (case bt_get r device_code of
        None \<Rightarrow> (Inl (UnknownPoint device_code (point_name point)), r)
      | Some e \<Rightarrow>
          (case entry_read D w seed point e of (res, e') \<Rightarrow> (res, bt_set device_code e' r)))"

definition registry_write ::
  "'d driver_ops \<Rightarrow> surroundings \<Rightarrow> string \<Rightarrow> point_ref \<Rightarrow> val \<Rightarrow> 'd registry
     \<Rightarrow> (device_error + unit) \<times> 'd registry" where
  "registry_write D w device_code point v r =
     (case bt_get r device_code of
        None \<Rightarrow> (Inl (UnknownPoint device_code (point_name point)), r)
      | Some e \<Rightarrow>
          (case op_write D w point v (en_driver e) of
             (res, d) \<Rightarrow> (res, bt_set device_code (e\<lparr>en_driver := d\<rparr>) r)))"

section \<open>Reading through the registry\<close>

text \<open>Where a successful reading of an entry was taken: in the first attempt or in the second.\<close>

context device_driver
begin

lemma entry_read_sound:
  assumes "entry_read D w seed p e = (res, e')"
  shows "en_config e' = en_config e
    \<and> op_kind D (en_driver e') = op_kind D (en_driver e)
    \<and> (case res of
         Inr s \<Rightarrow> rs_point s = p \<and> rs_recorded_at s \<in> {sur_now (w 0), sur_now (w 2)}
           \<and> op_health D (en_driver e') = \<lparr>dh_connected = True, dh_failures = 0,
                dh_last_success = Some (rs_recorded_at s), dh_last_error = None\<rparr>
       | Inl err \<Rightarrow> True)"
proof (cases "op_read D (w 0) p (en_driver e)")
  case first: (Pair r d)
  show ?thesis
  proof (cases r)
    case (Inr s)
    then show ?thesis
      using assms first read_ok [of "w 0" p "en_driver e" s d] kind_fixed(2) [of "w 0" p "en_driver e"]
      by (auto simp: entry_read_def record_success_def)
  next
    case (Inl err)
    note kinds = kind_fixed(2) [of "w 0" p "en_driver e"]
    show ?thesis
    proof (cases "is_transient err")
      case False
      then show ?thesis
        using assms first Inl kinds by (auto simp: entry_read_def)
    next
      case True
      obtain c d' where c: "op_connect D (w 1) (en_config e) d = (c, d')"
        by fastforce
      obtain r2 d'' where r2: "op_read D (w 2) p d' = (r2, d'')"
        by fastforce
      show ?thesis
        using assms first Inl True kinds c r2 kind_fixed(1) [of "w 1" "en_config e" d]
          kind_fixed(2) [of "w 2" p d'] read_ok [of "w 2" p d' _ d'']
        by (cases c; cases r2) (auto simp: entry_read_def record_success_def Let_def)
    qed
  qed
qed

end

text \<open>
  C30: Reading through the registry, whatever the devices and the network do: an unregistered device
  is an error and nothing happens; otherwise only the device that is read changes, and neither its
  configuration nor its kind; a reading that is returned is of the point that was asked for, was
  taken during the call, and leaves its device healthy with no failures counted.
\<close>

theorem registry_read_sound:
  "case registry_read (boxed_ops x nearest) w seed code p r of (res, r') \<Rightarrow>
     registry_codes r' = registry_codes r
     \<and> (case bt_get r code of
          None \<Rightarrow> res = Inl (UnknownPoint code (point_name p)) \<and> r' = r
        | Some e \<Rightarrow> (\<exists>e'. bt_get r' = (bt_get r)(code \<mapsto> e') \<and> en_config e' = en_config e
            \<and> op_kind (boxed_ops x nearest) (en_driver e') = op_kind (boxed_ops x nearest) (en_driver e)
            \<and> (case res of
                 Inl err \<Rightarrow> True
               | Inr s \<Rightarrow> rs_point s = p \<and> rs_recorded_at s \<in> {sur_now (w 0), sur_now (w 2)}
                   \<and> op_health (boxed_ops x nearest) (en_driver e') = \<lparr>dh_connected = True,
                       dh_failures = 0, dh_last_success = Some (rs_recorded_at s), dh_last_error = None\<rparr>)))"
proof (cases "bt_get r code")
  case None
  then show ?thesis
    by (simp add: registry_read_def)
next
  case (Some e)
  obtain res e' where read: "entry_read (boxed_ops x nearest) w seed p e = (res, e')"
    by fastforce
  have "bt_get (bt_set code e' r) = (bt_get r)(code \<mapsto> e')"
    using Some by (auto simp: bt_get_set)
  then show ?thesis
    using Some boxed.entry_read_sound [OF read]
    by (simp add: registry_read_def registry_codes_def read) (intro exI [of _ e'], simp)
qed

text \<open>
  What a station shows when it comes up: every device was tried, in the order of the codes, and the
  failures are exactly those of the devices whose connection failed.
\<close>

lemma connect_all_devices:
  "connect_all D w r = (failures, r') \<Longrightarrow>
     bt_keys r' = bt_keys r
     \<and> failures = concat (map (\<lambda>(k, e). case fst (op_connect D (w k) (en_config e) (en_driver e)) of
          Inl err \<Rightarrow> [(k, err)] | Inr _ \<Rightarrow> []) r)
     \<and> r' = map (\<lambda>(k, e). (k, e\<lparr>en_driver := snd (op_connect D (w k) (en_config e) (en_driver e))\<rparr>)) r"
proof (induction r arbitrary: failures r')
  case (Cons ke r)
  obtain k e where ke: "ke = (k, e)"
    by (cases ke)
  obtain fs r1 where rest: "connect_all D w r = (fs, r1)"
    by fastforce
  show ?case
    using Cons.IH [OF rest] Cons.prems rest
    by (auto simp: ke bt_keys_def case_prod_unfold Let_def split: sum.splits)
qed (simp add: bt_keys_def)

context device_driver
begin

lemma connected_health:
  "is_ok (fst (op_connect D e c d)) \<Longrightarrow> dh_connected (op_health D (snd (op_connect D e c d)))"
  using connect_ok [of e c d] by (cases "op_connect D e c d") (auto simp: is_ok_iff record_success_def)

lemma connect_all_health:
  assumes "connect_all D w r = (failures, r')" and "distinct (bt_keys r)" and "(k, e) \<in> set r'"
    and "k \<notin> fst ` set failures"
  shows "dh_connected (op_health D (en_driver e))"
proof -
  have facts: "failures = concat (map (\<lambda>(k, e). case fst (op_connect D (w k) (en_config e) (en_driver e)) of
          Inl err \<Rightarrow> [(k, err)] | Inr _ \<Rightarrow> []) r)"
      "r' = map (\<lambda>(k, e). (k, e\<lparr>en_driver := snd (op_connect D (w k) (en_config e) (en_driver e))\<rparr>)) r"
    using connect_all_devices [OF assms(1)] by simp_all
  obtain e0 where e0: "(k, e0) \<in> set r"
      "e = e0\<lparr>en_driver := snd (op_connect D (w k) (en_config e0) (en_driver e0))\<rparr>"
    using assms(3) by (auto simp: facts(2))
  have "is_ok (fst (op_connect D (w k) (en_config e0) (en_driver e0)))"
  proof (cases "fst (op_connect D (w k) (en_config e0) (en_driver e0))")
    case (Inl err)
    then have "(k, err) \<in> set failures"
      using e0(1) by (force simp: facts(1))
    then show ?thesis
      using assms(4) by force
  qed simp
  then show ?thesis
    using connected_health e0(2) by simp
qed

end

text \<open>
  One dead device does not stop a station: bringing up a registry tries every device, keeps all
  of them registered, and every device that is not reported as a failure is connected.
\<close>

theorem connect_all_brings_up_the_rest:
  assumes "connect_all (boxed_ops x nearest) w r = (failures, r')" and "bt_ok r"
  shows "registry_codes r' = registry_codes r \<and> fst ` set failures \<subseteq> set (registry_codes r)
    \<and> (\<forall>(k, e) \<in> set r'. k \<notin> fst ` set failures \<longrightarrow>
         dh_connected (op_health (boxed_ops x nearest) (en_driver e)))"
proof -
  have codes: "bt_keys r' = bt_keys r"
    using connect_all_devices [OF assms(1)] by (rule conjunct1)
  have "failures = concat (map (\<lambda>(k, e). case fst (op_connect (boxed_ops x nearest) (w k) (en_config e)
          (en_driver e)) of Inl err \<Rightarrow> [(k, err)] | Inr _ \<Rightarrow> []) r)"
    using connect_all_devices [OF assms(1)] by simp
  then have "fst ` set failures \<subseteq> set (bt_keys r)"
    by (force simp: bt_keys_def split: sum.splits)
  moreover have "dh_connected (op_health (boxed_ops x nearest) (en_driver e))"
    if "(k, e) \<in> set r'" "k \<notin> fst ` set failures" for k e
    using boxed.connect_all_health [OF assms(1) bt.keys_distinct [OF assms(2)] that] .
  ultimately show ?thesis
    using codes by (auto simp: registry_codes_def)
qed

text \<open>A station with an operator terminal and an instrument whose cable is out.\<close>

definition demo_registry :: "boxed_driver registry" where
  "demo_registry =
     [(''M'', \<lparr>en_driver = ManualBox (manual_new ''M''), en_config = \<lparr>dc_code = ''M'', dc_kind = ''MANUAL'',
         dc_settings = JObject [], dc_timeout_ms = 0\<rparr>, en_backoff = default_backoff\<rparr>),
      (''T'', \<lparr>en_driver = TcpBox (tcp_new ''T''), en_config = \<lparr>dc_code = ''T'', dc_kind = ''TCP_LINE'',
         dc_settings = JObject [], dc_timeout_ms = 0\<rparr>, en_backoff = default_backoff\<rparr>)]"

definition demo_outside :: surroundings where
  "demo_outside = \<lparr>sur_now = 7, sur_entered = [(''p'', V_Text ''a''), (''p'', V_Text ''b'')],
     sur_dial = (\<lambda>_. DialTimeout), sur_send = (\<lambda>_. None), sur_line = LineTimeout\<rparr>"

lemma connect_all_brings_up_the_rest_witness:
  "\<exists>failures r'. connect_all (boxed_ops demo_externals demo_nearest) (\<lambda>_. demo_outside) demo_registry
      = (failures, r') \<and> map fst failures = [''T''] \<and> registry_codes r' = [''M'', ''T'']"
proof -
  obtain failures r' where run: "connect_all (boxed_ops demo_externals demo_nearest) (\<lambda>_. demo_outside)
      demo_registry = (failures, r')"
    by fastforce
  have "bt_ok demo_registry"
    unfolding bt_ok_def demo_registry_def list.map fst_conv by code_simp
  from connect_all_brings_up_the_rest [OF run this] run show ?thesis
    by (auto simp: demo_registry_def boxed_ops_def manual_ops_def tcp_ops_def manual_connect_def
        tcp_connect_def require_str_def str_field_def registry_codes_def bt_keys_def)
qed

end
