(* ===== verification/Label.thy ===== *)
theory Label
  imports Ident BTree
begin

text \<open>
  Labels: the binding engine, the template model and the ZPL renderer,
  \<open>crates/trace-mark/src/binding.rs\<close>, \<open>template.rs\<close> and \<open>zpl.rs\<close>, and the
  marker seam, \<open>marker.rs\<close>.  Formatting one field of a date is the \<open>chrono\<close> package's and converting
  millimetres to dots is floating point: both are arguments.
\<close>

section \<open>Searching and replacing text\<close>

text \<open>Rust's \<open>str::find\<close> with the text before and after the first match.\<close>

fun find_split :: "string \<Rightarrow> string \<Rightarrow> (string \<times> string) option" where
  "find_split pat s =
     (if prefix pat s then Some ([], drop (length pat) s)
      else case s of [] \<Rightarrow> None
        | c # cs \<Rightarrow> map_option (\<lambda>(a, b). (c # a, b)) (find_split pat cs))"

declare find_split.simps [simp del]

lemma find_split_Some:
  "find_split pat s = Some (a, b) \<Longrightarrow> s = a @ pat @ b"
proof (induction s arbitrary: a)
  case Nil
  then show ?case
    by (auto simp: find_split.simps [of pat "[]"] split: if_splits)
next
  case (Cons c s)
  show ?case
  proof (cases "prefix pat (c # s)")
    case True
    then show ?thesis
      using Cons.prems by (auto simp: find_split.simps [of pat "c # s"] prefix_def)
  next
    case False
    then show ?thesis
      using Cons by (auto simp: find_split.simps [of pat "c # s"])
  qed
qed

text \<open>Rust's \<open>str::replace\<close>, for a pattern that is not empty.\<close>

function replace_all :: "string \<Rightarrow> string \<Rightarrow> string \<Rightarrow> string" where
  "replace_all pat rep [] = []"
| "replace_all pat rep (c # cs) =
     (if pat \<noteq> [] \<and> prefix pat (c # cs) then rep @ replace_all pat rep (drop (length pat) (c # cs))
      else c # replace_all pat rep cs)"
  by pat_completeness auto

termination
  by (relation "measure (\<lambda>(pat, rep, s). length s)") auto

section \<open>Bindings\<close>

datatype binding_error = UnknownBinding string | Unterminated string

record binding_context =
  bc_values :: "(string, string) btree"
  bc_now :: "utc option"

definition binding_new :: binding_context where
  "binding_new = \<lparr>bc_values = [], bc_now = None\<rparr>"

definition binding_with :: "string \<Rightarrow> string \<Rightarrow> binding_context \<Rightarrow> binding_context" where
  "binding_with k v ctx = ctx\<lparr>bc_values := bt_insert k v (bc_values ctx)\<rparr>"

definition binding_at :: "utc \<Rightarrow> binding_context \<Rightarrow> binding_context" where
  "binding_at t ctx = ctx\<lparr>bc_now := Some t\<rparr>"

definition binding_keys :: "binding_context \<Rightarrow> string list" where
  "binding_keys ctx = bt_keys (bc_values ctx)"

text \<open>\<open>strftime t f\<close> formats the instant by one conversion of \<open>chrono\<close>, such as \<open>%Y\<close>.\<close>

definition format_datetime :: "(utc \<Rightarrow> string \<Rightarrow> string) \<Rightarrow> utc \<Rightarrow> string \<Rightarrow> string" where
  "format_datetime strftime t pattern =
     foldl (\<lambda>out (token, conv). replace_all token (strftime t conv) out) pattern
       [(''yyyy'', ''%Y''), (''MM'', ''%m''), (''dd'', ''%d''), (''HH'', ''%H''), (''mm'', ''%M''),
        (''ss'', ''%S''), (''yy'', ''%y'')]"

definition resolve ::
  "(utc \<Rightarrow> string \<Rightarrow> string) \<Rightarrow> utc \<Rightarrow> binding_context \<Rightarrow> string \<Rightarrow> string option" where
  "resolve strftime clock ctx key =
     (if prefix ''now:'' key
      then Some (format_datetime strftime
        (case bc_now ctx of Some t \<Rightarrow> t | None \<Rightarrow> clock) (drop 4 key))
      else bt_get (bc_values ctx) key)"

text \<open>The loop: \<open>rest\<close> is what is left of the template, \<open>out\<close> what was produced.\<close>

function render_loop ::
  "(string \<Rightarrow> string option) \<Rightarrow> string \<Rightarrow> string \<Rightarrow> string \<Rightarrow> binding_error + string" where
  "render_loop lookup template rest out =
     (case find_split ''{{'' rest of
        None \<Rightarrow> Inr (out @ rest)
      | Some (before, after) \<Rightarrow>
          (case find_split ''}}'' after of
             None \<Rightarrow> Inl (Unterminated template)
           | Some (inside, after') \<Rightarrow>
               (case lookup (trim inside) of
                  None \<Rightarrow> Inl (UnknownBinding (trim inside))
                | Some v \<Rightarrow> render_loop lookup template after' (out @ before @ v))))"
  by pat_completeness auto

termination
  by (relation "measure (\<lambda>(lookup, template, rest, out). length rest)")
    (auto dest!: find_split_Some)

declare render_loop.simps [simp del]

definition render_expression ::
  "(utc \<Rightarrow> string \<Rightarrow> string) \<Rightarrow> utc \<Rightarrow> string \<Rightarrow> binding_context \<Rightarrow> binding_error + string" where
  "render_expression strftime clock template ctx =
     render_loop (resolve strftime clock ctx) template template []"

section \<open>Templates\<close>

datatype template_error = Binding binding_error | Invalid string

datatype symbology = Code128 | Qr | DataMatrix
datatype align = AlignLeft | AlignCenter | AlignRight

datatype element =
    TextEl u32 u32 u32 u32 string align
  | BarcodeEl u32 u32 symbology u32 u32 string bool
  | BoxEl u32 u32 u32 u32 u32

fun origin :: "element \<Rightarrow> u32 \<times> u32" where
  "origin (TextEl x y _ _ _ _) = (x, y)"
| "origin (BarcodeEl x y _ _ _ _ _) = (x, y)"
| "origin (BoxEl x y _ _ _) = (x, y)"

record label_template =
  lt_code :: string
  lt_version :: u32
  lt_width_mm :: f64
  lt_height_mm :: f64
  lt_dpi :: u32
  lt_darkness :: "u32 option"
  lt_elements :: "element list"

definition width_dots :: "(f64 \<Rightarrow> u32 \<Rightarrow> u32) \<Rightarrow> label_template \<Rightarrow> u32" where
  "width_dots to_dots t = to_dots (lt_width_mm t) (lt_dpi t)"

definition height_dots :: "(f64 \<Rightarrow> u32 \<Rightarrow> u32) \<Rightarrow> label_template \<Rightarrow> u32" where
  "height_dots to_dots t = to_dots (lt_height_mm t) (lt_dpi t)"

fun check_elements :: "u32 \<Rightarrow> u32 \<Rightarrow> nat \<Rightarrow> element list \<Rightarrow> template_error + unit" where
  "check_elements w h i [] = Inr ()"
| "check_elements w h i (el # els) =
     (let (x, y) = origin el in
      if x \<ge> w \<or> y \<ge> h
      then Inl (Invalid (''element '' @ show_nat i @ '' at ('' @ show_word x @ '','' @ show_word y
        @ '') is outside the '' @ show_word w @ ''x'' @ show_word h @ '' dot canvas''))
      else check_elements w h (Suc i) els)"

definition template_validate :: "(f64 \<Rightarrow> u32 \<Rightarrow> u32) \<Rightarrow> label_template \<Rightarrow> template_error + unit" where
  "template_validate to_dots t =
     (if f64_le (lt_width_mm t) (F_Fin 0) \<or> f64_le (lt_height_mm t) (F_Fin 0)
      then Inl (Invalid ''canvas must have a positive size'')
      else if lt_dpi t = 0 then Inl (Invalid ''dpi must be greater than zero'')
      else if lt_elements t = [] then Inl (Invalid ''template has no elements'')
      else check_elements (width_dots to_dots t) (height_dots to_dots t) 0 (lt_elements t))"

fun bind_elements :: "(string \<Rightarrow> binding_error + string) \<Rightarrow> element list \<Rightarrow> template_error + element list" where
  "bind_elements render [] = Inr []"
| "bind_elements render (el # els) =
     and_then (case el of
         TextEl x y h w v a \<Rightarrow> (case render v of Inl e \<Rightarrow> Inl (Binding e) | Inr v' \<Rightarrow> Inr (TextEl x y h w v' a))
       | BarcodeEl x y s m h v r \<Rightarrow>
           (case render v of Inl e \<Rightarrow> Inl (Binding e) | Inr v' \<Rightarrow> Inr (BarcodeEl x y s m h v' r))
       | BoxEl _ _ _ _ _ \<Rightarrow> Inr el)
       (\<lambda>el'. and_then (bind_elements render els) (\<lambda>els'. Inr (el' # els')))"

definition template_bind ::
  "(utc \<Rightarrow> string \<Rightarrow> string) \<Rightarrow> utc \<Rightarrow> label_template \<Rightarrow> binding_context \<Rightarrow> template_error + label_template" where
  "template_bind strftime clock t ctx =
     and_then (bind_elements (\<lambda>v. render_expression strftime clock v ctx) (lt_elements t))
       (\<lambda>els. Inr (t\<lparr>lt_elements := els\<rparr>))"

definition demo_sticker :: label_template where
  "demo_sticker = \<lparr>lt_code = ''DEMO-50x25'', lt_version = 1, lt_width_mm = F_Fin 50,
     lt_height_mm = F_Fin 25, lt_dpi = 203, lt_darkness = Some 10, lt_elements =
      [TextEl 12 12 26 26 ''ElectronIx'' AlignLeft,
       TextEl 12 48 20 20 ''MODEL : {{product.model}}'' AlignLeft,
       TextEl 12 74 20 20 ''SR NO : {{unit.serial}}'' AlignLeft,
       TextEl 12 100 20 20 ''JOB   : {{job.number}}'' AlignLeft,
       TextEl 12 126 20 20 ''DATE  : {{now:dd-MM-yyyy}}'' AlignLeft,
       BarcodeEl 250 20 Qr 5 0 ''{{unit.trace_url}}'' False,
       BarcodeEl 12 152 Code128 2 34 ''{{unit.serial}}'' False,
       TextEl 300 168 16 16 ''MADE IN INDIA'' AlignLeft]\<rparr>"

section \<open>ZPL\<close>

definition escape_char :: "char \<Rightarrow> string" where
  "escape_char ch =
     (if ch = CHR ''^'' then ''_5E''
      else if ch = CHR ''~'' then ''_7E''
      else if ch = CHR 0x5C then ''_5C''
      else if ch = CHR 0x0A \<or> ch = CHR 0x0D then '' ''
      else [ch])"

definition escape_field :: "string \<Rightarrow> string" where
  "escape_field s = concat (map escape_char s)"

fun element_value :: "element \<Rightarrow> string option" where
  "element_value (TextEl _ _ _ _ v _) = Some v"
| "element_value (BarcodeEl _ _ _ _ _ v _) = Some v"
| "element_value (BoxEl _ _ _ _ _) = None"

definition unresolved :: "element \<Rightarrow> bool" where
  "unresolved el \<longleftrightarrow> (case element_value el of Some v \<Rightarrow> find_split ''{{'' v \<noteq> None | None \<Rightarrow> False)"

fun zpl_justify :: "align \<Rightarrow> string" where
  "zpl_justify AlignLeft = []"
| "zpl_justify AlignCenter = ''^FB400,1,0,C''"
| "zpl_justify AlignRight = ''^FB400,1,0,R''"

fun render_element :: "element \<Rightarrow> string" where
  "render_element (TextEl x y height width v a) =
     ''^FO'' @ show_word x @ '','' @ show_word y @ zpl_justify a @ ''^A0N,'' @ show_word height @ '',''
       @ show_word width @ ''^FD'' @ escape_field v @ ''^FS'' @ [CHR 0x0A]"
| "render_element (BarcodeEl x y Code128 cell height v hr) =
     ''^FO'' @ show_word x @ '','' @ show_word y @ ''^BY'' @ show_word cell @ '',2.0,'' @ show_word height
       @ ''^BCN,'' @ show_word height @ '','' @ (if hr then ''Y'' else ''N'') @ '',N,N^FD''
       @ escape_field v @ ''^FS'' @ [CHR 0x0A]"
| "render_element (BarcodeEl x y Qr cell height v hr) =
     ''^FO'' @ show_word x @ '','' @ show_word y @ ''^BQN,2,'' @ show_word cell @ ''^FDQA,''
       @ escape_field v @ ''^FS'' @ [CHR 0x0A]"
| "render_element (BarcodeEl x y DataMatrix cell height v hr) =
     ''^FO'' @ show_word x @ '','' @ show_word y @ ''^BXN,'' @ show_word cell @ '',200^FD''
       @ escape_field v @ ''^FS'' @ [CHR 0x0A]"
| "render_element (BoxEl x y w h thickness) =
     ''^FO'' @ show_word x @ '','' @ show_word y @ ''^GB'' @ show_word w @ '','' @ show_word h @ '',''
       @ show_word thickness @ ''^FS'' @ [CHR 0x0A]"

definition zpl_header :: "(f64 \<Rightarrow> u32 \<Rightarrow> u32) \<Rightarrow> label_template \<Rightarrow> string" where
  "zpl_header to_dots t =
     ''^XA'' @ [CHR 0x0A]
       @ ''^PW'' @ show_word (width_dots to_dots t) @ ''^LL'' @ show_word (height_dots to_dots t)
       @ ''^LH0,0'' @ (case lt_darkness t of Some d \<Rightarrow> ''^MD'' @ show_word d | None \<Rightarrow> []) @ [CHR 0x0A]"

definition render_zpl :: "(f64 \<Rightarrow> u32 \<Rightarrow> u32) \<Rightarrow> label_template \<Rightarrow> template_error + string" where
  "render_zpl to_dots t =
     and_then (template_validate to_dots t) (\<lambda>_.
       case find unresolved (lt_elements t) of
         Some el \<Rightarrow> Inl (Invalid (''unresolved binding in ''
           @ debug_string (case element_value el of Some v \<Rightarrow> v | None \<Rightarrow> [])
           @ '': call bind() before rendering''))
       | None \<Rightarrow> Inr (zpl_header to_dots t
           @ concat (map render_element (lt_elements t)) @ ''^XZ'' @ [CHR 0x0A]))"

section \<open>The marker seam\<close>

datatype marker_error =
    DeviceFault string string
  | NoCompletion string u64
  | NotImplemented string

record mark_applied =
  ma_payload_sent :: string
  ma_response :: string

record simulated_marker =
  sm_device :: string
  sm_corrupt_as :: "string option"
  sm_fault :: bool
  sm_marked :: "string list"

definition marker_new :: "string \<Rightarrow> simulated_marker" where
  "marker_new device = \<lparr>sm_device = device, sm_corrupt_as = None, sm_fault = False, sm_marked = []\<rparr>"

definition corrupting_to :: "string \<Rightarrow> simulated_marker \<Rightarrow> simulated_marker" where
  "corrupting_to decoded m = m\<lparr>sm_corrupt_as := Some decoded\<rparr>"

definition faulting :: "simulated_marker \<Rightarrow> simulated_marker" where
  "faulting m = m\<lparr>sm_fault := True\<rparr>"

definition read_back :: "simulated_marker \<Rightarrow> string option" where
  "read_back m =
     (case sm_corrupt_as m of
        Some c \<Rightarrow> Some c
      | None \<Rightarrow> if sm_marked m = [] then None else Some (last (sm_marked m)))"

definition marker_mark :: "string \<Rightarrow> simulated_marker \<Rightarrow> (marker_error + mark_applied) \<times> simulated_marker" where
  "marker_mark content m =
     (if sm_fault m
      then (Inl (DeviceFault (sm_device m) ''simulated fault''), m\<lparr>sm_fault := False\<rparr>)
      else (Inr \<lparr>ma_payload_sent = content, ma_response = ''OK''\<rparr>, m\<lparr>sm_marked := sm_marked m @ [content]\<rparr>))"

definition file_drop_mark :: "string \<Rightarrow> marker_error + mark_applied" where
  "file_drop_mark content = Inl (NotImplemented ''FILE_DROP'')"

text \<open>A marker behind the trait.\<close>

datatype marker_driver = SimulatedMarker simulated_marker | FileDropMarker

fun driver_mark :: "string \<Rightarrow> marker_driver \<Rightarrow> (marker_error + mark_applied) \<times> marker_driver" where
  "driver_mark content (SimulatedMarker m) = map_prod id SimulatedMarker (marker_mark content m)"
| "driver_mark content FileDropMarker = (file_drop_mark content, FileDropMarker)"

fun driver_strategy :: "marker_driver \<Rightarrow> string" where
  "driver_strategy (SimulatedMarker _) = ''SIMULATED''"
| "driver_strategy FileDropMarker = ''FILE_DROP''"

section \<open>What a template prints\<close>

text \<open>A template as its author reads it: literal text and references.\<close>

datatype piece = Lit string | Ref string

fun piece_text :: "piece \<Rightarrow> string" where
  "piece_text (Lit s) = s"
| "piece_text (Ref k) = ''{{'' @ k @ ''}}''"

fun piece_ok :: "piece \<Rightarrow> bool" where
  "piece_ok (Lit s) \<longleftrightarrow> CHR ''{'' \<notin> set s"
| "piece_ok (Ref k) \<longleftrightarrow> CHR ''}'' \<notin> set k"

fun fill :: "(string \<Rightarrow> string option) \<Rightarrow> piece list \<Rightarrow> binding_error + string" where
  "fill lookup [] = Inr []"
| "fill lookup (Lit s # ps) = and_then (fill lookup ps) (\<lambda>r. Inr (s @ r))"
| "fill lookup (Ref k # ps) =
     (case lookup (trim k) of
        None \<Rightarrow> Inl (UnknownBinding (trim k))
      | Some v \<Rightarrow> and_then (fill lookup ps) (\<lambda>r. Inr (v @ r)))"

lemma find_split_skip:
  "c \<notin> set s \<Longrightarrow> find_split (c # pat) (s @ rest)
     = map_option (\<lambda>(a, b). (s @ a, b)) (find_split (c # pat) rest)"
proof (induction s)
  case Nil
  then show ?case
    by (simp add: case_prod_unfold option.map_ident)
next
  case (Cons d s)
  then show ?case
    by (auto simp: find_split.simps [of "c # pat" "d # s @ rest"] option.map_comp comp_def case_prod_unfold)
qed

lemma find_split_here: "find_split pat (pat @ rest) = Some ([], rest)"
  by (subst find_split.simps) simp

lemma render_lit:
  "CHR ''{'' \<notin> set s \<Longrightarrow> render_loop lookup t (s @ rest) out = render_loop lookup t rest (out @ s)"
  by (simp add: render_loop.simps [of lookup t "s @ rest"] render_loop.simps [of lookup t rest]
      find_split_skip case_prod_unfold split: option.splits)

lemma render_ref:
  assumes "CHR ''}'' \<notin> set k"
  shows "render_loop lookup t (''{{'' @ k @ ''}}'' @ rest) out =
    (case lookup (trim k) of None \<Rightarrow> Inl (UnknownBinding (trim k))
     | Some v \<Rightarrow> render_loop lookup t rest (out @ v))"
proof -
  have "find_split ''{{'' (''{{'' @ k @ ''}}'' @ rest) = Some ([], k @ ''}}'' @ rest)"
    by (rule find_split_here)
  moreover have "find_split ''}}'' (k @ ''}}'' @ rest) = Some (k, rest)"
    using find_split_skip [OF assms, of "''}''" "''}}'' @ rest"] find_split_here [of "''}}''" rest] by simp
  ultimately show ?thesis
    by (subst render_loop.simps) (simp split: option.splits)
qed

lemma render_pieces:
  "list_all piece_ok ps \<Longrightarrow> render_loop lookup t (concat (map piece_text ps)) out
     = and_then (fill lookup ps) (\<lambda>r. Inr (out @ r))"
proof (induction ps arbitrary: out)
  case Nil
  then show ?case
    by (simp add: render_loop.simps find_split.simps [of _ "[]"])
next
  case (Cons p ps)
  show ?case
  proof (cases p)
    case (Lit s)
    then show ?thesis
      using Cons by (cases "fill lookup ps") (simp_all add: render_lit)
  next
    case (Ref k)
    then show ?thesis
      using Cons render_ref [of k lookup t "concat (map piece_text ps)" out]
      by (cases "fill lookup ps") (simp_all split: option.splits)
  qed
qed

text \<open>
  What a label line prints: a template made of literal text and references prints the text with
  every reference replaced by its value, blanks inside the braces ignored, and refuses to print at
  the first reference that has none; a value is never read as a template again.
\<close>

theorem render_expression_fills:
  assumes "list_all piece_ok ps"
  shows "render_expression strftime clock (concat (map piece_text ps)) ctx
    = fill (resolve strftime clock ctx) ps"
  using render_pieces [OF assms, of "resolve strftime clock ctx" "concat (map piece_text ps)" "[]"]
  by (cases "fill (resolve strftime clock ctx) ps") (simp_all add: render_expression_def)

lemma render_expression_fills_witness:
  "render_expression (\<lambda>_ f. f) 0 ''SR {{ unit.serial }}!'' (binding_with ''unit.serial'' ''{{x}}'' binding_new)
     = Inr ''SR {{x}}!''"
proof -
  have "trim '' unit.serial '' = ''unit.serial''"
    by code_simp
  then show ?thesis
    using render_expression_fills [of "[Lit ''SR '', Ref '' unit.serial '', Lit ''!'']" "\<lambda>_ f. f" 0
        "binding_with ''unit.serial'' ''{{x}}'' binding_new"]
    by (simp add: resolve_def binding_with_def binding_new_def bt_get_def)
qed

section \<open>What data can do to a label\<close>

text \<open>The characters that mean something to the printer.\<close>

definition control :: "char \<Rightarrow> bool" where
  "control c \<longleftrightarrow> c \<in> {CHR ''^'', CHR ''~'', CHR 0x5C, CHR 0x0A, CHR 0x0D}"

interpretation zpl: text_escape escape_char control
  by unfold_locales (auto simp: escape_char_def control_def split: if_splits)

lemma escape_field_plain: "filter control (escape_field v) = []"
  unfolding escape_field_def by (rule zpl.escaped_safe)

fun blank :: "element \<Rightarrow> element" where
  "blank (TextEl x y h w v a) = TextEl x y h w [] a"
| "blank (BarcodeEl x y s m h v r) = BarcodeEl x y s m h [] r"
| "blank (BoxEl x y w h th) = BoxEl x y w h th"

lemma render_blank: "filter control (render_element (blank el)) = filter control (render_element el)"
proof (cases el)
  case (BarcodeEl x y s m h v r)
  then show ?thesis
    by (cases s) (simp_all add: escape_field_plain escape_field_plain [of "[]"])
qed (simp_all add: escape_field_plain escape_field_plain [of "[]"])

lemma render_layout:
  assumes "map blank els = map blank els'"
  shows "filter control (concat (map render_element els)) = filter control (concat (map render_element els'))"
proof -
  have "filter control (concat (map render_element els))
      = concat (map (\<lambda>el. filter control (render_element el)) (map blank els))" for els
    by (induction els) (simp_all add: render_blank)
  then show ?thesis
    using assms by metis
qed

text \<open>
  C19: Data cannot change what a printer does: two labels with the same layout, whatever their field
  values, give printer programs with the same control characters in the same order, so no serial
  number, URL or scanned text adds, ends or alters a command.
\<close>

theorem data_cannot_change_commands:
  assumes "render_zpl to_dots t = Inr z"
    and "render_zpl to_dots (t\<lparr>lt_elements := els\<rparr>) = Inr z'"
    and "map blank els = map blank (lt_elements t)"
  shows "filter control z' = filter control z"
proof -
  have out: "r = zpl_header to_dots u @ concat (map render_element (lt_elements u)) @ ''^XZ'' @ [CHR 0x0A]"
    if "render_zpl to_dots u = Inr r" for u r
    using that by (simp add: render_zpl_def outcome split: option.splits)
  have "zpl_header to_dots (t\<lparr>lt_elements := els\<rparr>) = zpl_header to_dots t"
    by (simp add: zpl_header_def width_dots_def height_dots_def)
  then show ?thesis
    using out [OF assms(1)] out [OF assms(2)] render_layout [OF assms(3)] by simp
qed

definition one_field :: "string \<Rightarrow> label_template" where
  "one_field v = \<lparr>lt_code = ''L'', lt_version = 1, lt_width_mm = F_Fin 50, lt_height_mm = F_Fin 25,
     lt_dpi = 203, lt_darkness = None, lt_elements = [TextEl 1 2 20 20 v AlignLeft]\<rparr>"

lemma one_field_renders:
  assumes "CHR ''{'' \<notin> set v"
  shows "\<exists>z. render_zpl (\<lambda>_ _. 400) (one_field v) = Inr z"
proof -
  have "find_split ''{{'' v = None"
    using find_split_skip [OF assms, of "''{''" "[]"] by (simp add: find_split.simps [of _ "[]"])
  then show ?thesis
    by (simp add: render_zpl_def one_field_def template_validate_def width_dots_def height_dots_def
        unresolved_def word_le_nat_alt)
qed

lemma data_cannot_change_commands_witness:
  "filter control (projr (render_zpl (\<lambda>_ _. 400) (one_field ''A^XZ~JR'')))
     = filter control (projr (render_zpl (\<lambda>_ _. 400) (one_field ''A1'')))"
proof -
  obtain z z' where z: "render_zpl (\<lambda>_ _. 400) (one_field ''A1'') = Inr z"
      "render_zpl (\<lambda>_ _. 400) (one_field ''A^XZ~JR'') = Inr z'"
    using one_field_renders [of "''A1''"] one_field_renders [of "''A^XZ~JR''"] by auto
  have "one_field ''A^XZ~JR'' = (one_field ''A1'')\<lparr>lt_elements := lt_elements (one_field ''A^XZ~JR'')\<rparr>"
    by (simp add: one_field_def)
  then show ?thesis
    using data_cannot_change_commands [OF z(1), of "lt_elements (one_field ''A^XZ~JR'')" z'] z
    by (simp add: one_field_def)
qed

text \<open>
  Two identities can print the same label: a field value with a caret gives the same printer
  program as the value with the characters \<open>_5E\<close> in its place, in every template, and the
  program never tells the printer to decode the underscore.
\<close>

theorem escape_conflates_identities:
  assumes "CHR ''{'' \<notin> set (a @ b)"
  shows "render_zpl to_dots (t\<lparr>lt_elements := pre @ TextEl x y h w (a @ ''^'' @ b) al # post\<rparr>)
       = render_zpl to_dots (t\<lparr>lt_elements := pre @ TextEl x y h w (a @ ''_5E'' @ b) al # post\<rparr>)"
proof -
  have none: "find_split ''{{'' v = None" if "CHR ''{'' \<notin> set v" for v
    using find_split_skip [OF that, of "''{''" "[]"] by (simp add: find_split.simps [of _ "[]"])
  have "\<not> unresolved (TextEl x y h w (a @ ''^'' @ b) al)" "\<not> unresolved (TextEl x y h w (a @ ''_5E'' @ b) al)"
    using assms none [of "a @ ''^'' @ b"] none [of "a @ ''_5E'' @ b"] by (auto simp: unresolved_def)
  then have "find unresolved (pre @ TextEl x y h w (a @ ''^'' @ b) al # post)
      = find unresolved (pre @ TextEl x y h w (a @ ''_5E'' @ b) al # post)"
    by (induction pre) auto
  moreover have "check_elements W H i (pre @ TextEl x y h w (a @ ''^'' @ b) al # post)
      = check_elements W H i (pre @ TextEl x y h w (a @ ''_5E'' @ b) al # post)" for W H i
  proof (induction pre arbitrary: i)
    case (Cons el pre)
    then show ?case
      by (simp add: Let_def case_prod_unfold)
  qed (simp add: Let_def)
  moreover have "render_element (TextEl x y h w (a @ ''^'' @ b) al)
      = render_element (TextEl x y h w (a @ ''_5E'' @ b) al)"
    by (simp add: escape_field_def escape_char_def)
  ultimately show ?thesis
    by (cases "find unresolved (pre @ TextEl x y h w (a @ ''^'' @ b) al # post)")
      (simp_all add: render_zpl_def zpl_header_def template_validate_def width_dots_def height_dots_def
        del: render_element.simps)
qed

lemma escape_conflates_identities_witness:
  "render_zpl (\<lambda>_ _. 400) (one_field ''SN^1'') = render_zpl (\<lambda>_ _. 400) (one_field ''SN_5E1'')"
  using escape_conflates_identities [where a = "''SN''" and b = "''1''" and to_dots = "\<lambda>_ _. 400"
      and t = "one_field []" and pre = "[]" and post = "[]" and x = 1 and y = 2 and h = 20 and w = 20
      and al = AlignLeft]
  by (simp add: one_field_def)

section \<open>What a bound symbol prints\<close>

text \<open>A character the printer does not interpret is printed as it is.\<close>

lemma escape_field_id: "filter control s = [] \<Longrightarrow> escape_field s = s"
  by (induction s) (auto simp: escape_field_def escape_char_def control_def split: if_splits)

lemma bound_reference:
  assumes "trim k = k" and "CHR ''}'' \<notin> set k" and "\<not> prefix ''now:'' k"
    and "bt_ok (bc_values ctx)"
  shows "render_expression strftime clock (''{{'' @ k @ ''}}'') (binding_with k v ctx) = Inr v"
proof -
  have "render_expression strftime clock (concat (map piece_text [Ref k])) (binding_with k v ctx)
      = fill (resolve strftime clock (binding_with k v ctx)) [Ref k]"
    by (rule render_expression_fills) (simp add: assms(2))
  then show ?thesis
    using assms by (simp add: resolve_def binding_with_def bt_get_insert)
qed

lemma bind_elements_member:
  "bind_elements render els = Inr els' \<Longrightarrow> BarcodeEl x y s m h v r \<in> set els \<Longrightarrow> render v = Inr v'
    \<Longrightarrow> BarcodeEl x y s m h v' r \<in> set els'"
  by (induction els arbitrary: els') (auto simp: outcome)

text \<open>A QR symbol of a rendered label stands in the program with its value, if nothing in it is escaped.\<close>

lemma rendered_qr:
  assumes "render_zpl to_dots t = Inr zpl" and "BarcodeEl x y Qr cell height v hr \<in> set (lt_elements t)"
    and "filter control v = []"
  shows "\<exists>before after. zpl = before @ ''^BQN,2,'' @ show_word cell @ ''^FDQA,'' @ v @ ''^FS'' @ after"
proof -
  obtain els els' where els: "lt_elements t = els @ BarcodeEl x y Qr cell height v hr # els'"
    using split_list [OF assms(2)] by blast
  have "zpl = zpl_header to_dots t @ concat (map render_element (lt_elements t)) @ ''^XZ'' @ [CHR 0x0A]"
    using assms(1) by (simp add: render_zpl_def outcome split: option.splits)
  also have "\<dots> = (zpl_header to_dots t @ concat (map render_element els) @ ''^FO'' @ show_word x @ '','' @ show_word y)
      @ ''^BQN,2,'' @ show_word cell @ ''^FDQA,'' @ v @ ''^FS'' @ ([CHR 0x0A] @ concat (map render_element els') @ ''^XZ'' @ [CHR 0x0A])"
    by (simp add: els escape_field_id [OF assms(3)])
  finally show ?thesis
    by blast
qed

end
