(* ===== verification/Spool.thy ===== *)
theory Spool
  imports Sign
begin

text \<open>
  The offline spool of a station, \<open>apps/trace-station/src/spool.rs\<close>: a file with one JSON record
  per line.  The file holds bytes; a string that has been read from it is valid UTF-8.  Encoding and
  decoding a record is the \<open>serde_json\<close> package's.
\<close>

section \<open>Records and errors\<close>

datatype spool_error = SpoolIo string | SpoolEncode string

record spool_record =
  sr_id :: string
  sr_topic :: string
  sr_payload :: json
  sr_recorded_at :: utc
  sr_attempts :: u32

record spool_json =
  sj_encode :: "spool_record \<Rightarrow> string + string"
  sj_decode :: "string \<Rightarrow> string + spool_record"

definition record_new :: "string \<Rightarrow> utc \<Rightarrow> string \<Rightarrow> json \<Rightarrow> spool_record" where
  "record_new fresh_id now topic payload =
     \<lparr>sr_id = fresh_id, sr_topic = topic, sr_payload = payload, sr_recorded_at = now, sr_attempts = 0\<rparr>"

section \<open>Bytes and text\<close>

definition byte :: "char \<Rightarrow> nat" where
  "byte c = of_char c"

definition cont_byte :: "nat \<Rightarrow> bool" where
  "cont_byte b \<longleftrightarrow> 128 \<le> b \<and> b \<le> 191"

text \<open>How many bytes the first one announces, and the range of the second.\<close>

definition utf8_follow :: "nat \<Rightarrow> (nat \<times> nat \<times> nat) option" where
  "utf8_follow b =
     (if b < 128 then Some (0, 0, 0)
      else if 194 \<le> b \<and> b \<le> 223 then Some (1, 128, 191)
      else if b = 224 then Some (2, 160, 191)
      else if 225 \<le> b \<and> b \<le> 239 \<and> b \<noteq> 237 then Some (2, 128, 191)
      else if b = 237 then Some (2, 128, 159)
      else if b = 240 then Some (3, 144, 191)
      else if 241 \<le> b \<and> b \<le> 243 then Some (3, 128, 191)
      else if b = 244 then Some (3, 128, 143)
      else None)"

definition utf8_step :: "nat \<Rightarrow> nat \<Rightarrow> nat \<Rightarrow> nat list \<Rightarrow> bool" where
  "utf8_step n lo hi bs \<longleftrightarrow>
     n \<le> length bs \<and> list_all cont_byte (take n bs) \<and> (0 < n \<longrightarrow> lo \<le> hd bs \<and> hd bs \<le> hi)"

function utf8_valid :: "nat list \<Rightarrow> bool" where
  "utf8_valid [] = True"
| "utf8_valid (b # bs) =
     (case utf8_follow b of
        None \<Rightarrow> False
      | Some (n, lo, hi) \<Rightarrow> utf8_step n lo hi bs \<and> utf8_valid (drop n bs))"
  by pat_completeness auto

termination
  by (relation "measure length") auto

definition is_text :: "string \<Rightarrow> bool" where
  "is_text s \<longleftrightarrow> utf8_valid (map byte s)"

text \<open>Rust's \<open>str::lines\<close>: split at line feeds, drop a carriage return before one and a last empty line.\<close>

definition strip_cr :: "string \<Rightarrow> string" where
  "strip_cr s = (if s \<noteq> [] \<and> last s = CHR 0x0D then butlast s else s)"

definition text_lines :: "string \<Rightarrow> string list" where
  "text_lines s =
     (let ps = split_on CHR 0x0A s in
      map strip_cr (butlast ps) @ (if last ps = [] then [] else [last ps]))"

section \<open>The file\<close>

text \<open>
  The disk holds the spool and the file it is compacted into.  A write either becomes durable, or
  stops after some of its bytes: the call returns an error, or the power is cut and it never
  returns; what is on the disk afterwards is the same.
\<close>

record spool_disk =
  sk_main :: "string option"
  sk_compacting :: "string option"

datatype disk_write = Durable | Torn nat string

text \<open>What precedes the write: making the directory, opening the file.\<close>

datatype disk_open = Opened | DirFails string | OpenFails string

definition the_bytes :: "string option \<Rightarrow> string" where
  "the_bytes f = (case f of None \<Rightarrow> [] | Some s \<Rightarrow> s)"

definition spool_append ::
  "spool_json \<Rightarrow> disk_open \<Rightarrow> disk_write \<Rightarrow> spool_record \<Rightarrow> spool_disk \<Rightarrow> (spool_error + unit) \<times> spool_disk" where
  "spool_append J opn wr r d =
     (case (opn, sj_encode J r) of
        (DirFails e, _) \<Rightarrow> (Inl (SpoolIo e), d)
      | (_, Inl e) \<Rightarrow> (Inl (SpoolEncode e), d)
      | (_, Inr text) \<Rightarrow>
          (case opn of
             OpenFails e \<Rightarrow> (Inl (SpoolIo e), d)
           | _ \<Rightarrow>
               (let line = text @ [CHR 0x0A] in
                case wr of
                  Durable \<Rightarrow> (Inr (), d\<lparr>sk_main := Some (the_bytes (sk_main d) @ line)\<rparr>)
                | Torn n e \<Rightarrow>
                    (Inl (SpoolIo e), d\<lparr>sk_main := Some (the_bytes (sk_main d) @ take n line)\<rparr>))))"

text \<open>A file that is not text cannot be read at all; a line that is not a record is skipped.\<close>

definition read_records :: "spool_json \<Rightarrow> string \<Rightarrow> spool_record list" where
  "read_records J raw =
     List.map_filter (\<lambda>line. if trim line = [] then None
       else case sj_decode J line of Inl _ \<Rightarrow> None | Inr r \<Rightarrow> Some r) (text_lines raw)"

definition spool_load :: "spool_json \<Rightarrow> spool_disk \<Rightarrow> spool_error + spool_record list" where
  "spool_load J d =
     (case sk_main d of
        None \<Rightarrow> Inr []
      | Some raw \<Rightarrow>
          if is_text raw then Inr (read_records J raw)
          else Inl (SpoolIo ''stream did not contain valid UTF-8''))"

definition spool_len :: "spool_json \<Rightarrow> spool_disk \<Rightarrow> spool_error + nat" where
  "spool_len J d = and_then (spool_load J d) (\<lambda>rs. Inr (length rs))"

definition spool_is_empty :: "spool_json \<Rightarrow> spool_disk \<Rightarrow> spool_error + bool" where
  "spool_is_empty J d = and_then (spool_len J d) (\<lambda>n. Inr (n = 0))"

fun encode_lines :: "spool_json \<Rightarrow> spool_record list \<Rightarrow> string + string" where
  "encode_lines J [] = Inr []"
| "encode_lines J (r # rs) =
     and_then (sj_encode J r) (\<lambda>t. and_then (encode_lines J rs) (\<lambda>buf. Inr (t @ [CHR 0x0A] @ buf)))"

text \<open>Compacting: the new content is written aside and renamed over the spool, which is atomic.\<close>

definition remove_acknowledged ::
  "spool_json \<Rightarrow> disk_write \<Rightarrow> disk_open \<Rightarrow> string list \<Rightarrow> spool_disk \<Rightarrow> (spool_error + nat) \<times> spool_disk" where
  "remove_acknowledged J wr ren acked d =
     (case spool_load J d of
        Inl e \<Rightarrow> (Inl e, d)
      | Inr rs \<Rightarrow>
          (let remaining = filter (\<lambda>r. sr_id r \<notin> set acked) rs in
           case encode_lines J remaining of
             Inl e \<Rightarrow> (Inl (SpoolEncode e), d)
           | Inr buf \<Rightarrow>
               (case wr of
                  Torn n e \<Rightarrow> (Inl (SpoolIo e), d\<lparr>sk_compacting := Some (take n buf)\<rparr>)
                | Durable \<Rightarrow>
                    (case ren of
                       OpenFails e \<Rightarrow> (Inl (SpoolIo e), d\<lparr>sk_compacting := Some buf\<rparr>)
                     | DirFails e \<Rightarrow> (Inl (SpoolIo e), d\<lparr>sk_compacting := Some buf\<rparr>)
                     | Opened \<Rightarrow>
                         (Inr (length remaining), d\<lparr>sk_main := Some buf, sk_compacting := None\<rparr>)))))"

section \<open>What the encoding promises\<close>

text \<open>
  The documented behaviour of \<open>serde_json\<close> on a struct: its text is one line of UTF-8 between
  braces that reads back; a part of it that stops early does not read, and neither does such a part
  with the text of a record after it.
\<close>

definition spool_json_laws :: "spool_json \<Rightarrow> bool" where
  "spool_json_laws J \<longleftrightarrow> (\<forall>r t. sj_encode J r = Inr t \<longrightarrow>
     sj_decode J t = Inr r \<and> is_text t \<and> CHR 0x0A \<notin> set t
     \<and> t \<noteq> [] \<and> hd t = CHR 0x7B \<and> last t = CHR 0x7D
     \<and> (\<forall>n < length t. \<not> is_ok (sj_decode J (take n t))
          \<and> (\<forall>r' t'. 0 < n \<longrightarrow> sj_encode J r' = Inr t' \<longrightarrow> \<not> is_ok (sj_decode J (take n t @ t'))))
     \<and> (\<forall>r' t'. sj_encode J r' = Inr t' \<longrightarrow> \<not> is_ok (sj_decode J (t @ t'))))"

section \<open>Reading what was stored\<close>

lemma utf8_append: "utf8_valid xs \<Longrightarrow> utf8_valid (xs @ ys) \<longleftrightarrow> utf8_valid ys"
proof (induction xs rule: utf8_valid.induct)
  case (2 b bs)
  then obtain n lo hi where f: "utf8_follow b = Some (n, lo, hi)"
    by (cases "utf8_follow b") auto
  with 2(2) have st: "utf8_step n lo hi bs" "utf8_valid (drop n bs)"
    by simp_all
  then have "utf8_step n lo hi (bs @ ys)" "drop n (bs @ ys) = drop n bs @ ys"
    by (auto simp: utf8_step_def hd_append)
  then show ?case
    using 2(1) [OF f refl refl st(2)] f by simp
qed simp

lemma is_text_append: "is_text s \<Longrightarrow> is_text (s @ t) \<longleftrightarrow> is_text t"
  by (simp add: is_text_def utf8_append)

lemma is_text_nl [simp]: "is_text (CHR 0x0A # t) \<longleftrightarrow> is_text t"
  by (simp add: is_text_def utf8_follow_def utf8_step_def byte_def)

lemma is_text_empty [simp]: "is_text []"
  by (simp add: is_text_def)

lemma text_lines_line:
  "CHR 0x0A \<notin> set t \<Longrightarrow> text_lines (t @ CHR 0x0A # rest) = strip_cr t # text_lines rest"
  by (simp add: text_lines_def split_on_append Let_def)

lemma text_lines_tail:
  "CHR 0x0A \<notin> set t \<Longrightarrow> text_lines t = (if t = [] then [] else [t])"
  by (simp add: text_lines_def split_on_none Let_def)

lemma braces_not_blank:
  assumes "t \<noteq> []" and "hd t = CHR 0x7B"
  shows "trim t \<noteq> []"
proof -
  obtain u where "t = CHR 0x7B # u"
    using assms by (cases t) auto
  then have "dropWhile is_space t = t" "CHR 0x7B \<in> set (rev t)" "\<not> is_space CHR 0x7B"
    by (simp_all add: is_space_def)
  moreover have "dropWhile is_space (rev t) \<noteq> []"
    using calculation by (metis dropWhile_eq_Nil_conv)
  ultimately show ?thesis
    by (simp add: trim_def)
qed

text \<open>One line of the file, read.\<close>

definition read_line :: "spool_json \<Rightarrow> string \<Rightarrow> spool_record list" where
  "read_line J line =
     (if trim line = [] then [] else case sj_decode J line of Inl _ \<Rightarrow> [] | Inr r \<Rightarrow> [r])"

lemma read_records_lines: "read_records J raw = concat (map (read_line J) (text_lines raw))"
proof -
  have "List.map_filter (\<lambda>line. if trim line = [] then None
      else case sj_decode J line of Inl _ \<Rightarrow> None | Inr r \<Rightarrow> Some r) ls = concat (map (read_line J) ls)" for ls
    by (induction ls) (auto simp: read_line_def map_filter_simps split: sum.splits)
  then show ?thesis
    by (simp add: read_records_def)
qed

lemma encoded_line:
  assumes "spool_json_laws J" and "sj_encode J r = Inr t"
  shows "read_line J t = [r]" and "strip_cr t = t" and "CHR 0x0A \<notin> set t" and "is_text t" and "t \<noteq> []"
proof -
  have t: "sj_decode J t = Inr r" "is_text t" "CHR 0x0A \<notin> set t" "t \<noteq> []" "hd t = CHR 0x7B" "last t = CHR 0x7D"
    using assms by (auto simp: spool_json_laws_def)
  then show "read_line J t = [r]" "strip_cr t = t" "CHR 0x0A \<notin> set t" "is_text t" "t \<noteq> []"
    using braces_not_blank by (auto simp: read_line_def strip_cr_def)
qed

lemma torn_line:
  assumes "spool_json_laws J" and "sj_encode J r = Inr t" and "n < length t"
  shows "read_line J (take n t) = []"
  using assms by (auto simp: spool_json_laws_def read_line_def is_ok_def split: sum.splits)

lemma merged_line:
  assumes "spool_json_laws J" and "sj_encode J r = Inr t" and "sj_encode J r' = Inr t'"
    and "0 < n" and "n \<le> length t"
  shows "read_line J (take n t @ t') = []"
proof -
  have "\<not> is_ok (sj_decode J (take n t @ t'))"
    using assms unfolding spool_json_laws_def by (cases "n = length t") auto
  then show ?thesis
    by (auto simp: read_line_def is_ok_def split: sum.splits)
qed

lemma stored_lines:
  assumes "spool_json_laws J" and "encode_lines J rs = Inr buf"
  shows "read_records J (buf @ rest) = rs @ read_records J rest" and "is_text (buf @ rest) \<longleftrightarrow> is_text rest"
proof -
  have "read_records J (buf @ rest) = rs @ read_records J rest \<and> (is_text (buf @ rest) \<longleftrightarrow> is_text rest)"
    using assms(2)
  proof (induction rs arbitrary: buf)
    case (Cons r rs)
    then obtain t buf' where t: "sj_encode J r = Inr t" "encode_lines J rs = Inr buf'"
        "buf = t @ CHR 0x0A # buf'"
      by (auto simp: outcome)
    note line = encoded_line [OF assms(1) t(1)]
    show ?case
      using Cons.IH [OF t(2)] line
      by (simp add: t(3) read_records_lines text_lines_line is_text_append)
  qed simp
  then show "read_records J (buf @ rest) = rs @ read_records J rest" "is_text (buf @ rest) \<longleftrightarrow> is_text rest"
    by simp_all
qed

lemma encode_lines_append:
  "encode_lines J (rs @ rs') = and_then (encode_lines J rs) (\<lambda>a. and_then (encode_lines J rs') (\<lambda>b. Inr (a @ b)))"
proof (induction rs)
  case Nil
  then show ?case
    by (cases "encode_lines J rs'") simp_all
next
  case (Cons r rs)
  then show ?case
    by (cases "sj_encode J r"; cases "encode_lines J rs"; cases "encode_lines J rs'") simp_all
qed

lemma encode_lines_filter: "encode_lines J rs = Inr buf \<Longrightarrow> \<exists>b. encode_lines J (filter P rs) = Inr b"
  by (induction rs arbitrary: buf) (fastforce simp: outcome)+

section \<open>The queue the spool implements\<close>

text \<open>The spool stores a queue, and nothing else, when its file is the lines of its records.\<close>

definition stores :: "spool_json \<Rightarrow> spool_disk \<Rightarrow> spool_record list \<Rightarrow> bool" where
  "stores J d rs \<longleftrightarrow> encode_lines J rs = Inr (the_bytes (sk_main d))"

lemma load_stores:
  assumes "spool_json_laws J" and "stores J d rs"
  shows "spool_load J d = Inr rs"
proof (cases "sk_main d")
  case None
  then have "rs = []"
    using assms encoded_line(5) [OF assms(1)]
    by (cases rs) (auto simp: stores_def the_bytes_def outcome)
  then show ?thesis
    using None by (simp add: spool_load_def)
next
  case (Some raw)
  then show ?thesis
    using stored_lines [OF assms(1), of rs raw "[]"] assms(2)
    by (simp add: stores_def the_bytes_def spool_load_def read_records_lines text_lines_tail)
qed

text \<open>What a station does to its spool, and what that does to the queue.\<close>

datatype spool_op =
    AppendOp disk_open disk_write spool_record
  | AckOp disk_write disk_open "string list"

fun spool_exec :: "spool_json \<Rightarrow> spool_disk \<Rightarrow> spool_op \<Rightarrow> spool_disk" where
  "spool_exec J d (AppendOp opn wr r) = snd (spool_append J opn wr r d)"
| "spool_exec J d (AckOp wr ren acked) = snd (remove_acknowledged J wr ren acked d)"

fun queue_step :: "spool_json \<Rightarrow> spool_record list \<Rightarrow> spool_op \<Rightarrow> spool_record list" where
  "queue_step J q (AppendOp opn wr r) =
     (if opn = Opened \<and> is_ok (sj_encode J r) then q @ [r] else q)"
| "queue_step J q (AckOp wr ren acked) =
     (if wr = Durable \<and> ren = Opened then filter (\<lambda>r. sr_id r \<notin> set acked) q else q)"

text \<open>Appending was not cut short; compacting may fail or be cut short at any point.\<close>

fun whole :: "spool_op \<Rightarrow> bool" where
  "whole (AppendOp opn wr r) \<longleftrightarrow> opn = Opened \<longrightarrow> wr = Durable"
| "whole (AckOp wr ren acked) \<longleftrightarrow> True"

lemma spool_exec_stores:
  assumes "spool_json_laws J" and "stores J d q" and "whole c"
  shows "stores J (spool_exec J d c) (queue_step J q c)"
proof (cases c)
  case (AppendOp opn wr r)
  then show ?thesis
    using assms(2,3)
    by (cases opn; cases "sj_encode J r")
      (simp_all add: stores_def spool_append_def encode_lines_append the_bytes_def [of "Some _"] Let_def)
next
  case (AckOp wr ren acked)
  obtain b where b: "encode_lines J (filter (\<lambda>r. sr_id r \<notin> set acked) q) = Inr b"
    using assms(2) encode_lines_filter unfolding stores_def by blast
  show ?thesis
    using assms(2) load_stores [OF assms(1,2)] b
    by (cases wr; cases ren)
      (simp_all add: AckOp stores_def remove_acknowledged_def the_bytes_def [of "Some _"] Let_def)
qed

lemma stores_run:
  assumes "spool_json_laws J" and "list_all whole cs"
  shows "stores J (foldl (spool_exec J) \<lparr>sk_main = None, sk_compacting = None\<rparr> cs) (foldl (queue_step J) [] cs)"
proof -
  have "stores J (foldl (spool_exec J) d cs) (foldl (queue_step J) q cs)" if "stores J d q" for d q
    using assms(2) that
    by (induction cs arbitrary: d q) (auto intro: spool_exec_stores [OF assms(1)])
  then show ?thesis
    by (simp add: stores_def the_bytes_def)
qed

text \<open>
  C10: The spool is a queue that survives restarts: after any sequence of appends that returned and
  of compactions that may fail or lose power at any point, loading it gives exactly the records
  that were captured and not acknowledged by a completed compaction, in order.
\<close>

theorem spool_refines_queue:
  assumes "spool_json_laws J" and "list_all whole cs"
  shows "spool_load J (foldl (spool_exec J) \<lparr>sk_main = None, sk_compacting = None\<rparr> cs)
    = Inr (foldl (queue_step J) [] cs)"
  by (rule load_stores [OF assms(1) stores_run [OF assms]])

section \<open>A power cut while appending\<close>

lemma load_torn:
  assumes "spool_json_laws J" and "stores J d q" and "sj_encode J r = Inr t" and "n \<le> length t"
  shows "spool_load J (snd (spool_append J Opened (Torn n e) r d)) =
    (if is_text (take n t) then Inr (if n < length t then q else q @ [r])
     else Inl (SpoolIo ''stream did not contain valid UTF-8''))"
proof -
  have main: "sk_main (snd (spool_append J Opened (Torn n e) r d)) = Some (the_bytes (sk_main d) @ take n t)"
    using assms(3,4) by (simp add: spool_append_def Let_def)
  have nl: "CHR 0x0A \<notin> set (take n t)"
    using encoded_line(3) [OF assms(1,3)] by (meson in_set_takeD)
  have "read_records J (take n t) = (if n < length t then [] else [r])"
    using encoded_line(1,5) [OF assms(1,3)] torn_line [OF assms(1,3), of n] nl assms(4)
    by (cases "n = 0") (auto simp: read_records_lines text_lines_tail)
  then show ?thesis
    using stored_lines [OF assms(1), of q "the_bytes (sk_main d)" "take n t"] assms(2)
    by (simp add: spool_load_def main stores_def)
qed

text \<open>
  A power cut in the middle of an append: the records captured before are all still read, and
  the one being written is read if and only if all of it reached the disk, provided the bytes that
  reached it end at a character boundary; if they stop inside a character, the whole spool becomes
  unreadable.
\<close>

theorem torn_append_on_restart:
  assumes "spool_json_laws J" and "list_all whole cs" and "sj_encode J r = Inr t" and "n \<le> length t"
  shows "spool_load J (spool_exec J (foldl (spool_exec J) \<lparr>sk_main = None, sk_compacting = None\<rparr> cs)
      (AppendOp Opened (Torn n e) r))
    = (if is_text (take n t)
       then Inr (foldl (queue_step J) [] cs @ (if n = length t then [r] else []))
       else Inl (SpoolIo ''stream did not contain valid UTF-8''))"
proof -
  show ?thesis
    using load_torn [OF assms(1) stores_run [OF assms(1,2)] assms(3,4)] assms(4) by simp
qed

lemma load_after_torn:
  assumes "spool_json_laws J" and "stores J d q" and "sj_encode J r = Inr t" and "0 < n" and "n \<le> length t"
    and "is_text (take n t)" and "sj_encode J r' = Inr t'"
  shows "spool_load J (snd (spool_append J Opened Durable r'
      (snd (spool_append J Opened (Torn n e) r d)))) = Inr q"
proof -
  have main: "sk_main (snd (spool_append J Opened Durable r' (snd (spool_append J Opened (Torn n e) r d))))
      = Some (the_bytes (sk_main d) @ (take n t @ t') @ CHR 0x0A # [])"
    using assms(3,5,7) by (simp add: spool_append_def Let_def the_bytes_def [of "Some _"])
  have nl: "CHR 0x0A \<notin> set (take n t @ t')"
    using encoded_line(3) [OF assms(1,3)] encoded_line(3) [OF assms(1,7)] by (auto dest: in_set_takeD)
  have "last t' \<noteq> CHR 0x0D"
    using assms(1,7) by (auto simp: spool_json_laws_def)
  then have "strip_cr (take n t @ t') = take n t @ t'"
    using encoded_line(5) [OF assms(1,7)] by (simp add: strip_cr_def)
  then have "read_records J ((take n t @ t') @ CHR 0x0A # []) = []"
    using merged_line [OF assms(1,3,7,4,5)] nl
    by (simp add: read_records_lines text_lines_line text_lines_tail del: append_assoc)
  moreover have "is_text ((take n t @ t') @ CHR 0x0A # [])"
    using assms(6) encoded_line(4) [OF assms(1,7)] by (simp add: is_text_append)
  ultimately show ?thesis
    using stored_lines [OF assms(1), of q "the_bytes (sk_main d)" "(take n t @ t') @ CHR 0x0A # []"] assms(2)
    by (simp add: spool_load_def main stores_def)
qed

text \<open>
  C40: The record captured after a torn one is lost: once a power cut has left part of a line, the
  next append reports success, but its line is glued to the fragment, and neither record is ever
  loaded, not even one whose line had reached the disk up to its line feed.
\<close>

theorem append_after_torn_write_is_lost:
  assumes "spool_json_laws J" and "list_all whole cs" and "sj_encode J r = Inr t"
    and "0 < n" and "n \<le> length t" and "is_text (take n t)" and "sj_encode J r' = Inr t'"
  shows "let d = spool_exec J (foldl (spool_exec J) \<lparr>sk_main = None, sk_compacting = None\<rparr> cs)
        (AppendOp Opened (Torn n e) r) in
      fst (spool_append J Opened Durable r' d) = Inr ()
      \<and> spool_load J (snd (spool_append J Opened Durable r' d)) = Inr (foldl (queue_step J) [] cs)"
proof -
  from load_after_torn [OF assms(1) stores_run [OF assms(1,2)] assms(3-7)] show ?thesis
    using assms(7) by (simp add: Let_def spool_append_def)
qed

section \<open>The hypotheses are satisfiable\<close>

definition demo_record :: "string \<Rightarrow> spool_record" where
  "demo_record i = record_new i 0 ''unit.event'' JNull"

text \<open>Two records, one of them with a character of two bytes.\<close>

definition demo_spool_json :: spool_json where
  "demo_spool_json = \<lparr>
     sj_encode = (\<lambda>r. if r = demo_record ''a'' then Inr ''{a}''
        else if r = demo_record ''b'' then Inr [CHR 0x7B, CHR 0xC3, CHR 0xA9, CHR 0x7D] else Inl ''no text''),
     sj_decode = (\<lambda>s. if s = ''{a}'' then Inr (demo_record ''a'')
        else if s = [CHR 0x7B, CHR 0xC3, CHR 0xA9, CHR 0x7D] then Inr (demo_record ''b'') else Inl ''EOF'')\<rparr>"

lemma demo_records: "demo_record ''b'' \<noteq> demo_record ''a''"
  by (simp add: demo_record_def record_new_def)

lemma demo_id: "sr_id (demo_record i) = i"
  by (simp add: demo_record_def record_new_def)

lemma demo_text: "is_text ''{a}''" "is_text [CHR 0x7B, CHR 0xC3, CHR 0xA9, CHR 0x7D]"
  by code_simp+

lemma demo_spool_laws: "spool_json_laws demo_spool_json"
  unfolding spool_json_laws_def
  using demo_text by (auto simp: demo_spool_json_def demo_records is_ok_def numeral_2_eq_2
      numeral_3_eq_3 less_Suc_eq split: if_splits)

lemma demo_encodes:
  "sj_encode demo_spool_json (demo_record ''a'') = Inr ''{a}''"
  "sj_encode demo_spool_json (demo_record ''b'') = Inr [CHR 0x7B, CHR 0xC3, CHR 0xA9, CHR 0x7D]"
  by (simp_all add: demo_spool_json_def demo_records)

lemma spool_refines_queue_witness:
  "spool_load demo_spool_json (foldl (spool_exec demo_spool_json) \<lparr>sk_main = None, sk_compacting = None\<rparr>
      [AppendOp Opened Durable (demo_record ''a''), AppendOp Opened Durable (demo_record ''b''),
       AckOp (Torn 3 ''power'') Opened [''a''], AckOp Durable Opened [''a'']]) = Inr [demo_record ''b'']"
  using spool_refines_queue [OF demo_spool_laws, of "[AppendOp Opened Durable (demo_record ''a''),
      AppendOp Opened Durable (demo_record ''b''), AckOp (Torn 3 ''power'') Opened [''a''],
      AckOp Durable Opened [''a'']]"]
  by (simp add: demo_encodes demo_id)

lemma torn_append_on_restart_witness:
  "spool_load demo_spool_json (spool_exec demo_spool_json (foldl (spool_exec demo_spool_json)
      \<lparr>sk_main = None, sk_compacting = None\<rparr> [AppendOp Opened Durable (demo_record ''a'')])
      (AppendOp Opened (Torn 2 ''power'') (demo_record ''b'')))
    = Inl (SpoolIo ''stream did not contain valid UTF-8'')"
proof -
  have "\<not> is_text [CHR 0x7B, CHR 0xC3]"
    by code_simp
  then show ?thesis
    using torn_append_on_restart [OF demo_spool_laws _ demo_encodes(2),
        of "[AppendOp Opened Durable (demo_record ''a'')]" 2 "''power''"] by simp
qed

lemma append_after_torn_write_is_lost_witness:
  "spool_load demo_spool_json (snd (spool_append demo_spool_json Opened Durable (demo_record ''b'')
      (spool_exec demo_spool_json \<lparr>sk_main = None, sk_compacting = None\<rparr>
        (AppendOp Opened (Torn 3 ''power'') (demo_record ''a''))))) = Inr []"
  using append_after_torn_write_is_lost [OF demo_spool_laws, of "[]", OF _ demo_encodes(1) _ _ _ demo_encodes(2),
      of 3 "''power''"] demo_text
  by (simp add: Let_def)

end
