(* ===== verification/Store.thy ===== *)
theory Store
  imports UnitModel HashChain "HOL-Library.Multiset"
begin

text \<open>
  The evidence store: \<open>crates/trace-store/src/repo.rs\<close>, \<open>query.rs\<close> and \<open>error.rs\<close>.  A table is
  the list of its rows; a statement is what its SQL text in the source says, restricted to the
  transaction's tenant; any statement may fail, and then the transaction has done nothing.  The
  conversion of an instant to the database's precision, \<open>pg\<close>, is a parameter.
\<close>

section \<open>Errors\<close>

datatype db_error = DbMessage string | DbOther string

datatype store_error =
    SE_Database db_error
  | SE_Migration string
  | SE_Domain core_error
  | SE_Decode string string string
  | SE_NotFound string string
  | SE_AppendOnly string

definition text_contains :: "string \<Rightarrow> string \<Rightarrow> bool" where
  "text_contains pat s \<longleftrightarrow> list_ex (prefix pat) (suffixes s)"

fun is_append_only_violation :: "store_error \<Rightarrow> bool" where
  "is_append_only_violation (SE_AppendOnly _) = True"
| "is_append_only_violation (SE_Database (DbMessage m)) =
     (text_contains ''append-only'' m \<or> text_contains ''is retired'' m)"
| "is_append_only_violation _ = False"

section \<open>Rows\<close>

record unit_row =
  ur_id :: row_id
  ur_uid :: string
  ur_tenant :: row_id
  ur_plant :: row_id
  ur_product_revision :: row_id
  ur_job_card :: row_id
  ur_serial :: string
  ur_state :: string
  ur_current_operation :: "u32 option"
  ur_index_in_job :: i64
  ur_created_at :: utc

record event_row =
  er_id :: string
  er_tenant :: row_id
  er_plant :: row_id
  er_unit :: row_id
  er_kind :: string
  er_operation_seq :: "u32 option"
  er_station :: "row_id option"
  er_operator :: "row_id option"
  er_detail :: "string option"
  er_recorded_at :: utc
  er_received_at :: utc
  er_clock_skewed :: bool
  er_link :: chain_link

text \<open>A value is stored in a column of its type, beside the name of the type.\<close>

record value_columns =
  vc_datatype :: string
  vc_num :: "f64 option"
  vc_text :: "string option"
  vc_bool :: "bool option"

record measurement_row =
  mw_id :: string
  mw_tenant :: row_id
  mw_plant :: row_id
  mw_unit :: row_id
  mw_dcp :: row_id
  mw_operation_seq :: u32
  mw_station :: "row_id option"
  mw_operator :: "row_id option"
  mw_device :: "row_id option"
  mw_value :: value_columns
  mw_verdict :: string
  mw_source :: string
  mw_raw_payload :: "string option"
  mw_recorded_at :: utc
  mw_received_at :: utc
  mw_clock_skewed :: bool
  mw_link :: chain_link
  mw_supersedes :: "string option"
  mw_supersede_reason :: "string option"

record genealogy_row =
  gr_id :: row_id
  gr_tenant :: row_id
  gr_plant :: row_id
  gr_parent :: row_id
  gr_bom_line :: "row_id option"
  gr_child :: "row_id option"
  gr_lot :: "string option"
  gr_qty :: "f64 option"
  gr_operation_seq :: u32
  gr_recorded_at :: utc
  gr_received_at :: utc

record store_db =
  db_units :: "unit_row list"
  db_events :: "event_row list"
  db_measurements :: "measurement_row list"
  db_links :: "genealogy_row list"

section \<open>Values in columns\<close>

fun columns_of_value :: "val \<Rightarrow> value_columns" where
  "columns_of_value (V_Numeric n) = \<lparr>vc_datatype = ''NUMERIC'', vc_num = Some n, vc_text = None, vc_bool = None\<rparr>"
| "columns_of_value (V_Text s) = \<lparr>vc_datatype = ''TEXT'', vc_num = None, vc_text = Some s, vc_bool = None\<rparr>"
| "columns_of_value (V_Boolean b) = \<lparr>vc_datatype = ''BOOLEAN'', vc_num = None, vc_text = None, vc_bool = Some b\<rparr>"
| "columns_of_value (V_Barcode s) = \<lparr>vc_datatype = ''BARCODE'', vc_num = None, vc_text = Some s, vc_bool = None\<rparr>"

definition null_column :: "string \<Rightarrow> string \<Rightarrow> store_error" where
  "null_column datatype field = SE_Decode ''measurement'' field (''null column for datatype '' @ datatype)"

definition value_from_columns :: "value_columns \<Rightarrow> store_error + val" where
  "value_from_columns c =
     (let dt = vc_datatype c;
          need = (\<lambda>field v wrap. case v of None \<Rightarrow> Inl (null_column dt field) | Some a \<Rightarrow> Inr (wrap a))
      in if dt = ''NUMERIC'' then (case vc_num c of None \<Rightarrow> Inl (null_column dt ''num_value'') | Some n \<Rightarrow> Inr (V_Numeric n))
         else if dt = ''TEXT'' then need ''text_value'' (vc_text c) V_Text
         else if dt = ''BOOLEAN'' then (case vc_bool c of None \<Rightarrow> Inl (null_column dt ''bool_value'') | Some b \<Rightarrow> Inr (V_Boolean b))
         else if dt = ''BARCODE'' then need ''text_value'' (vc_text c) V_Barcode
         else Inl (SE_Decode ''measurement'' ''datatype'' (''unknown datatype '' @ dt)))"

section \<open>The hash chain across the two evidence tables\<close>

fun kind_name :: "event_kind \<Rightarrow> string" where
  "kind_name EvBorn = ''BORN''"
| "kind_name EvScanned = ''SCANNED''"
| "kind_name EvOperationStarted = ''OPERATION_STARTED''"
| "kind_name EvOperationCompleted = ''OPERATION_COMPLETED''"
| "kind_name EvGateFailed = ''GATE_FAILED''"
| "kind_name EvMarked = ''MARKED''"
| "kind_name EvMarkVerified = ''MARK_VERIFIED''"
| "kind_name EvComponentConsumed = ''COMPONENT_CONSUMED''"
| "kind_name EvHeld = ''HELD''"
| "kind_name EvQuarantined = ''QUARANTINED''"
| "kind_name EvReworkStarted = ''REWORK_STARTED''"
| "kind_name EvScrapped = ''SCRAPPED''"
| "kind_name EvCompleted = ''COMPLETED''"
| "kind_name EvShipped = ''SHIPPED''"
| "kind_name EvCorrection = ''CORRECTION''"

record new_event =
  ne_unit :: row_id
  ne_plant :: row_id
  ne_kind :: event_kind
  ne_operation_seq :: "u32 option"
  ne_station :: "row_id option"
  ne_operator :: "row_id option"
  ne_detail :: "string option"
  ne_stamps :: stamps

record new_measurement =
  nm_unit :: row_id
  nm_plant :: row_id
  nm_dcp :: row_id
  nm_operation_seq :: u32
  nm_station :: "row_id option"
  nm_operator :: "row_id option"
  nm_device :: "row_id option"
  nm_value :: val
  nm_verdict :: verdict
  nm_source :: value_source
  nm_raw_payload :: "string option"
  nm_stamps :: stamps
  nm_supersedes :: "measurement_id option"
  nm_supersede_reason :: "string option"

text \<open>The statements of one call, numbered: \<open>fails k\<close> is the error of the \<open>k\<close>-th, if any.\<close>

type_synonym faults = "nat \<Rightarrow> db_error option"

definition statement :: "faults \<Rightarrow> nat \<Rightarrow> 'a \<Rightarrow> store_error + 'a" where
  "statement fails k result = (case fails k of Some e \<Rightarrow> Inl (SE_Database e) | None \<Rightarrow> Inr result)"

definition visible_units :: "row_id \<Rightarrow> store_db \<Rightarrow> unit_row list" where
  "visible_units tenant db = filter (\<lambda>u. ur_tenant u = tenant) (db_units db)"

definition lock_unit :: "faults \<Rightarrow> row_id \<Rightarrow> row_id \<Rightarrow> store_db \<Rightarrow> store_error + unit" where
  "lock_unit fails tenant u db =
     and_then (statement fails 0 (list_ex (\<lambda>r. ur_id r = u) (visible_units tenant db)))
       (\<lambda>found. if found then Inr () else Inl (SE_NotFound ''unit'' (show_int u)))"

definition chain_rows :: "row_id \<Rightarrow> row_id \<Rightarrow> store_db \<Rightarrow> chain_link list" where
  "chain_rows tenant u db =
     map er_link (filter (\<lambda>e. er_tenant e = tenant \<and> er_unit e = u) (db_events db))
     @ map mw_link (filter (\<lambda>m. mw_tenant m = tenant \<and> mw_unit m = u) (db_measurements db))"

text \<open>The sequence number is stored as a signed integer, by which the rows are ordered.\<close>

definition ordered_rows :: "row_id \<Rightarrow> row_id \<Rightarrow> store_db \<Rightarrow> chain_link list" where
  "ordered_rows tenant u db = sort_key (\<lambda>l. sint (cl_seq l)) (chain_rows tenant u db)"

definition chain_tail :: "faults \<Rightarrow> row_id \<Rightarrow> row_id \<Rightarrow> store_db \<Rightarrow> store_error + chain_link option" where
  "chain_tail fails tenant u db = statement fails 1 (last_option (ordered_rows tenant u db))"

definition event_probe :: "event_id \<Rightarrow> new_event \<Rightarrow> unit_event" where
  "event_probe fresh new =
     \<lparr>ev_id = fresh, ev_unit_id = ne_unit new, ev_kind = ne_kind new,
      ev_operation_seq = ne_operation_seq new, ev_station_id = ne_station new,
      ev_operator_id = ne_operator new, ev_stamps = ne_stamps new, ev_detail = ne_detail new,
      ev_chain_seq = 0, ev_prev_hash = [], ev_row_hash = []\<rparr>"

definition event_row_of ::
  "externals \<Rightarrow> (utc \<Rightarrow> utc) \<Rightarrow> event_id \<Rightarrow> row_id \<Rightarrow> new_event \<Rightarrow> chain_link \<Rightarrow> event_row" where
  "event_row_of x pg fresh tenant new link =
     \<lparr>er_id = event_id_display x fresh, er_tenant = tenant, er_plant = ne_plant new,
      er_unit = ne_unit new, er_kind = kind_name (ne_kind new),
      er_operation_seq = ne_operation_seq new, er_station = ne_station new,
      er_operator = ne_operator new, er_detail = ne_detail new,
      er_recorded_at = pg (recorded_at (ne_stamps new)),
      er_received_at = pg (received_at (ne_stamps new)),
      er_clock_skewed = is_skewed_default x (ne_stamps new), er_link = link\<rparr>"

definition append_event ::
  "externals \<Rightarrow> (string \<Rightarrow> string) \<Rightarrow> (utc \<Rightarrow> utc) \<Rightarrow> faults \<Rightarrow> event_id \<Rightarrow> row_id \<Rightarrow> new_event
     \<Rightarrow> store_db \<Rightarrow> (store_error + chain_link) \<times> store_db" where
  "append_event x H pg fails fresh tenant new db =
     (case and_then (lock_unit fails tenant (ne_unit new) db) (\<lambda>_.
        and_then (chain_tail fails tenant (ne_unit new) db) (\<lambda>tail.
          statement fails 2 (append_link H tail (event_payload x (event_probe fresh new))))) of
        Inl e \<Rightarrow> (Inl e, db)
      | Inr link \<Rightarrow>
          (Inr link, db\<lparr>db_events := db_events db @ [event_row_of x pg fresh tenant new link]\<rparr>))"

definition measurement_probe :: "measurement_id \<Rightarrow> new_measurement \<Rightarrow> measurement" where
  "measurement_probe fresh new =
     \<lparr>ms_id = fresh, ms_unit_id = nm_unit new, ms_dcp_id = nm_dcp new,
      ms_operation_seq = nm_operation_seq new, ms_value = nm_value new, ms_verdict = nm_verdict new,
      ms_source = nm_source new, ms_device_id = nm_device new, ms_raw_payload = nm_raw_payload new,
      ms_operator_id = nm_operator new, ms_stamps = nm_stamps new, ms_chain_seq = 0,
      ms_prev_hash = [], ms_row_hash = [], ms_supersedes = nm_supersedes new,
      ms_supersede_reason = nm_supersede_reason new\<rparr>"

definition measurement_row_of ::
  "externals \<Rightarrow> (utc \<Rightarrow> utc) \<Rightarrow> measurement_id \<Rightarrow> row_id \<Rightarrow> new_measurement \<Rightarrow> chain_link
     \<Rightarrow> measurement_row" where
  "measurement_row_of x pg fresh tenant new link =
     \<lparr>mw_id = measurement_id_display x fresh, mw_tenant = tenant, mw_plant = nm_plant new,
      mw_unit = nm_unit new, mw_dcp = nm_dcp new, mw_operation_seq = nm_operation_seq new,
      mw_station = nm_station new, mw_operator = nm_operator new, mw_device = nm_device new,
      mw_value = columns_of_value (nm_value new),
      mw_verdict = (if is_pass (nm_verdict new) then ''PASS'' else ''FAIL''),
      mw_source = (case nm_source new of Src_Device \<Rightarrow> ''DEVICE'' | Src_Manual \<Rightarrow> ''MANUAL''),
      mw_raw_payload = nm_raw_payload new,
      mw_recorded_at = pg (recorded_at (nm_stamps new)),
      mw_received_at = pg (received_at (nm_stamps new)),
      mw_clock_skewed = is_skewed_default x (nm_stamps new), mw_link = link,
      mw_supersedes = map_option (measurement_id_display x) (nm_supersedes new),
      mw_supersede_reason = nm_supersede_reason new\<rparr>"

definition append_measurement ::
  "externals \<Rightarrow> (string \<Rightarrow> string) \<Rightarrow> (utc \<Rightarrow> utc) \<Rightarrow> faults \<Rightarrow> measurement_id \<Rightarrow> row_id
     \<Rightarrow> new_measurement \<Rightarrow> store_db \<Rightarrow> (store_error + chain_link) \<times> store_db" where
  "append_measurement x H pg fails fresh tenant new db =
     (case and_then (lock_unit fails tenant (nm_unit new) db) (\<lambda>_.
        and_then (chain_tail fails tenant (nm_unit new) db) (\<lambda>tail.
          statement fails 2 (append_link H tail (measurement_payload x (measurement_probe fresh new))))) of
        Inl e \<Rightarrow> (Inl e, db)
      | Inr link \<Rightarrow>
          (Inr link, db\<lparr>db_measurements := db_measurements db
             @ [measurement_row_of x pg fresh tenant new link]\<rparr>))"

text \<open>The check that an auditor is shown: it follows the stored hashes only.\<close>

fun follow_links :: "string \<Rightarrow> chain_link list \<Rightarrow> core_error + unit" where
  "follow_links expected_prev [] = Inr ()"
| "follow_links expected_prev (r # rs) =
     (if cl_prev_hash r \<noteq> expected_prev
      then Inl (HashChainBroken (cl_seq r) expected_prev (cl_prev_hash r))
      else follow_links (cl_row_hash r) rs)"

definition verify_unit_chain :: "faults \<Rightarrow> row_id \<Rightarrow> row_id \<Rightarrow> store_db \<Rightarrow> store_error + nat" where
  "verify_unit_chain fails tenant u db =
     and_then (statement fails 0 (ordered_rows tenant u db)) (\<lambda>rows.
       case follow_links GENESIS rows of
         Inl e \<Rightarrow> Inl (SE_Domain e)
       | Inr _ \<Rightarrow> Inr (length rows))"

section \<open>The store keeps one chain per unit\<close>

text \<open>What is done to the evidence tables, and the payload each such step hashes.\<close>

datatype store_op =
    EventOp faults event_id row_id new_event
  | MeasurementOp faults measurement_id row_id new_measurement

fun op_owner :: "store_op \<Rightarrow> row_id \<times> row_id" where
  "op_owner (EventOp _ _ tenant new) = (tenant, ne_unit new)"
| "op_owner (MeasurementOp _ _ tenant new) = (tenant, nm_unit new)"

fun op_payload :: "externals \<Rightarrow> store_op \<Rightarrow> string" where
  "op_payload x (EventOp _ fresh _ new) = event_payload x (event_probe fresh new)"
| "op_payload x (MeasurementOp _ fresh _ new) = measurement_payload x (measurement_probe fresh new)"

fun op_faults :: "store_op \<Rightarrow> faults" where
  "op_faults (EventOp fails _ _ _) = fails"
| "op_faults (MeasurementOp fails _ _ _) = fails"

fun store_exec ::
  "externals \<Rightarrow> (string \<Rightarrow> string) \<Rightarrow> (utc \<Rightarrow> utc) \<Rightarrow> store_db \<Rightarrow> store_op \<Rightarrow> store_db" where
  "store_exec x H pg db (EventOp fails fresh tenant new) =
     snd (append_event x H pg fails fresh tenant new db)"
| "store_exec x H pg db (MeasurementOp fails fresh tenant new) =
     snd (append_measurement x H pg fails fresh tenant new db)"

text \<open>The abstract store: a log of payloads for each unit of each tenant.\<close>

definition op_succeeds :: "unit_row list \<Rightarrow> store_op \<Rightarrow> bool" where
  "op_succeeds us c \<longleftrightarrow>
     op_faults c 0 = None \<and> op_faults c 1 = None \<and> op_faults c 2 = None
     \<and> (\<exists>r \<in> set us. ur_tenant r = fst (op_owner c) \<and> ur_id r = snd (op_owner c))"

definition log_step ::
  "externals \<Rightarrow> unit_row list \<Rightarrow> (row_id \<times> row_id \<Rightarrow> string list) \<Rightarrow> store_op
     \<Rightarrow> (row_id \<times> row_id \<Rightarrow> string list)" where
  "log_step x us lg c =
     (if op_succeeds us c then lg(op_owner c := lg (op_owner c) @ [op_payload x c]) else lg)"

lemma seq_key_append_all:
  assumes "length ps < 2 ^ 63"
  shows "map (\<lambda>l. sint (cl_seq l)) (append_all H ps) = map int [0..<length ps]"
proof -
  have "map (\<lambda>l. sint (cl_seq l)) (append_all H ps) = map sint (map cl_seq (append_all H ps))"
    by simp
  also have "\<dots> = map (\<lambda>i. sint (of_nat i :: u64)) [0..<length ps]"
    using append_all_numbered [of H ps] by simp
  also have "\<dots> = map int [0..<length ps]"
    using assms by (simp add: signed_of_nat signed_take_bit_int_eq_self)
  finally show ?thesis .
qed

lemma sort_chain:
  assumes "length ps < 2 ^ 63" and "mset rows = mset (append_all H ps)"
  shows "sort_key (\<lambda>l. sint (cl_seq l)) rows = append_all H ps"
proof (rule sort_key_inj_key_eq [OF assms(2)])
  have "distinct (map (\<lambda>l. sint (cl_seq l)) (append_all H ps))"
    using seq_key_append_all [OF assms(1)] by (simp add: distinct_map)
  moreover have "set rows = set (append_all H ps)"
    using assms(2) by (metis set_mset_mset)
  ultimately show "inj_on (\<lambda>l. sint (cl_seq l)) (set rows)"
    by (simp add: distinct_map)
  show "sorted (map (\<lambda>l. sint (cl_seq l)) (append_all H ps))"
    using seq_key_append_all [OF assms(1)] by (simp add: sorted_iff_nth_mono)
qed

definition holds_log :: "(string \<Rightarrow> string) \<Rightarrow> store_db \<Rightarrow> (row_id \<times> row_id \<Rightarrow> string list) \<Rightarrow> bool" where
  "holds_log H db lg \<longleftrightarrow>
     (\<forall>t u. mset (chain_rows t u db) = mset (append_all H (lg (t, u))))"

lemma statement_ok: "statement fails k r = Inr a \<longleftrightarrow> fails k = None \<and> a = r"
  by (auto simp: statement_def split: option.splits)

lemma lock_unit_ok:
  "lock_unit fails t u db = Inr () \<longleftrightarrow>
     fails 0 = None \<and> (\<exists>r \<in> set (db_units db). ur_tenant r = t \<and> ur_id r = u)"
  by (auto simp: lock_unit_def statement_def visible_units_def list_ex_iff split: option.splits)

lemma append_event_cases:
  "append_event x H pg fails fresh t new db =
     (if op_succeeds (db_units db) (EventOp fails fresh t new)
      then let link = append_link H (last_option (ordered_rows t (ne_unit new) db))
                 (event_payload x (event_probe fresh new)) in
        (Inr link, db\<lparr>db_events := db_events db @ [event_row_of x pg fresh t new link]\<rparr>)
      else (fst (append_event x H pg fails fresh t new db), db))"
  using lock_unit_ok [of fails t "ne_unit new" db]
  by (cases "lock_unit fails t (ne_unit new) db")
    (auto simp: append_event_def op_succeeds_def chain_tail_def statement_def Let_def split: option.splits)

lemma append_measurement_cases:
  "append_measurement x H pg fails fresh t new db =
     (if op_succeeds (db_units db) (MeasurementOp fails fresh t new)
      then let link = append_link H (last_option (ordered_rows t (nm_unit new) db))
                 (measurement_payload x (measurement_probe fresh new)) in
        (Inr link, db\<lparr>db_measurements := db_measurements db @ [measurement_row_of x pg fresh t new link]\<rparr>)
      else (fst (append_measurement x H pg fails fresh t new db), db))"
  using lock_unit_ok [of fails t "nm_unit new" db]
  by (cases "lock_unit fails t (nm_unit new) db")
    (auto simp: append_measurement_def op_succeeds_def chain_tail_def statement_def Let_def split: option.splits)

definition next_link :: "externals \<Rightarrow> (string \<Rightarrow> string) \<Rightarrow> store_db \<Rightarrow> store_op \<Rightarrow> chain_link" where
  "next_link x H db c =
     append_link H (last_option (ordered_rows (fst (op_owner c)) (snd (op_owner c)) db)) (op_payload x c)"

lemma store_exec_units [simp]: "db_units (store_exec x H pg db c) = db_units db"
proof (cases c)
  case (EventOp fails fresh t new)
  then show ?thesis
    using append_event_cases [of x H pg fails fresh t new db]
    by (auto simp: Let_def split: if_splits) (metis snd_conv)+
next
  case (MeasurementOp fails fresh t new)
  then show ?thesis
    using append_measurement_cases [of x H pg fails fresh t new db]
    by (auto simp: Let_def split: if_splits) (metis snd_conv)+
qed

lemma store_exec_rows:
  "mset (chain_rows t u (store_exec x H pg db c)) =
     mset (chain_rows t u db)
     + (if op_succeeds (db_units db) c \<and> op_owner c = (t, u) then {#next_link x H db c#} else {#})"
proof (cases c)
  case (EventOp fails fresh t' new)
  show ?thesis
  proof (cases "op_succeeds (db_units db) c")
    case True
    then show ?thesis
      using append_event_cases [of x H pg fails fresh t' new db]
      by (auto simp: EventOp Let_def chain_rows_def event_row_of_def next_link_def)
  next
    case False
    then have "snd (append_event x H pg fails fresh t' new db) = db"
      using append_event_cases [of x H pg fails fresh t' new db] by (metis EventOp snd_conv)
    then show ?thesis
      using False by (simp add: EventOp)
  qed
next
  case (MeasurementOp fails fresh t' new)
  show ?thesis
  proof (cases "op_succeeds (db_units db) c")
    case True
    then show ?thesis
      using append_measurement_cases [of x H pg fails fresh t' new db]
      by (auto simp: MeasurementOp Let_def chain_rows_def measurement_row_of_def next_link_def)
  next
    case False
    then have "snd (append_measurement x H pg fails fresh t' new db) = db"
      using append_measurement_cases [of x H pg fails fresh t' new db] by (metis MeasurementOp snd_conv)
    then show ?thesis
      using False by (simp add: MeasurementOp)
  qed
qed

lemma ordered_of_log:
  "holds_log H db lg \<Longrightarrow> length (lg (t, u)) < 2 ^ 63 \<Longrightarrow> ordered_rows t u db = append_all H (lg (t, u))"
  unfolding ordered_rows_def holds_log_def by (rule sort_chain) auto

lemma store_exec_log:
  assumes "holds_log H db lg" and "\<forall>k. length (lg k) < 2 ^ 63"
  shows "holds_log H (store_exec x H pg db c) (log_step x (db_units db) lg c)"
proof (cases "op_succeeds (db_units db) c")
  case True
  obtain t u where k: "op_owner c = (t, u)"
    by fastforce
  have "ordered_rows t u db = append_all H (lg (t, u))"
    using ordered_of_log [OF assms(1)] assms(2) by blast
  then have "next_link x H db c = append_link H (last_option (append_all H (lg (t, u)))) (op_payload x c)"
    by (simp add: next_link_def k)
  then show ?thesis
    using assms(1) True by (auto simp: holds_log_def log_step_def k store_exec_rows)
next
  case False
  then show ?thesis
    using assms(1) by (simp add: holds_log_def log_step_def store_exec_rows)
qed

definition store_run ::
  "externals \<Rightarrow> (string \<Rightarrow> string) \<Rightarrow> (utc \<Rightarrow> utc) \<Rightarrow> store_db \<Rightarrow> store_op list \<Rightarrow> store_db" where
  "store_run x H pg db cs = foldl (store_exec x H pg) db cs"

definition log_run ::
  "externals \<Rightarrow> unit_row list \<Rightarrow> (row_id \<times> row_id \<Rightarrow> string list) \<Rightarrow> store_op list
     \<Rightarrow> (row_id \<times> row_id \<Rightarrow> string list)" where
  "log_run x us lg cs = foldl (log_step x us) lg cs"

lemma log_step_length: "length (log_step x us lg c k) \<le> Suc (length (lg k))"
  by (simp add: log_step_def)

lemma store_run_log:
  assumes "holds_log H db lg" and "\<forall>k. length (lg k) + length cs < 2 ^ 63"
  shows "holds_log H (store_run x H pg db cs) (log_run x (db_units db) lg cs)
    \<and> (\<forall>k. length (log_run x (db_units db) lg cs k) \<le> length (lg k) + length cs)"
  using assms
proof (induction cs arbitrary: db lg)
  case Nil
  then show ?case
    by (simp add: store_run_def log_run_def)
next
  case (Cons c cs)
  let ?lg = "log_step x (db_units db) lg c"
  have "holds_log H (store_exec x H pg db c) ?lg"
    using Cons.prems add_lessD1 by (intro store_exec_log) blast+
  moreover have len: "length (?lg k) + length cs \<le> length (lg k) + length (c # cs)" for k
    using log_step_length [of x "db_units db" lg c k] by simp
  then have "\<forall>k. length (?lg k) + length cs < 2 ^ 63"
    using Cons.prems(2) le_less_trans by blast
  ultimately have "holds_log H (store_run x H pg (store_exec x H pg db c) cs) (log_run x (db_units db) ?lg cs)
      \<and> (\<forall>k. length (log_run x (db_units db) ?lg cs k) \<le> length (?lg k) + length cs)"
    using Cons.IH [of "store_exec x H pg db c" ?lg] store_exec_units by metis
  then show ?case
    using order_trans [OF _ len] by (simp add: store_run_def log_run_def)
qed

lemma follow_append_all: "follow_links GENESIS (append_all H ps) = Inr ()"
proof -
  have snoc: "follow_links prev (ls @ [l]) = Inr () \<longleftrightarrow> follow_links prev ls = Inr () \<and> cl_prev_hash l = tip prev ls"
    for prev ls l
    by (induction ls arbitrary: prev) auto
  show ?thesis
    by (induction ps rule: rev_induct) (simp_all add: snoc append_link_fields)
qed

definition no_evidence :: "unit_row list \<Rightarrow> store_db" where
  "no_evidence us = \<lparr>db_units = us, db_events = [], db_measurements = [], db_links = []\<rparr>"

lemma no_evidence_log: "holds_log H (no_evidence us) (\<lambda>_. [])"
  by (simp add: holds_log_def no_evidence_def chain_rows_def)

lemma run_ordered:
  assumes "length cs < 2 ^ 63"
  shows "ordered_rows t u (store_run x H pg (no_evidence us) cs)
    = append_all H (log_run x us (\<lambda>_. []) cs (t, u))"
proof -
  have run: "holds_log H (store_run x H pg (no_evidence us) cs) (log_run x us (\<lambda>_. []) cs)"
      "length (log_run x us (\<lambda>_. []) cs (t, u)) \<le> length cs"
    using store_run_log [where cs = cs and x = x and pg = pg, OF no_evidence_log [of H us]] assms
    by (simp_all add: no_evidence_def)
  then show ?thesis
    using assms by (intro ordered_of_log) auto
qed

text \<open>
  C1: One hash chain per unit across both evidence tables: after any interleaving of event and
  measurement appends by any tenants to any units, with any statements failing, the stored rows of
  a unit, in the order of their sequence numbers, are exactly the chain of the payloads that were
  appended to it with success, in order; that chain verifies, and so does the stored one.
\<close>

theorem store_refines_chain:
  assumes "length cs < 2 ^ 63"
  shows "ordered_rows t u (store_run x H pg (no_evidence us) cs)
      = append_all H (log_run x us (\<lambda>_. []) cs (t, u))
    \<and> verify H (ordered_rows t u (store_run x H pg (no_evidence us) cs)) (log_run x us (\<lambda>_. []) cs (t, u)) = Inr ()
    \<and> verify_unit_chain (\<lambda>_. None) t u (store_run x H pg (no_evidence us) cs)
      = Inr (length (log_run x us (\<lambda>_. []) cs (t, u)))"
  using run_ordered [OF assms, of t u x H pg us]
  by (simp add: verify_append_all verify_unit_chain_def statement_def follow_append_all)

text \<open>A plant with one unit, measured and observed by two stations while statements fail.\<close>

definition demo_unit_row :: unit_row where
  "demo_unit_row = \<lparr>ur_id = 7, ur_uid = ''U7'', ur_tenant = 1, ur_plant = 1, ur_product_revision = 1,
     ur_job_card = 1, ur_serial = ''S7'', ur_state = ''BORN'', ur_current_operation = None,
     ur_index_in_job = 0, ur_created_at = 0\<rparr>"

definition demo_new_event :: new_event where
  "demo_new_event = \<lparr>ne_unit = 7, ne_plant = 1, ne_kind = EvBorn, ne_operation_seq = None,
     ne_station = None, ne_operator = None, ne_detail = None,
     ne_stamps = \<lparr>recorded_at = 1500, received_at = 1500\<rparr>\<rparr>"

definition demo_new_measurement :: new_measurement where
  "demo_new_measurement = \<lparr>nm_unit = 7, nm_plant = 1, nm_dcp = 3, nm_operation_seq = 10, nm_station = None,
     nm_operator = None, nm_device = None, nm_value = V_Boolean True, nm_verdict = V_Pass,
     nm_source = Src_Manual, nm_raw_payload = None, nm_stamps = \<lparr>recorded_at = 2000, received_at = 2000\<rparr>,
     nm_supersedes = None, nm_supersede_reason = None\<rparr>"

definition demo_ops :: "store_op list" where
  "demo_ops = [EventOp (\<lambda>_. None) (EventId (PublicId 1)) 1 demo_new_event,
     EventOp (\<lambda>k. if k = 2 then Some (DbOther ''timeout'') else None) (EventId (PublicId 2)) 1 demo_new_event,
     MeasurementOp (\<lambda>_. None) (MeasurementId (PublicId 3)) 1 demo_new_measurement]"

lemma demo_succeeds:
  "op_succeeds [demo_unit_row] (EventOp fails e 1 demo_new_event) \<longleftrightarrow> fails 0 = None \<and> fails 1 = None \<and> fails 2 = None"
  "op_succeeds [demo_unit_row] (MeasurementOp fails m 1 demo_new_measurement)
     \<longleftrightarrow> fails 0 = None \<and> fails 1 = None \<and> fails 2 = None"
  by (simp_all add: op_succeeds_def demo_unit_row_def demo_new_event_def demo_new_measurement_def)

lemma demo_log_length: "length (log_run demo_externals [demo_unit_row] (\<lambda>_. []) demo_ops (1, 7)) = 2"
  by (simp add: log_run_def demo_ops_def log_step_def demo_succeeds)
    (simp add: demo_new_event_def demo_new_measurement_def)

lemma store_refines_chain_witness:
  "verify_unit_chain (\<lambda>_. None) 1 7
     (store_run demo_externals demo_digest (\<lambda>t. t) (no_evidence [demo_unit_row]) demo_ops) = Inr 2"
  using store_refines_chain [of demo_ops 1 7 demo_externals demo_digest "\<lambda>t. t" "[demo_unit_row]"]
  by (simp add: demo_log_length) (simp add: demo_ops_def)

section \<open>What the stored chain does and does not show\<close>

text \<open>
  The check that is run on stored evidence never looks at the evidence: rewriting the kind, the
  detail, the operator, the station and the time of every stored event, and the value, the verdict
  and the raw bytes of every stored measurement, leaves its answer as it was, for every unit.
\<close>

theorem chain_check_ignores_content:
  "verify_unit_chain fails t u
     (db\<lparr>db_events := map (\<lambda>e. e\<lparr>er_kind := k e, er_detail := d e, er_operator := p e,
            er_station := s e, er_recorded_at := r e\<rparr>) (db_events db),
         db_measurements := map (\<lambda>m. m\<lparr>mw_value := v m, mw_verdict := w m, mw_raw_payload := b m\<rparr>)
            (db_measurements db)\<rparr>)
   = verify_unit_chain fails t u db"
  by (simp add: verify_unit_chain_def ordered_rows_def chain_rows_def filter_map comp_def)

text \<open>The payload of an event, computed again from what is stored of it.\<close>

definition stored_payload :: "externals \<Rightarrow> event_kind \<Rightarrow> event_row \<Rightarrow> string" where
  "stored_payload x k r = event_payload x
     \<lparr>ev_id = EventId (PublicId 0), ev_unit_id = er_unit r, ev_kind = k,
      ev_operation_seq = er_operation_seq r, ev_station_id = er_station r,
      ev_operator_id = er_operator r,
      ev_stamps = \<lparr>recorded_at = er_recorded_at r, received_at = er_received_at r\<rparr>,
      ev_detail = er_detail r, ev_chain_seq = 0, ev_prev_hash = [], ev_row_hash = []\<rparr>"

text \<open>
  The time that is hashed is not the time that is stored: if the database keeps a recorded time
  with less precision than it had when it was hashed, the payload of the stored event is another
  one, and its row hash does not check, short of a collision of the digest.
\<close>

theorem stored_time_breaks_audit:
  assumes "append_event x H pg fails fresh t new db = (Inr link, db')"
    and "\<forall>a b. rfc3339 x a = rfc3339 x b \<longrightarrow> a = b"
    and "pg (recorded_at (ne_stamps new)) \<noteq> recorded_at (ne_stamps new)"
  shows "stored_payload x (ne_kind new) (last (db_events db')) \<noteq> event_payload x (event_probe fresh new)
    \<and> (row_hash H (cl_prev_hash link) (stored_payload x (ne_kind new) (last (db_events db')))
          \<noteq> cl_row_hash link
       \<or> collides H {preimage (cl_prev_hash link) (stored_payload x (ne_kind new) (last (db_events db'))),
            preimage (cl_prev_hash link) (event_payload x (event_probe fresh new))})"
proof -
  let ?p = "event_payload x (event_probe fresh new)" and ?q = "stored_payload x (ne_kind new) (last (db_events db'))"
  have ok: "op_succeeds (db_units db) (EventOp fails fresh t new)"
  proof (rule ccontr)
    assume "\<not> ?thesis"
    then show False
      using assms(1) lock_unit_ok [of fails t "ne_unit new" db]
      by (cases "lock_unit fails t (ne_unit new) db")
        (auto simp: append_event_def op_succeeds_def chain_tail_def statement_def split: option.splits)
  qed
  have link: "link = append_link H (last_option (ordered_rows t (ne_unit new) db)) ?p"
      "last (db_events db') = event_row_of x pg fresh t new link"
    using assms(1) ok append_event_cases [of x H pg fails fresh t new db] by (auto simp: Let_def)
  have neq: "?q \<noteq> ?p"
    using assms(2,3)
    by (auto simp: link(2) stored_payload_def event_row_of_def event_payload_def event_probe_def)
  moreover have "cl_row_hash link = H (preimage (cl_prev_hash link) ?p)"
    unfolding link(1) append_link_fields by (simp add: row_hash_def)
  moreover have "preimage (cl_prev_hash link) ?q \<noteq> preimage (cl_prev_hash link) ?p"
    using neq preimage_inject [of "cl_prev_hash link" "cl_prev_hash link" ?q ?p] by simp
  ultimately show ?thesis
    unfolding collides_def row_hash_def by (metis insertCI)
qed

lemma stored_time_breaks_audit_witness:
  "stored_payload demo_externals EvBorn (last (db_events (snd (append_event demo_externals demo_digest
      (\<lambda>t. t - t mod 1000) (\<lambda>_. None) (EventId (PublicId 1)) 1 demo_new_event (no_evidence [demo_unit_row])))))
    \<noteq> event_payload demo_externals (event_probe (EventId (PublicId 1)) demo_new_event)"
proof -
  obtain link db' where run: "append_event demo_externals demo_digest
      (\<lambda>t. t - t mod 1000) (\<lambda>_. None) (EventId (PublicId 1)) 1 demo_new_event (no_evidence [demo_unit_row])
      = (Inr link, db')"
    using append_event_cases [of demo_externals demo_digest "\<lambda>t. t - t mod 1000" "\<lambda>_. None"
        "EventId (PublicId 1)" 1 demo_new_event "no_evidence [demo_unit_row]"]
    by (simp add: op_succeeds_def no_evidence_def demo_unit_row_def demo_new_event_def Let_def)
  have "\<forall>a b. rfc3339 demo_externals a = rfc3339 demo_externals b \<longrightarrow> a = b"
    by (simp add: demo_externals_def)
  from stored_time_breaks_audit [OF run this] show ?thesis
    by (simp add: run) (simp add: demo_new_event_def)
qed

text \<open>A value read from its columns is the value that was stored.\<close>

lemma value_columns_round_trip: "value_from_columns (columns_of_value v) = Inr v"
  by (cases v) (simp_all add: value_from_columns_def Let_def)

section \<open>Recall\<close>

record affected_unit =
  au_unit_id :: row_id
  au_uid :: string
  au_serial :: string
  au_state :: string

definition affected :: "unit_row \<Rightarrow> affected_unit" where
  "affected u = \<lparr>au_unit_id = ur_id u, au_uid = ur_uid u, au_serial = ur_serial u, au_state = ur_state u\<rparr>"

text \<open>The identity of the new row is the database's, and so is the conversion of a quantity to a numeric column.\<close>

definition link_child_unit ::
  "faults \<Rightarrow> (utc \<Rightarrow> utc) \<Rightarrow> row_id \<Rightarrow> row_id \<Rightarrow> row_id \<Rightarrow> row_id \<Rightarrow> row_id option \<Rightarrow> row_id \<Rightarrow> u32 \<Rightarrow> stamps
     \<Rightarrow> store_db \<Rightarrow> (store_error + row_id) \<times> store_db" where
  "link_child_unit fails pg fresh tenant parent child bom plant op st db =
     (case statement fails 0 \<lparr>gr_id = fresh, gr_tenant = tenant, gr_plant = plant, gr_parent = parent, gr_bom_line = bom,
         gr_child = Some child, gr_lot = None, gr_qty = None, gr_operation_seq = op,
         gr_recorded_at = pg (recorded_at st), gr_received_at = pg (received_at st)\<rparr> of
        Inl e \<Rightarrow> (Inl e, db)
      | Inr row \<Rightarrow> (Inr fresh, db\<lparr>db_links := db_links db @ [row]\<rparr>))"

definition link_lot ::
  "faults \<Rightarrow> (utc \<Rightarrow> utc) \<Rightarrow> (f64 \<Rightarrow> f64) \<Rightarrow> row_id \<Rightarrow> row_id \<Rightarrow> row_id \<Rightarrow> string \<Rightarrow> f64 \<Rightarrow> row_id option \<Rightarrow> row_id \<Rightarrow> u32 \<Rightarrow> stamps
     \<Rightarrow> store_db \<Rightarrow> (store_error + row_id) \<times> store_db" where
  "link_lot fails pg numeric fresh tenant parent lot qty bom plant op st db =
     (case statement fails 0 \<lparr>gr_id = fresh, gr_tenant = tenant, gr_plant = plant, gr_parent = parent, gr_bom_line = bom,
         gr_child = None, gr_lot = Some lot, gr_qty = Some (numeric qty), gr_operation_seq = op,
         gr_recorded_at = pg (recorded_at st), gr_received_at = pg (received_at st)\<rparr> of
        Inl e \<Rightarrow> (Inl e, db)
      | Inr row \<Rightarrow> (Inr fresh, db\<lparr>db_links := db_links db @ [row]\<rparr>))"

text \<open>
  The recursive query: the units that consumed the lot, at depth 0; at each further depth the units
  that consumed one of the units before, while the depth is below 32.
\<close>

definition tenant_links :: "row_id \<Rightarrow> store_db \<Rightarrow> genealogy_row list" where
  "tenant_links tenant db = filter (\<lambda>g. gr_tenant g = tenant) (db_links db)"

definition recall_seed :: "row_id \<Rightarrow> string \<Rightarrow> store_db \<Rightarrow> row_id list" where
  "recall_seed tenant lot db = map gr_parent (filter (\<lambda>g. gr_lot g = Some lot) (tenant_links tenant db))"

definition parents_of :: "row_id \<Rightarrow> store_db \<Rightarrow> row_id list \<Rightarrow> row_id list" where
  "parents_of tenant db us =
     remdups (map gr_parent (filter (\<lambda>g. case gr_child g of None \<Rightarrow> False | Some c \<Rightarrow> c \<in> set us)
       (tenant_links tenant db)))"

fun roll_up :: "row_id \<Rightarrow> store_db \<Rightarrow> nat \<Rightarrow> row_id list \<Rightarrow> row_id list" where
  "roll_up tenant db 0 us = us"
| "roll_up tenant db (Suc n) us = us @ roll_up tenant db n (parents_of tenant db us)"

definition RECALL_DEPTH :: nat where
  "RECALL_DEPTH = 32"

definition units_affected_by_lot ::
  "faults \<Rightarrow> row_id \<Rightarrow> string \<Rightarrow> store_db \<Rightarrow> store_error + affected_unit list" where
  "units_affected_by_lot fails tenant lot db =
     (let ids = roll_up tenant db RECALL_DEPTH (remdups (recall_seed tenant lot db)) in
      statement fails 0 (sort_key au_uid
        (remdups (map affected (filter (\<lambda>u. ur_id u \<in> set ids) (visible_units tenant db))))))"

definition units_measured_by_device ::
  "faults \<Rightarrow> row_id \<Rightarrow> row_id \<Rightarrow> utc \<Rightarrow> utc \<Rightarrow> store_db \<Rightarrow> store_error + affected_unit list" where
  "units_measured_by_device fails tenant device t_from t_to db =
     (let ids = map mw_unit (filter (\<lambda>m. mw_tenant m = tenant \<and> mw_device m = Some device
                  \<and> t_from \<le> mw_recorded_at m \<and> mw_recorded_at m < t_to) (db_measurements db)) in
      statement fails 0 (sort_key au_uid
        (remdups (map affected (filter (\<lambda>u. ur_id u \<in> set ids) (visible_units tenant db))))))"

text \<open>The relation that recall follows: a unit and one that consumed it.\<close>

definition built_into :: "row_id \<Rightarrow> store_db \<Rightarrow> (row_id \<times> row_id) set" where
  "built_into tenant db = {(c, p). \<exists>g \<in> set (tenant_links tenant db). gr_child g = Some c \<and> gr_parent g = p}"

lemma set_parents_of: "set (parents_of tenant db us) = built_into tenant db `` set us"
  by (auto simp: parents_of_def built_into_def image_iff split: option.splits)

lemma power_after: "(R ^^ k) `` (R `` A) = R `` ((R ^^ k) `` A)" for R :: "('a \<times> 'a) set"
  by (metis relcomp_Image relpow_commute)

lemma set_roll_up: "set (roll_up tenant db n us) = (\<Union>k \<le> n. (built_into tenant db ^^ k) `` set us)"
proof (induction n arbitrary: us)
  case (Suc n)
  have "set (roll_up tenant db (Suc n) us)
      = set us \<union> (\<Union>k \<le> n. (built_into tenant db ^^ k) `` (built_into tenant db `` set us))"
    by (simp add: Suc.IH set_parents_of)
  also have "\<dots> = (built_into tenant db ^^ 0) `` set us
      \<union> (\<Union>k \<le> n. (built_into tenant db ^^ Suc k) `` set us)"
    by (simp add: relcomp_Image power_after)
  also have "\<dots> = (\<Union>k \<le> Suc n. (built_into tenant db ^^ k) `` set us)"
    by (simp only: atMost_Suc_eq_insert_0 image_insert Union_insert image_image UN_insert)
  finally show ?case .
qed simp

lemma recall_found:
  assumes "units_affected_by_lot (\<lambda>_. None) tenant lot db = Inr found"
  shows "set found = affected ` {u \<in> set (visible_units tenant db).
        \<exists>k \<in> {..32}. \<exists>s \<in> set (recall_seed tenant lot db). (s, ur_id u) \<in> built_into tenant db ^^ k}"
    and "distinct found" and "sorted (map au_uid found)"
proof -
  let ?ids = "roll_up tenant db RECALL_DEPTH (remdups (recall_seed tenant lot db))"
  have found: "found = sort_key au_uid
      (remdups (map affected (filter (\<lambda>u. ur_id u \<in> set ?ids) (visible_units tenant db))))"
    using assms by (simp add: units_affected_by_lot_def statement_def Let_def)
  have "ur_id u \<in> set ?ids \<longleftrightarrow>
      (\<exists>k \<in> {..32}. \<exists>s \<in> set (recall_seed tenant lot db). (s, ur_id u) \<in> built_into tenant db ^^ k)" for u
    unfolding set_roll_up by (auto simp: RECALL_DEPTH_def)
  then show "set found = affected ` {u \<in> set (visible_units tenant db).
      \<exists>k \<in> {..32}. \<exists>s \<in> set (recall_seed tenant lot db). (s, ur_id u) \<in> built_into tenant db ^^ k}"
    by (auto simp: found)
  show "distinct found" and "sorted (map au_uid found)"
    by (simp_all add: found)
qed

text \<open>
  C28: The recall query reports exactly the tenant's units that consumed the lot directly or through
  a chain of at most 32 sub-assemblies, each once, ordered by identity; so it reports every unit
  the lot went into, however indirectly, as long as no chain of sub-assemblies is longer than that.
\<close>

theorem recall_exact:
  "\<exists>found. units_affected_by_lot (\<lambda>_. None) tenant lot db = Inr found
    \<and> distinct found \<and> sorted (map au_uid found)
    \<and> set found = affected ` {u \<in> set (visible_units tenant db).
        \<exists>k \<in> {..32}. \<exists>s \<in> set (recall_seed tenant lot db). (s, ur_id u) \<in> built_into tenant db ^^ k}"
proof -
  obtain found where run: "units_affected_by_lot (\<lambda>_. None) tenant lot db = Inr found"
    by (simp add: units_affected_by_lot_def statement_def Let_def)
  then show ?thesis
    using recall_found [OF run] by blast
qed

end
