(* ===== verification/Plant.thy ===== *)
theory Plant
  imports Store Sign
begin

text \<open>
  The rest of the plant's database: \<open>crates/trace-store/src/repo.rs\<close> (units, marks, products
  and the outbox), \<open>query.rs\<close> (the history of a unit) and \<open>store.rs\<close> (transactions).  A
  statement acts on the rows of its tenant, as the row policies of the migrations say; the triggers
  and constraints on units are those of migrations 0002 and 0003, and the texts in which the server
  reports a violated constraint are the parameter \<open>msg\<close>.  Transactions run one after another.
\<close>

section \<open>Tables\<close>

record plant_row =
  lw_id :: row_id
  lw_tenant :: row_id
  lw_code :: string

record product_row =
  pw_id :: row_id
  pw_tenant :: row_id
  pw_model_no :: string
  pw_name :: string

record revision_row =
  vw_id :: row_id
  vw_tenant :: row_id
  vw_product :: row_id
  vw_revision :: string

record job_row =
  jw_id :: row_id
  jw_tenant :: row_id
  jw_number :: string

record station_row =
  sw_id :: row_id
  sw_tenant :: row_id
  sw_code :: string

record user_row =
  aw_id :: row_id
  aw_tenant :: row_id
  aw_display_name :: string

record dcp_row =
  dw_id :: row_id
  dw_tenant :: row_id
  dw_name :: string
  dw_unit :: "string option"

record outbox_row =
  ob_id :: string
  ob_tenant :: row_id
  ob_plant :: row_id
  ob_topic :: string
  ob_payload :: json
  ob_published :: "utc option"

record mark_row =
  kw_id :: string
  kw_tenant :: row_id
  kw_plant :: row_id
  kw_unit :: row_id
  kw_template_version :: "row_id option"
  kw_device :: "row_id option"
  kw_operation_seq :: "u32 option"
  kw_attempt :: u32
  kw_outcome :: string
  kw_read_back :: "string option"
  kw_grade :: "string option"
  kw_trace_base_url :: string
  kw_is_reprint :: bool
  kw_reason :: "string option"
  kw_authorised_by :: "row_id option"
  kw_payload_sent :: "string option"
  kw_recorded_at :: utc
  kw_received_at :: utc

record retired_row =
  rw_uid :: string
  rw_tenant :: row_id
  rw_unit :: row_id

record plant_db =
  pd_store :: store_db
  pd_tenants :: "row_id list"
  pd_plants :: "plant_row list"
  pd_products :: "product_row list"
  pd_revisions :: "revision_row list"
  pd_job_cards :: "job_row list"
  pd_stations :: "station_row list"
  pd_users :: "user_row list"
  pd_dcps :: "dcp_row list"
  pd_marks :: "mark_row list"
  pd_outbox :: "outbox_row list"
  pd_retired :: "retired_row list"

abbreviation plant_units :: "plant_db \<Rightarrow> unit_row list" where
  "plant_units db \<equiv> db_units (pd_store db)"

definition with_units :: "unit_row list \<Rightarrow> plant_db \<Rightarrow> plant_db" where
  "with_units us db = db\<lparr>pd_store := pd_store db\<lparr>db_units := us\<rparr>\<rparr>"

lemma with_units_sel [simp]:
  "plant_units (with_units us db) = us" "pd_retired (with_units us db) = pd_retired db"
  "pd_tenants (with_units us db) = pd_tenants db" "pd_plants (with_units us db) = pd_plants db"
  "pd_products (with_units us db) = pd_products db" "pd_revisions (with_units us db) = pd_revisions db"
  "pd_job_cards (with_units us db) = pd_job_cards db" "pd_outbox (with_units us db) = pd_outbox db"
  by (simp_all add: with_units_def)

section \<open>Transactions\<close>

text \<open>
  A commit may fail, and it may take effect although its acknowledgement is lost; a transaction
  that is dropped without a commit is rolled back.
\<close>

datatype commit_result = CommitOk | CommitFails db_error | CommitUnacknowledged db_error

definition transact ::
  "db_error option \<Rightarrow> commit_result \<Rightarrow> (plant_db \<Rightarrow> (store_error + 'a) \<times> plant_db) \<Rightarrow> plant_db
     \<Rightarrow> (store_error + 'a) \<times> plant_db" where
  "transact begins commits body db =
     (case begins of
        Some e \<Rightarrow> (Inl (SE_Database e), db)
      | None \<Rightarrow>
          (case body db of
             (Inl e, _) \<Rightarrow> (Inl e, db)
           | (Inr a, db') \<Rightarrow>
               (case commits of
                  CommitOk \<Rightarrow> (Inr a, db')
                | CommitFails e \<Rightarrow> (Inl (SE_Database e), db)
                | CommitUnacknowledged e \<Rightarrow> (Inl (SE_Database e), db'))))"

lemma transact_ok:
  "transact begins commits body db = (Inr a, db')
    \<longleftrightarrow> begins = None \<and> commits = CommitOk \<and> body db = (Inr a, db')"
  by (auto simp: transact_def split: option.splits prod.splits sum.splits commit_result.splits)

section \<open>Units\<close>

record new_unit =
  nu_uid :: unit_uid
  nu_plant :: row_id
  nu_product_revision :: row_id
  nu_job_card :: row_id
  nu_serial :: string
  nu_index_in_job :: i64

definition unit_row_of :: "externals \<Rightarrow> row_id \<Rightarrow> utc \<Rightarrow> row_id \<Rightarrow> new_unit \<Rightarrow> unit_row" where
  "unit_row_of x fresh now tenant new =
     \<lparr>ur_id = fresh, ur_uid = unit_uid_display x (nu_uid new), ur_tenant = tenant, ur_plant = nu_plant new,
      ur_product_revision = nu_product_revision new, ur_job_card = nu_job_card new,
      ur_serial = nu_serial new, ur_state = ''BORN'', ur_current_operation = None,
      ur_index_in_job = nu_index_in_job new, ur_created_at = now\<rparr>"

text \<open>The alphabet of a ULID, as the table's check constraint spells it.\<close>

definition is_ulid_text :: "string \<Rightarrow> bool" where
  "is_ulid_text s \<longleftrightarrow> length s = 26 \<and> list_all (\<lambda>c. c \<in> set ''0123456789ABCDEFGHJKMNPQRSTVWXYZ'') s"

definition violation :: "(string \<Rightarrow> string) \<Rightarrow> string \<Rightarrow> store_error + 'a" where
  "violation msg constraint = Inl (SE_Database (DbMessage (msg constraint)))"

text \<open>What the database checks of a new unit: its trigger first, then the constraints.\<close>

definition admit_unit :: "(string \<Rightarrow> string) \<Rightarrow> unit_row \<Rightarrow> plant_db \<Rightarrow> store_error + unit" where
  "admit_unit msg u db =
     (if list_ex (\<lambda>r. rw_tenant r = ur_tenant u \<and> rw_uid r = ur_uid u) (pd_retired db)
      then Inl (SE_Database (DbMessage (''uid '' @ ur_uid u @ '' is retired and can never be reissued'')))
      else if \<not> is_ulid_text (ur_uid u) then violation msg ''unit_uid_is_ulid''
      else if list_ex (\<lambda>r. ur_id r = ur_id u) (plant_units db) then violation msg ''unit_pkey''
      else if list_ex (\<lambda>r. ur_uid r = ur_uid u) (plant_units db) then violation msg ''unit_uid_key''
      else if ur_tenant u \<notin> set (pd_tenants db) then violation msg ''unit_tenant_id_fkey''
      else if \<not> list_ex (\<lambda>r. lw_id r = ur_plant u) (pd_plants db) then violation msg ''unit_plant_id_fkey''
      else if \<not> list_ex (\<lambda>r. vw_id r = ur_product_revision u) (pd_revisions db)
      then violation msg ''unit_product_revision_id_fkey''
      else if \<not> list_ex (\<lambda>r. jw_id r = ur_job_card u) (pd_job_cards db)
      then violation msg ''unit_job_card_id_fkey''
      else Inr ())"

definition insert_unit ::
  "externals \<Rightarrow> (string \<Rightarrow> string) \<Rightarrow> faults \<Rightarrow> row_id \<Rightarrow> utc \<Rightarrow> row_id \<Rightarrow> new_unit \<Rightarrow> plant_db
     \<Rightarrow> (store_error + row_id) \<times> plant_db" where
  "insert_unit x msg fails fresh now tenant new db =
     (let u = unit_row_of x fresh now tenant new in
      case and_then (statement fails 0 ()) (\<lambda>_. admit_unit msg u db) of
        Inl e \<Rightarrow> (Inl e, db)
      | Inr _ \<Rightarrow> (Inr fresh, with_units (plant_units db @ [u]) db))"

definition unit_by_uid :: "faults \<Rightarrow> row_id \<Rightarrow> string \<Rightarrow> plant_db \<Rightarrow> store_error + unit_row option" where
  "unit_by_uid fails tenant uid db =
     statement fails 0 (List.find (\<lambda>u. ur_uid u = uid) (visible_units tenant (pd_store db)))"

text \<open>
  The update of a unit's state, with its trigger: a scrapped unit stays scrapped, and the identity of
  a unit that becomes scrapped is entered in the ledger of retired ones.
\<close>

definition leaves_scrap :: "unit_state \<Rightarrow> unit_row \<Rightarrow> bool" where
  "leaves_scrap s u \<longleftrightarrow> ur_state u = ''SCRAPPED'' \<and> s \<noteq> Scrapped"

definition retire :: "unit_row list \<Rightarrow> retired_row list \<Rightarrow> retired_row list" where
  "retire us ledger =
     foldl (\<lambda>rs u. if list_ex (\<lambda>r. rw_uid r = ur_uid u) rs then rs
        else rs @ [\<lparr>rw_uid = ur_uid u, rw_tenant = ur_tenant u, rw_unit = ur_id u\<rparr>]) ledger us"

definition set_unit_state ::
  "faults \<Rightarrow> row_id \<Rightarrow> row_id \<Rightarrow> unit_state \<Rightarrow> u32 option \<Rightarrow> plant_db \<Rightarrow> (store_error + unit) \<times> plant_db" where
  "set_unit_state fails tenant uid s current_op db =
     (let hit = (\<lambda>u. ur_tenant u = tenant \<and> ur_id u = uid);
          found = filter hit (plant_units db)
      in case and_then (statement fails 0 ()) (\<lambda>_.
          case List.find (leaves_scrap s) found of
            Some u \<Rightarrow> Inl (SE_Database (DbMessage (''unit '' @ ur_uid u
              @ '' is scrapped: that state is terminal and the uid is retired'')))
          | None \<Rightarrow> Inr ()) of
        Inl e \<Rightarrow> (Inl e, db)
      | Inr _ \<Rightarrow>
          (Inr (), (with_units
             (map (\<lambda>u. if hit u then u\<lparr>ur_state := state_name s, ur_current_operation := current_op\<rparr> else u)
                (plant_units db)) db)
             \<lparr>pd_retired := retire (filter (\<lambda>u. s = Scrapped \<and> ur_state u \<noteq> ''SCRAPPED'') found)
                (pd_retired db)\<rparr>))"

section \<open>Marks, products and the outbox\<close>

fun mark_outcome_name :: "mark_outcome \<Rightarrow> string" where
  "mark_outcome_name MO_Verified = ''VERIFIED''"
| "mark_outcome_name MO_VerifyFailed = ''VERIFY_FAILED''"
| "mark_outcome_name MO_DeviceFault = ''DEVICE_FAULT''"
| "mark_outcome_name MO_AppliedUnverified = ''APPLIED_UNVERIFIED''"

record new_mark =
  nk_unit :: row_id
  nk_plant :: row_id
  nk_template_version :: "row_id option"
  nk_device :: "row_id option"
  nk_operation_seq :: "u32 option"
  nk_attempt :: u32
  nk_outcome :: mark_outcome
  nk_read_back :: "string option"
  nk_grade :: "char option"
  nk_trace_base_url :: string
  nk_is_reprint :: bool
  nk_reason :: "string option"
  nk_authorised_by :: "row_id option"
  nk_payload_sent :: "string option"
  nk_stamps :: stamps

text \<open>A reprint must give a reason and who authorised it, an attempt is at least the first.\<close>

definition admit_mark :: "(string \<Rightarrow> string) \<Rightarrow> new_mark \<Rightarrow> plant_db \<Rightarrow> store_error + unit" where
  "admit_mark msg new db =
     (if sint (nk_attempt new) < 1 then violation msg ''mark_record_attempt_check''
      else if nk_is_reprint new \<and> (nk_reason new = None \<or> nk_authorised_by new = None)
      then violation msg ''mark_reprint_is_controlled''
      else if \<not> list_ex (\<lambda>u. ur_id u = nk_unit new) (plant_units db)
      then violation msg ''mark_record_unit_id_fkey''
      else Inr ())"

definition record_mark ::
  "externals \<Rightarrow> (string \<Rightarrow> string) \<Rightarrow> (utc \<Rightarrow> utc) \<Rightarrow> faults \<Rightarrow> mark_id \<Rightarrow> row_id \<Rightarrow> new_mark \<Rightarrow> plant_db
     \<Rightarrow> (store_error + mark_id) \<times> plant_db" where
  "record_mark x msg pg fails fresh tenant new db =
     (case and_then (statement fails 0 ()) (\<lambda>_. admit_mark msg new db) of
        Inl e \<Rightarrow> (Inl e, db)
      | Inr _ \<Rightarrow> (Inr fresh, db\<lparr>pd_marks := pd_marks db @
          [\<lparr>kw_id = mark_id_display x fresh, kw_tenant = tenant, kw_plant = nk_plant new,
            kw_unit = nk_unit new, kw_template_version = nk_template_version new,
            kw_device = nk_device new, kw_operation_seq = nk_operation_seq new,
            kw_attempt = nk_attempt new, kw_outcome = mark_outcome_name (nk_outcome new),
            kw_read_back = nk_read_back new, kw_grade = map_option (\<lambda>c. [c]) (nk_grade new),
            kw_trace_base_url = nk_trace_base_url new, kw_is_reprint = nk_is_reprint new,
            kw_reason = nk_reason new, kw_authorised_by = nk_authorised_by new,
            kw_payload_sent = nk_payload_sent new, kw_recorded_at = pg (recorded_at (nk_stamps new)),
            kw_received_at = pg (received_at (nk_stamps new))\<rparr>]\<rparr>))"

definition insert_product ::
  "(string \<Rightarrow> string) \<Rightarrow> faults \<Rightarrow> row_id \<Rightarrow> row_id \<Rightarrow> string \<Rightarrow> string \<Rightarrow> plant_db
     \<Rightarrow> (store_error + row_id) \<times> plant_db" where
  "insert_product msg fails fresh tenant model name db =
     (case and_then (statement fails 0 ()) (\<lambda>_.
        if list_ex (\<lambda>p. pw_tenant p = tenant \<and> pw_model_no p = model) (pd_products db)
        then violation msg ''product_model_key'' else Inr ()) of
        Inl e \<Rightarrow> (Inl e, db)
      | Inr _ \<Rightarrow> (Inr fresh, db\<lparr>pd_products := pd_products db @
          [\<lparr>pw_id = fresh, pw_tenant = tenant, pw_model_no = model, pw_name = name\<rparr>]\<rparr>))"

definition enqueue_outbox ::
  "externals \<Rightarrow> faults \<Rightarrow> public_id \<Rightarrow> row_id \<Rightarrow> row_id \<Rightarrow> string \<Rightarrow> json \<Rightarrow> plant_db
     \<Rightarrow> (store_error + string) \<times> plant_db" where
  "enqueue_outbox x fails fresh tenant plant topic payload db =
     (case statement fails 1 () of
        Inl e \<Rightarrow> (Inl e, db)
      | Inr _ \<Rightarrow> (Inr (public_id_display x fresh), db\<lparr>pd_outbox := pd_outbox db @
          [\<lparr>ob_id = public_id_display x fresh, ob_tenant = tenant, ob_plant = plant, ob_topic = topic,
            ob_payload = payload, ob_published = None\<rparr>]\<rparr>))"

definition outbox_pending :: "faults \<Rightarrow> row_id \<Rightarrow> plant_db \<Rightarrow> store_error + nat" where
  "outbox_pending fails tenant db =
     statement fails 0 (length (filter (\<lambda>o'. ob_tenant o' = tenant \<and> ob_published o' = None) (pd_outbox db)))"

section \<open>The identity of a unit is permanent\<close>

datatype plant_op =
    BirthOp faults row_id utc row_id new_unit
  | StateOp faults row_id row_id unit_state "u32 option"
  | ChainOp store_op

fun plant_exec ::
  "externals \<Rightarrow> (string \<Rightarrow> string) \<Rightarrow> (string \<Rightarrow> string) \<Rightarrow> (utc \<Rightarrow> utc) \<Rightarrow> plant_db \<Rightarrow> plant_op \<Rightarrow> plant_db" where
  "plant_exec x H msg pg db (BirthOp fails fresh now tenant new) =
     snd (insert_unit x msg fails fresh now tenant new db)"
| "plant_exec x H msg pg db (StateOp fails tenant uid s current_op) =
     snd (set_unit_state fails tenant uid s current_op db)"
| "plant_exec x H msg pg db (ChainOp c) = db\<lparr>pd_store := store_exec x H pg (pd_store db) c\<rparr>"

definition plant_run ::
  "externals \<Rightarrow> (string \<Rightarrow> string) \<Rightarrow> (string \<Rightarrow> string) \<Rightarrow> (utc \<Rightarrow> utc) \<Rightarrow> plant_db \<Rightarrow> plant_op list
     \<Rightarrow> plant_db" where
  "plant_run x H msg pg db cs = foldl (plant_exec x H msg pg) db cs"

lemma plant_run_simps [simp]:
  "plant_run x H msg pg db [] = db"
  "plant_run x H msg pg db (c # cs) = plant_run x H msg pg (plant_exec x H msg pg db c) cs"
  by (simp_all add: plant_run_def)

text \<open>What of a unit never changes, and which units are out of use for good.\<close>

definition permanent_part :: "unit_row \<Rightarrow> unit_row" where
  "permanent_part u = u\<lparr>ur_state := [], ur_current_operation := None\<rparr>"

definition is_scrapped_row :: "unit_row \<Rightarrow> bool" where
  "is_scrapped_row u \<longleftrightarrow> ur_state u = ''SCRAPPED''"

text \<open>The invariant: identities and keys are unique, scrapped units are in the ledger.\<close>

definition units_ok :: "plant_db \<Rightarrow> bool" where
  "units_ok db \<longleftrightarrow>
     distinct (map ur_uid (plant_units db)) \<and> distinct (map ur_id (plant_units db))
     \<and> (\<forall>u \<in> set (plant_units db). is_scrapped_row u \<longrightarrow> ur_uid u \<in> rw_uid ` set (pd_retired db))"

text \<open>One step only adds units at the end, and changes nothing permanent of the ones there are.\<close>

definition keeps_units :: "unit_row list \<Rightarrow> unit_row list \<Rightarrow> bool" where
  "keeps_units us vs \<longleftrightarrow>
     prefix (map permanent_part us) (map permanent_part vs)
     \<and> (\<forall>i < length us. is_scrapped_row (us ! i) \<longrightarrow> is_scrapped_row (vs ! i))"

lemma keeps_units_refl: "keeps_units us us"
  by (simp add: keeps_units_def)

lemma keeps_units_trans: "keeps_units us vs \<Longrightarrow> keeps_units vs ws \<Longrightarrow> keeps_units us ws"
  unfolding keeps_units_def using prefix_length_le
  by (metis dual_order.strict_trans1 length_map prefix_order.trans)

lemma keeps_units_append: "keeps_units us (us @ vs)"
  by (simp add: keeps_units_def nth_append)

lemma keeps_units_map:
  assumes "\<And>u. permanent_part (f u) = permanent_part u"
    and "\<And>u. u \<in> set us \<Longrightarrow> is_scrapped_row u \<Longrightarrow> is_scrapped_row (f u)"
  shows "keeps_units us (map f us)"
  using assms by (simp add: keeps_units_def comp_def)

lemma permanent_part_inject:
  "permanent_part u = permanent_part v \<Longrightarrow> ur_uid u = ur_uid v \<and> ur_id u = ur_id v"
  by (cases u; cases v) (simp add: permanent_part_def)

text \<open>The ledger grows, and enters every unit it is given.\<close>

lemma retire_uids: "rw_uid ` set (retire us ledger) = rw_uid ` set ledger \<union> ur_uid ` set us"
  unfolding retire_def
  by (induction us arbitrary: ledger) (auto simp: list_ex_iff image_iff intro: sym)

lemma leaves_scrap_state: "\<not> leaves_scrap s u \<Longrightarrow> is_scrapped_row u \<Longrightarrow> state_name s = ''SCRAPPED''"
  by (cases s) (auto simp: leaves_scrap_def is_scrapped_row_def)

lemma state_name_scrapped: "state_name s = ''SCRAPPED'' \<longleftrightarrow> s = Scrapped"
  by (cases s) simp_all

text \<open>A birth that succeeds has been admitted; otherwise nothing changes.\<close>

lemma insert_unit_cases:
  "insert_unit x msg fails fresh now tenant new db
    = (if fails 0 = None \<and> admit_unit msg (unit_row_of x fresh now tenant new) db = Inr ()
       then (Inr fresh, with_units (plant_units db @ [unit_row_of x fresh now tenant new]) db)
       else (fst (insert_unit x msg fails fresh now tenant new db), db))"
  by (cases "admit_unit msg (unit_row_of x fresh now tenant new) db")
    (auto simp: insert_unit_def statement_def Let_def split: option.split)

lemma admit_unit_new:
  assumes "admit_unit msg u db = Inr ()"
  shows "ur_uid u \<notin> ur_uid ` set (plant_units db)" "ur_id u \<notin> ur_id ` set (plant_units db)"
    "is_ulid_text (ur_uid u)" "ur_tenant u \<in> set (pd_tenants db)"
    "\<exists>r \<in> set (pd_plants db). lw_id r = ur_plant u"
    "\<exists>r \<in> set (pd_revisions db). vw_id r = ur_product_revision u"
    "\<exists>r \<in> set (pd_job_cards db). jw_id r = ur_job_card u"
  using assms by (auto simp: admit_unit_def violation_def list_ex_iff image_iff split: if_splits)

lemma insert_unit_ok:
  assumes "units_ok db"
  shows "units_ok (snd (insert_unit x msg fails fresh now tenant new db))
    \<and> keeps_units (plant_units db) (plant_units (snd (insert_unit x msg fails fresh now tenant new db)))
    \<and> rw_uid ` set (pd_retired db) \<subseteq> rw_uid ` set (pd_retired (snd (insert_unit x msg fails fresh now tenant new db)))"
proof (cases "fails 0 = None \<and> admit_unit msg (unit_row_of x fresh now tenant new) db = Inr ()")
  case True
  let ?u = "unit_row_of x fresh now tenant new"
  have eq: "insert_unit x msg fails fresh now tenant new db = (Inr fresh, with_units (plant_units db @ [?u]) db)"
    by (rule insert_unit_cases [of x msg fails fresh now tenant new db, unfolded if_P [OF True]])
  have "\<not> is_scrapped_row ?u"
    by (simp add: unit_row_of_def is_scrapped_row_def)
  then have "units_ok (with_units (plant_units db @ [?u]) db)"
    using assms admit_unit_new(1,2) [of msg ?u db] True by (auto simp: units_ok_def)
  then show ?thesis
    by (simp add: eq keeps_units_append)
next
  case False
  then show ?thesis
    using assms keeps_units_refl insert_unit_cases [of x msg fails fresh now tenant new db]
    by (metis snd_conv subset_refl)
qed

text \<open>A change of state that succeeds takes no unit out of scrap; otherwise nothing changes.\<close>

definition moved :: "row_id \<Rightarrow> row_id \<Rightarrow> unit_state \<Rightarrow> u32 option \<Rightarrow> unit_row \<Rightarrow> unit_row" where
  "moved tenant uid s current_op u =
     (if ur_tenant u = tenant \<and> ur_id u = uid
      then u\<lparr>ur_state := state_name s, ur_current_operation := current_op\<rparr> else u)"

lemma moved_permanent [simp]: "permanent_part (moved tenant uid s current_op u) = permanent_part u"
  by (simp add: moved_def permanent_part_def)

lemma moved_ids [simp]:
  "ur_uid (moved tenant uid s current_op u) = ur_uid u" "ur_id (moved tenant uid s current_op u) = ur_id u"
  by (simp_all add: moved_def)

lemma set_unit_state_cases:
  obtains (refused) e where "set_unit_state fails tenant uid s current_op db = (Inl e, db)"
  | (moves) "set_unit_state fails tenant uid s current_op db =
       (Inr (), (with_units (map (moved tenant uid s current_op) (plant_units db)) db)
          \<lparr>pd_retired := retire (filter (\<lambda>u. s = Scrapped \<and> ur_state u \<noteq> ''SCRAPPED'')
             (filter (\<lambda>u. ur_tenant u = tenant \<and> ur_id u = uid) (plant_units db))) (pd_retired db)\<rparr>)"
    "\<And>u. u \<in> set (plant_units db) \<Longrightarrow> ur_tenant u = tenant \<Longrightarrow> ur_id u = uid \<Longrightarrow> \<not> leaves_scrap s u"
proof (cases "fails 0")
  case None
  let ?found = "filter (\<lambda>u. ur_tenant u = tenant \<and> ur_id u = uid) (plant_units db)"
  show thesis
  proof (cases "List.find (leaves_scrap s) ?found")
    case (Some u)
    then show thesis
      using None by (intro refused) (simp add: set_unit_state_def statement_def Let_def)
  next
    case none: None
    have "map (moved tenant uid s current_op) (plant_units db) =
        map (\<lambda>u. if ur_tenant u = tenant \<and> ur_id u = uid
          then u\<lparr>ur_state := state_name s, ur_current_operation := current_op\<rparr> else u) (plant_units db)"
      by (simp add: moved_def)
    then have "set_unit_state fails tenant uid s current_op db =
       (Inr (), (with_units (map (moved tenant uid s current_op) (plant_units db)) db)
          \<lparr>pd_retired := retire (filter (\<lambda>u. s = Scrapped \<and> ur_state u \<noteq> ''SCRAPPED'') ?found) (pd_retired db)\<rparr>)"
      using None none by (simp only: set_unit_state_def statement_def Let_def and_then.simps
          option.case sum.case)
    moreover have "\<not> leaves_scrap s u"
      if "u \<in> set (plant_units db)" "ur_tenant u = tenant" "ur_id u = uid" for u
      using none that by (simp add: find_None_all)
    ultimately show thesis
      by (rule moves)
  qed
next
  case (Some e)
  then show thesis
    by (intro refused) (simp add: set_unit_state_def statement_def Let_def)
qed

lemma set_unit_state_ok:
  assumes "units_ok db"
  shows "units_ok (snd (set_unit_state fails tenant uid s current_op db))
    \<and> keeps_units (plant_units db) (plant_units (snd (set_unit_state fails tenant uid s current_op db)))
    \<and> rw_uid ` set (pd_retired db) \<subseteq> rw_uid ` set (pd_retired (snd (set_unit_state fails tenant uid s current_op db)))"
proof (cases rule: set_unit_state_cases [of fails tenant uid s current_op db])
  case (refused e)
  then show ?thesis
    using assms by (simp add: keeps_units_refl)
next
  case moves
  have stays: "is_scrapped_row (moved tenant uid s current_op u)"
    if "u \<in> set (plant_units db)" "is_scrapped_row u" for u
    using that moves(2) leaves_scrap_state [of s u] by (auto simp: moved_def is_scrapped_row_def)
  have fresh: "ur_uid u \<in> rw_uid ` set (pd_retired (snd (set_unit_state fails tenant uid s current_op db)))"
    if "u \<in> set (plant_units db)" "is_scrapped_row (moved tenant uid s current_op u)" for u
    using that assms unfolding moves(1)
    by (auto simp: retire_uids units_ok_def moved_def is_scrapped_row_def state_name_scrapped split: if_splits)
  show ?thesis
    using assms stays fresh unfolding moves(1)
    by (auto simp: units_ok_def comp_def retire_uids intro!: keeps_units_map)
qed

lemma store_run_units [simp]: "db_units (store_run x H pg db cs) = db_units db"
  by (induction cs arbitrary: db) (simp_all add: store_run_def)

lemma plant_exec_ok:
  assumes "units_ok db"
  shows "units_ok (plant_exec x H msg pg db c)
    \<and> keeps_units (plant_units db) (plant_units (plant_exec x H msg pg db c))
    \<and> rw_uid ` set (pd_retired db) \<subseteq> rw_uid ` set (pd_retired (plant_exec x H msg pg db c))"
proof (cases c)
  case (BirthOp fails fresh now tenant new)
  then show ?thesis
    using insert_unit_ok [OF assms] by simp
next
  case (StateOp fails tenant uid s current_op)
  then show ?thesis
    using set_unit_state_ok [OF assms] by simp
next
  case (ChainOp c)
  then show ?thesis
    using assms by (simp add: keeps_units_refl units_ok_def)
qed

lemma plant_run_ok:
  assumes "units_ok db"
  shows "units_ok (plant_run x H msg pg db cs)
    \<and> keeps_units (plant_units db) (plant_units (plant_run x H msg pg db cs))
    \<and> rw_uid ` set (pd_retired db) \<subseteq> rw_uid ` set (pd_retired (plant_run x H msg pg db cs))"
  using assms
proof (induction cs arbitrary: db)
  case (Cons c cs)
  let ?db = "plant_exec x H msg pg db c"
  note step = plant_exec_ok [OF Cons.prems, of x H msg pg c]
  note rest = Cons.IH [OF conjunct1 [OF step]]
  have "keeps_units (plant_units db) (plant_units (plant_run x H msg pg ?db cs))"
    using step rest by (blast intro: keeps_units_trans)
  then show ?case
    using step rest by auto
qed (simp add: keeps_units_refl)

text \<open>
  C14: The identity of a unit is permanent.  Start from a database without units and let the stations
  and tenants do anything, in any order and with any failures: no two units ever have the same
  identity or the same key; a unit that was born stays in its place with its identity, tenant,
  revision, job card, serial and birth time, only its state and operation change; and a scrapped unit
  is scrapped for ever, with its identity in the ledger of retired ones.
\<close>

theorem identity_is_permanent:
  assumes "plant_units base = []"
    and db_def: "db = plant_run x H msg pg base before"
    and db'_def: "db' = plant_run x H msg pg db after"
  shows "distinct (map ur_uid (plant_units db')) \<and> distinct (map ur_id (plant_units db'))
    \<and> prefix (map permanent_part (plant_units db)) (map permanent_part (plant_units db'))
    \<and> (\<forall>i < length (plant_units db). is_scrapped_row (plant_units db ! i) \<longrightarrow>
         plant_units db' ! i = (plant_units db ! i)\<lparr>ur_current_operation := ur_current_operation (plant_units db' ! i)\<rparr>
         \<and> ur_uid (plant_units db ! i) \<in> rw_uid ` set (pd_retired db'))"
proof -
  have "units_ok base"
    using assms(1) by (simp add: units_ok_def)
  then have ok: "units_ok db" "units_ok db'" "keeps_units (plant_units db) (plant_units db')"
    using plant_run_ok [of base x H msg pg before] plant_run_ok [of db x H msg pg after]
    by (simp_all add: db_def db'_def)
  have "plant_units db' ! i = (plant_units db ! i)\<lparr>ur_current_operation := ur_current_operation (plant_units db' ! i)\<rparr>
      \<and> ur_uid (plant_units db ! i) \<in> rw_uid ` set (pd_retired db')"
    if i: "i < length (plant_units db)" and scrapped: "is_scrapped_row (plant_units db ! i)" for i
  proof -
    have len: "i < length (plant_units db')"
      using ok(3) i prefix_length_le unfolding keeps_units_def
      by (metis dual_order.strict_trans1 length_map)
    have same: "permanent_part (plant_units db' ! i) = permanent_part (plant_units db ! i)"
      using ok(3) i len unfolding keeps_units_def prefix_def
      by (metis length_map nth_append nth_map)
    have still: "is_scrapped_row (plant_units db' ! i)"
      using ok(3) i scrapped by (simp add: keeps_units_def)
    have "ur_uid (plant_units db' ! i) \<in> rw_uid ` set (pd_retired db')"
      using ok(2) len still by (simp add: units_ok_def)
    then show ?thesis
      using same still scrapped permanent_part_inject [OF same]
      by (cases "plant_units db' ! i"; cases "plant_units db ! i")
        (simp add: permanent_part_def is_scrapped_row_def)
  qed
  then show ?thesis
    using ok by (simp add: units_ok_def keeps_units_def)
qed

text \<open>A plant where a unit is born, scrapped, then moved and born again in vain.\<close>

definition demo_plant :: plant_db where
  "demo_plant = \<lparr>pd_store = no_evidence [], pd_tenants = [1],
     pd_plants = [\<lparr>lw_id = 1, lw_tenant = 1, lw_code = ''CBE''\<rparr>],
     pd_products = [\<lparr>pw_id = 5, pw_tenant = 1, pw_model_no = ''EX'', pw_name = ''Valve''\<rparr>],
     pd_revisions = [\<lparr>vw_id = 2, vw_tenant = 1, vw_product = 5, vw_revision = ''A''\<rparr>],
     pd_job_cards = [\<lparr>jw_id = 3, jw_tenant = 1, jw_number = ''JC''\<rparr>],
     pd_stations = [], pd_users = [], pd_dcps = [], pd_marks = [], pd_outbox = [], pd_retired = []\<rparr>"

definition plant_externals :: externals where
  "plant_externals = demo_externals\<lparr>ulid_text := (\<lambda>_. ''01JX8P2K7F3QW9ABCDEFGHJKMN'')\<rparr>"

definition demo_new_unit :: new_unit where
  "demo_new_unit = \<lparr>nu_uid = UnitUid (PublicId 1), nu_plant = 1, nu_product_revision = 2, nu_job_card = 3,
     nu_serial = ''S1'', nu_index_in_job = 0\<rparr>"

definition demo_before :: "plant_op list" where
  "demo_before = [BirthOp (\<lambda>_. None) 7 0 1 demo_new_unit, StateOp (\<lambda>_. None) 1 7 Scrapped None]"

definition demo_after :: "plant_op list" where
  "demo_after = [StateOp (\<lambda>_. None) 1 7 InProcess (Some 10), BirthOp (\<lambda>_. None) 8 0 1 demo_new_unit]"

lemma plant_uid_text: "ulid_text plant_externals u = ''01JX8P2K7F3QW9ABCDEFGHJKMN''"
  by (simp add: plant_externals_def)

lemma demo_before_units:
  "plant_units (plant_run plant_externals H msg pg demo_plant demo_before)
   = [(unit_row_of plant_externals 7 0 1 demo_new_unit)\<lparr>ur_state := ''SCRAPPED''\<rparr>]"
proof -
  have "admit_unit msg (unit_row_of plant_externals 7 0 1 demo_new_unit) demo_plant = Inr ()"
    by (simp add: admit_unit_def unit_row_of_def demo_new_unit_def plant_uid_text is_ulid_text_def
        demo_plant_def no_evidence_def)
  then show ?thesis
    by (simp add: demo_before_def insert_unit_def statement_def Let_def set_unit_state_def
        leaves_scrap_def unit_row_of_def demo_plant_def no_evidence_def)
qed

lemma identity_is_permanent_witness:
  "is_scrapped_row (plant_units (plant_run plant_externals demo_digest (\<lambda>n. n) (\<lambda>t. t)
       (plant_run plant_externals demo_digest (\<lambda>n. n) (\<lambda>t. t) demo_plant demo_before) demo_after) ! 0)"
  (is "is_scrapped_row (?us ! 0)")
proof -
  have "plant_units demo_plant = []"
    by (simp add: demo_plant_def no_evidence_def)
  from identity_is_permanent [OF this refl refl, of plant_externals demo_digest "\<lambda>n. n" "\<lambda>t. t"
      demo_before demo_after]
  have same: "?us ! 0 = (unit_row_of plant_externals 7 0 1 demo_new_unit)
      \<lparr>ur_state := ''SCRAPPED'', ur_current_operation := ur_current_operation (?us ! 0)\<rparr>"
    by (simp add: demo_before_units is_scrapped_row_def)
  show ?thesis
    by (subst same) (simp add: is_scrapped_row_def)
qed

end
