(* ===== verification/History.thy ===== *)
theory History
  imports Plant
begin

text \<open>
  Backward trace: \<open>unit_history\<close> of \<open>crates/trace-store/src/query.rs\<close>.  A join pairs each row with every row that matches; each table
  is read within the tenant.  Where the order of the source leaves rows equal, the model keeps the
  order of the table.
\<close>

section \<open>What is reported of a unit\<close>

record history_event =
  he_id :: string
  he_kind :: string
  he_operation_seq :: "u32 option"
  he_station :: "string option"
  he_operator :: "string option"
  he_detail :: "string option"
  he_recorded_at :: utc
  he_received_at :: utc
  he_clock_skewed :: bool
  he_chain_seq :: u64
  he_row_hash :: string

record history_measurement =
  hm_id :: string
  hm_dcp_name :: string
  hm_unit_of_measure :: "string option"
  hm_operation_seq :: u32
  hm_value :: val
  hm_verdict :: string
  hm_source :: string
  hm_raw_payload :: "string option"
  hm_recorded_at :: utc
  hm_chain_seq :: u64
  hm_row_hash :: string
  hm_supersedes :: "string option"

record history_component =
  hc_depth :: nat
  hc_child_uid :: "string option"
  hc_lot_no :: "string option"
  hc_qty :: "f64 option"
  hc_operation_seq :: u32
  hc_recorded_at :: utc

record unit_history =
  uh_uid :: string
  uh_serial :: string
  uh_state :: string
  uh_model_no :: string
  uh_revision :: string
  uh_job_number :: string
  uh_plant :: string
  uh_created_at :: utc
  uh_events :: "history_event list"
  uh_measurements :: "history_measurement list"
  uh_components :: "history_component list"

section \<open>The queries\<close>

definition left_join :: "('b \<Rightarrow> bool) \<Rightarrow> 'b list \<Rightarrow> 'b option list" where
  "left_join P rows = (case filter P rows of [] \<Rightarrow> [None] | ms \<Rightarrow> map Some ms)"

definition history_head ::
  "row_id \<Rightarrow> string \<Rightarrow> plant_db
     \<Rightarrow> (unit_row \<times> product_row \<times> revision_row \<times> job_row \<times> plant_row) list" where
  "history_head tenant uid db =
     [(u, p, pr, j, pl).
        u \<leftarrow> filter (\<lambda>u. ur_uid u = uid) (visible_units tenant (pd_store db)),
        pr \<leftarrow> filter (\<lambda>r. vw_tenant r = tenant \<and> vw_id r = ur_product_revision u) (pd_revisions db),
        p \<leftarrow> filter (\<lambda>r. pw_tenant r = tenant \<and> pw_id r = vw_product pr) (pd_products db),
        j \<leftarrow> filter (\<lambda>r. jw_tenant r = tenant \<and> jw_id r = ur_job_card u) (pd_job_cards db),
        pl \<leftarrow> filter (\<lambda>r. lw_tenant r = tenant \<and> lw_id r = ur_plant u) (pd_plants db)]"

definition history_events :: "row_id \<Rightarrow> row_id \<Rightarrow> plant_db \<Rightarrow> history_event list" where
  "history_events tenant u db =
     sort_key (\<lambda>h. sint (he_chain_seq h))
       [\<lparr>he_id = er_id e, he_kind = er_kind e, he_operation_seq = er_operation_seq e,
         he_station = map_option sw_code s, he_operator = map_option aw_display_name au,
         he_detail = er_detail e, he_recorded_at = er_recorded_at e, he_received_at = er_received_at e,
         he_clock_skewed = er_clock_skewed e, he_chain_seq = cl_seq (er_link e),
         he_row_hash = cl_row_hash (er_link e)\<rparr>.
        e \<leftarrow> filter (\<lambda>e. er_tenant e = tenant \<and> er_unit e = u) (db_events (pd_store db)),
        s \<leftarrow> left_join (\<lambda>s. sw_tenant s = tenant \<and> er_station e = Some (sw_id s)) (pd_stations db),
        au \<leftarrow> left_join (\<lambda>a. aw_tenant a = tenant \<and> er_operator e = Some (aw_id a)) (pd_users db)]"

definition history_measurement_rows ::
  "row_id \<Rightarrow> row_id \<Rightarrow> plant_db \<Rightarrow> (measurement_row \<times> dcp_row) list" where
  "history_measurement_rows tenant u db =
     sort_key (\<lambda>(m, d). sint (cl_seq (mw_link m)))
       [(m, d). m \<leftarrow> filter (\<lambda>m. mw_tenant m = tenant \<and> mw_unit m = u) (db_measurements (pd_store db)),
          d \<leftarrow> filter (\<lambda>d. dw_tenant d = tenant \<and> dw_id d = mw_dcp m) (pd_dcps db)]"

fun read_measurements :: "(measurement_row \<times> dcp_row) list \<Rightarrow> store_error + history_measurement list" where
  "read_measurements [] = Inr []"
| "read_measurements ((m, d) # rows) =
     and_then (value_from_columns (mw_value m)) (\<lambda>v.
     and_then (read_measurements rows) (\<lambda>hs. Inr
       (\<lparr>hm_id = mw_id m, hm_dcp_name = dw_name d, hm_unit_of_measure = dw_unit d,
         hm_operation_seq = mw_operation_seq m, hm_value = v, hm_verdict = mw_verdict m,
         hm_source = mw_source m, hm_raw_payload = mw_raw_payload m,
         hm_recorded_at = mw_recorded_at m, hm_chain_seq = cl_seq (mw_link m),
         hm_row_hash = cl_row_hash (mw_link m), hm_supersedes = mw_supersedes m\<rparr> # hs)))"

text \<open>
  The recursive walk of migration 0003, \<open>genealogy_descendants\<close>: the links of the unit at depth 1,
  then the links of each child found, once for each way it was found, while the depth is below 32.
\<close>

definition consumed_by :: "row_id \<Rightarrow> plant_db \<Rightarrow> (nat \<times> genealogy_row) list \<Rightarrow> (nat \<times> genealogy_row) list" where
  "consumed_by tenant db walk =
     [(Suc d, g). g \<leftarrow> tenant_links tenant (pd_store db),
        (d, w) \<leftarrow> filter (\<lambda>(d, w). gr_child w = Some (gr_parent g)) walk]"

fun descendants :: "row_id \<Rightarrow> plant_db \<Rightarrow> nat \<Rightarrow> (nat \<times> genealogy_row) list \<Rightarrow> (nat \<times> genealogy_row) list" where
  "descendants tenant db 0 walk = walk"
| "descendants tenant db (Suc n) walk = walk @ descendants tenant db n (consumed_by tenant db walk)"

definition genealogy_descendants :: "row_id \<Rightarrow> row_id \<Rightarrow> plant_db \<Rightarrow> (nat \<times> genealogy_row) list" where
  "genealogy_descendants tenant u db =
     descendants tenant db (RECALL_DEPTH - 1)
       (map (\<lambda>g. (1, g)) (filter (\<lambda>g. gr_parent g = u) (tenant_links tenant (pd_store db))))"

text \<open>Ordered by depth and then by time: two stable sorts, the minor key first.\<close>

definition history_components :: "row_id \<Rightarrow> row_id \<Rightarrow> plant_db \<Rightarrow> history_component list" where
  "history_components tenant u db =
     sort_key hc_depth (sort_key hc_recorded_at
       [\<lparr>hc_depth = d, hc_child_uid = map_option ur_uid cu, hc_lot_no = gr_lot g, hc_qty = gr_qty g,
         hc_operation_seq = gr_operation_seq g, hc_recorded_at = gr_recorded_at g\<rparr>.
        (d, g) \<leftarrow> genealogy_descendants tenant u db,
        cu \<leftarrow> left_join (\<lambda>r. gr_child g = Some (ur_id r)) (visible_units tenant (pd_store db))])"

definition unit_history_of ::
  "faults \<Rightarrow> row_id \<Rightarrow> string \<Rightarrow> plant_db \<Rightarrow> store_error + unit_history option" where
  "unit_history_of fails tenant uid db =
     and_then (statement fails 0 (history_head tenant uid db)) (\<lambda>heads.
       case heads of
         [] \<Rightarrow> Inr None
       | (u, p, pr, j, pl) # _ \<Rightarrow>
           and_then (statement fails 1 (history_events tenant (ur_id u) db)) (\<lambda>events.
           and_then (statement fails 2 (history_measurement_rows tenant (ur_id u) db)) (\<lambda>rows.
           and_then (read_measurements rows) (\<lambda>measurements.
           and_then (statement fails 3 (history_components tenant (ur_id u) db)) (\<lambda>components. Inr (Some
             \<lparr>uh_uid = ur_uid u, uh_serial = ur_serial u, uh_state = ur_state u,
              uh_model_no = pw_model_no p, uh_revision = vw_revision pr, uh_job_number = jw_number j,
              uh_plant = lw_code pl, uh_created_at = ur_created_at u, uh_events = events,
              uh_measurements = measurements, uh_components = components\<rparr>))))))"

section \<open>Backward and forward trace agree\<close>

lemma set_consumed_by:
  "set (consumed_by tenant db walk) =
     {(Suc d, g) | d g. g \<in> set (tenant_links tenant (pd_store db))
        \<and> (\<exists>w. (d, w) \<in> set walk \<and> gr_child w = Some (gr_parent g))}"
  by (auto simp: consumed_by_def)

text \<open>The links that are \<open>d\<close> levels below a unit.\<close>

definition links_at :: "row_id \<Rightarrow> plant_db \<Rightarrow> row_id \<Rightarrow> nat \<Rightarrow> genealogy_row set" where
  "links_at tenant db u d =
     {g \<in> set (tenant_links tenant (pd_store db)). (gr_parent g, u) \<in> built_into tenant (pd_store db) ^^ d}"

lemma consumed_by_links_at:
  assumes "set walk = {(Suc d, g) | g. g \<in> links_at tenant db u d}"
  shows "set (consumed_by tenant db walk) = {(Suc (Suc d), g) | g. g \<in> links_at tenant db u (Suc d)}"
proof -
  have "(\<exists>w \<in> links_at tenant db u d. gr_child w = Some (gr_parent g))
      \<longleftrightarrow> (gr_parent g, u) \<in> built_into tenant (pd_store db) ^^ Suc d" for g
    unfolding relpow.simps(2) relpow_commute [symmetric]
    by (auto simp: links_at_def built_into_def relcomp_unfold relpow_commute)
  then have "links_at tenant db u (Suc d) = {g \<in> set (tenant_links tenant (pd_store db)).
      \<exists>w \<in> links_at tenant db u d. gr_child w = Some (gr_parent g)}"
    by (subst links_at_def) blast
  then show ?thesis
    unfolding set_consumed_by assms by blast
qed

lemma set_descendants:
  assumes "set walk = {(Suc d, g) | g. g \<in> links_at tenant db u d}"
  shows "set (descendants tenant db n walk)
    = {(Suc k, g) | k g. d \<le> k \<and> k \<le> d + n \<and> g \<in> links_at tenant db u k}"
  using assms
proof (induction n arbitrary: walk d)
  case 0
  then show ?case
    by auto
next
  case (Suc n)
  show ?case
    using Suc.IH [OF consumed_by_links_at [OF Suc.prems]] Suc.prems
    by (auto simp: le_Suc_eq Suc_le_eq)
qed

lemma set_genealogy_descendants:
  "set (genealogy_descendants tenant u db) = {(Suc k, g) | k g. k \<le> 31 \<and> g \<in> links_at tenant db u k}"
proof -
  have "set (map (\<lambda>g. (1, g)) (filter (\<lambda>g. gr_parent g = u) (tenant_links tenant (pd_store db))))
      = {(Suc 0, g) | g. g \<in> links_at tenant db u 0}"
    by (auto simp: links_at_def)
  from set_descendants [OF this, of "RECALL_DEPTH - 1"] show ?thesis
    by (simp add: genealogy_descendants_def RECALL_DEPTH_def)
qed

lemma left_join_nonempty [simp]: "left_join P rows \<noteq> []"
  by (simp add: left_join_def split: list.split)

lemma lot_in_components:
  "(\<exists>c \<in> set (history_components tenant u db). hc_lot_no c = Some lot)
    \<longleftrightarrow> (\<exists>k \<in> {..31}. \<exists>s \<in> set (recall_seed tenant lot (pd_store db)). (s, u) \<in> built_into tenant (pd_store db) ^^ k)"
proof -
  let ?joined = "\<lambda>g. left_join (\<lambda>r. gr_child g = Some (ur_id r)) (visible_units tenant (pd_store db))"
  have "hc_lot_no ` set (history_components tenant u db)
      = (\<Union>(d, g) \<in> set (genealogy_descendants tenant u db). (\<lambda>_. gr_lot g) ` set (?joined g))"
    by (auto simp: history_components_def image_UN image_image)
  also have "\<dots> = (\<lambda>(d, g). gr_lot g) ` set (genealogy_descendants tenant u db)"
    by (auto simp: image_constant_conv)
  finally have "(Some lot \<in> hc_lot_no ` set (history_components tenant u db))
      \<longleftrightarrow> (Some lot \<in> (\<lambda>(d, g). gr_lot g) ` set (genealogy_descendants tenant u db))"
    by simp
  then have "(\<exists>c \<in> set (history_components tenant u db). hc_lot_no c = Some lot)
      \<longleftrightarrow> (\<exists>p \<in> set (genealogy_descendants tenant u db). gr_lot (snd p) = Some lot)"
    unfolding image_iff case_prod_beta by (metis (mono_tags, lifting))
  also have "\<dots> \<longleftrightarrow> (\<exists>k \<in> {..31}. \<exists>g \<in> links_at tenant db u k. gr_lot g = Some lot)"
    by (auto simp: set_genealogy_descendants)
  finally show ?thesis
    by (auto simp: links_at_def recall_seed_def)
qed

text \<open>What a history that was found is made of.\<close>

lemma history_head_set:
  "(u, p, pr, j, pl) \<in> set (history_head tenant uid db)
    \<longleftrightarrow> u \<in> set (visible_units tenant (pd_store db)) \<and> ur_uid u = uid
      \<and> pr \<in> set (pd_revisions db) \<and> vw_tenant pr = tenant \<and> vw_id pr = ur_product_revision u
      \<and> p \<in> set (pd_products db) \<and> pw_tenant p = tenant \<and> pw_id p = vw_product pr
      \<and> j \<in> set (pd_job_cards db) \<and> jw_tenant j = tenant \<and> jw_id j = ur_job_card u
      \<and> pl \<in> set (pd_plants db) \<and> lw_tenant pl = tenant \<and> lw_id pl = ur_plant u"
  by (auto simp: history_head_def image_iff)

lemma unit_history_found:
  assumes "unit_history_of fails tenant uid db = Inr (Some h)"
  obtains u where "u \<in> set (visible_units tenant (pd_store db))" "ur_uid u = uid" "uh_uid h = uid"
    "uh_serial h = ur_serial u" "uh_state h = ur_state u"
    "uh_events h = history_events tenant (ur_id u) db"
    "read_measurements (history_measurement_rows tenant (ur_id u) db) = Inr (uh_measurements h)"
    "uh_components h = history_components tenant (ur_id u) db"
proof -
  obtain u p pr j pl rest where heads: "history_head tenant uid db = (u, p, pr, j, pl) # rest"
    using assms
    by (cases "fails 0"; cases "history_head tenant uid db") (auto simp: unit_history_of_def statement_def)
  have "(u, p, pr, j, pl) \<in> set (history_head tenant uid db)"
    by (simp add: heads)
  then show thesis
    using assms heads unfolding history_head_set
    by (intro that [of u])
      (auto simp: unit_history_of_def statement_def and_then_ok split: option.splits)
qed

lemma mem_image_unique:
  assumes "u \<in> V" "f u = a" "\<And>v. v \<in> V \<Longrightarrow> f v = a \<Longrightarrow> v = u"
  shows "a \<in> f ` {v \<in> V. Q v} \<longleftrightarrow> Q u"
  using assms by (metis (mono_tags, lifting) image_iff mem_Collect_eq)

text \<open>
  C13: The two directions of trace agree.  Whenever the history of a unit shows a lot, the recall of that
  lot reports the unit; and if no chain of sub-assemblies is 32 levels long, a unit whose history is
  found shows the lot exactly when the recall reports it.
\<close>

theorem trace_directions_agree:
  assumes "units_ok db" and "unit_history_of fails tenant uid db = Inr (Some h)"
    and "units_affected_by_lot (\<lambda>_. None) tenant lot (pd_store db) = Inr found"
  shows "(Some lot \<in> hc_lot_no ` set (uh_components h) \<longrightarrow> uid \<in> au_uid ` set found)
    \<and> (built_into tenant (pd_store db) ^^ 32 = {} \<longrightarrow>
         Some lot \<in> hc_lot_no ` set (uh_components h) \<longleftrightarrow> uid \<in> au_uid ` set found)"
proof -
  let ?R = "built_into tenant (pd_store db)" and ?seed = "set (recall_seed tenant lot (pd_store db))"
  obtain u where u: "u \<in> set (visible_units tenant (pd_store db))" "ur_uid u = uid"
      "uh_components h = history_components tenant (ur_id u) db"
    using unit_history_found [OF assms(2)] by metis
  have shown: "Some lot \<in> hc_lot_no ` set (uh_components h) \<longleftrightarrow> (\<exists>k \<in> {..31}. \<exists>s \<in> ?seed. (s, ur_id u) \<in> ?R ^^ k)"
    unfolding u(3) lot_in_components [symmetric] by (auto simp: image_iff) metis
  have same: "v = u" if "v \<in> set (visible_units tenant (pd_store db))" "ur_uid v = uid" for v
    using that u(1,2) assms(1) unfolding units_ok_def distinct_map visible_units_def
    by (auto dest: inj_onD)
  have reported: "uid \<in> au_uid ` set found \<longleftrightarrow> (\<exists>k \<in> {..32}. \<exists>s \<in> ?seed. (s, ur_id u) \<in> ?R ^^ k)"
  proof -
    have "au_uid ` set found = ur_uid ` {v \<in> set (visible_units tenant (pd_store db)).
        \<exists>k \<in> {..32}. \<exists>s \<in> ?seed. (s, ur_id v) \<in> ?R ^^ k}"
      by (simp add: recall_found(1) [OF assms(3)] image_image affected_def)
    then show ?thesis
      using mem_image_unique [of u _ ur_uid uid, OF u(1,2) same] by simp
  qed
  have "{..32} = insert 32 {..31 :: nat}"
    by auto
  then show ?thesis
    unfolding shown reported by auto
qed

text \<open>A unit that consumed a lot.\<close>

definition demo_lot_plant :: plant_db where
  "demo_lot_plant = demo_plant\<lparr>pd_store := (no_evidence
     [unit_row_of plant_externals 7 0 1 demo_new_unit])\<lparr>db_links :=
       [\<lparr>gr_id = 1, gr_tenant = 1, gr_plant = 1, gr_parent = 7, gr_bom_line = None, gr_child = None,
         gr_lot = Some ''L42'', gr_qty = Some (F_Fin 4), gr_operation_seq = 20, gr_recorded_at = 5,
         gr_received_at = 5\<rparr>]\<rparr>\<rparr>"

definition demo_lot_history :: unit_history where
  "demo_lot_history =
     \<lparr>uh_uid = ''01JX8P2K7F3QW9ABCDEFGHJKMN'', uh_serial = ''S1'', uh_state = ''BORN'',
      uh_model_no = ''EX'', uh_revision = ''A'', uh_job_number = ''JC'', uh_plant = ''CBE'',
      uh_created_at = 0, uh_events = [], uh_measurements = [],
      uh_components = [\<lparr>hc_depth = 1, hc_child_uid = None, hc_lot_no = Some ''L42'',
        hc_qty = Some (F_Fin 4), hc_operation_seq = 20, hc_recorded_at = 5\<rparr>]\<rparr>"

lemma demo_lot_walk:
  "genealogy_descendants 1 7 demo_lot_plant = map (\<lambda>g. (1, g)) (db_links (pd_store demo_lot_plant))"
proof -
  have none: "consumed_by 1 demo_lot_plant walk = []" if "\<forall>(d, w) \<in> set walk. gr_child w = None" for walk
  proof -
    have "set (consumed_by 1 demo_lot_plant walk) = {}"
      using that by (auto simp: set_consumed_by)
    then show ?thesis
      by simp
  qed
  then have stop: "descendants 1 demo_lot_plant n [] = []" for n
    by (induction n) simp_all
  have "descendants 1 demo_lot_plant (Suc n) walk = walk" if "\<forall>(d, w) \<in> set walk. gr_child w = None" for n walk
    using none [OF that] stop by simp
  from this [of "map (\<lambda>g. (1, g)) (db_links (pd_store demo_lot_plant))" 30] show ?thesis
    by (simp add: genealogy_descendants_def RECALL_DEPTH_def demo_lot_plant_def tenant_links_def)
qed

lemma demo_lot_parts:
  "history_head 1 ''01JX8P2K7F3QW9ABCDEFGHJKMN'' demo_lot_plant =
     [(unit_row_of plant_externals 7 0 1 demo_new_unit, hd (pd_products demo_plant),
       hd (pd_revisions demo_plant), hd (pd_job_cards demo_plant), hd (pd_plants demo_plant))]"
  "history_events 1 7 demo_lot_plant = []" "history_measurement_rows 1 7 demo_lot_plant = []"
  by (simp_all add: history_head_def history_events_def history_measurement_rows_def demo_lot_plant_def demo_plant_def no_evidence_def
      visible_units_def unit_row_of_def demo_new_unit_def plant_uid_text)

lemma demo_lot_components: "history_components 1 7 demo_lot_plant = uh_components demo_lot_history"
  unfolding history_components_def demo_lot_walk
  by (simp add: demo_lot_plant_def demo_plant_def no_evidence_def visible_units_def
      demo_lot_history_def left_join_def)

lemma demo_lot_found:
  "unit_history_of (\<lambda>_. None) 1 ''01JX8P2K7F3QW9ABCDEFGHJKMN'' demo_lot_plant = Inr (Some demo_lot_history)"
proof -
  have id: "ur_id (unit_row_of plant_externals 7 0 1 demo_new_unit) = 7"
    by (simp add: unit_row_of_def)
  show ?thesis
    by (simp add: unit_history_of_def statement_def demo_lot_parts demo_lot_components id)
      (simp add: demo_lot_history_def unit_row_of_def demo_new_unit_def plant_uid_text demo_plant_def)
qed

lemma trace_directions_agree_witness:
  "\<exists>found. units_affected_by_lot (\<lambda>_. None) 1 ''L42'' (pd_store demo_lot_plant) = Inr found
     \<and> ''01JX8P2K7F3QW9ABCDEFGHJKMN'' \<in> au_uid ` set found"
proof -
  obtain found where run: "units_affected_by_lot (\<lambda>_. None) 1 ''L42'' (pd_store demo_lot_plant) = Inr found"
    by (simp add: units_affected_by_lot_def statement_def Let_def)
  have "units_ok demo_lot_plant"
    by (simp add: units_ok_def demo_lot_plant_def no_evidence_def unit_row_of_def is_scrapped_row_def)
  from trace_directions_agree [OF this demo_lot_found run] run show ?thesis
    by (simp add: demo_lot_history_def)
qed

section \<open>The history shows the whole chain\<close>

lemma left_join_unique:
  assumes "distinct (map f rows)" and "\<And>r. r \<in> set rows \<Longrightarrow> P r \<Longrightarrow> f r = k"
  shows "length (left_join P rows) = 1"
proof -
  have "filter P rows = [] \<or> (\<exists>r. filter P rows = [r])"
  proof (cases "filter P rows")
    case (Cons r rs)
    have "distinct (map f (filter P rows))"
      using assms(1) by (rule distinct_map_filter)
    moreover have "f q = k" if "q \<in> set (filter P rows)" for q
      using that assms(2) by simp
    ultimately have "rs = []"
      unfolding Cons by (cases rs) auto
    then show ?thesis
      by (simp add: Cons)
  qed simp
  then show ?thesis
    by (auto simp: left_join_def)
qed

lemma length_one: "length xs = 1 \<Longrightarrow> \<exists>x. xs = [x]"
  by (cases xs) auto

text \<open>The keys of the joined tables are unique, and every measurement has its collection point.\<close>

definition joins_ok :: "row_id \<Rightarrow> plant_db \<Rightarrow> bool" where
  "joins_ok tenant db \<longleftrightarrow>
     distinct (map sw_id (pd_stations db)) \<and> distinct (map aw_id (pd_users db))
     \<and> distinct (map dw_id (pd_dcps db))
     \<and> (\<forall>m \<in> set (db_measurements (pd_store db)). mw_tenant m = tenant \<longrightarrow>
          (\<exists>d \<in> set (pd_dcps db). dw_tenant d = tenant \<and> dw_id d = mw_dcp m))"

definition event_mark :: "history_event \<Rightarrow> u64 \<times> string" where
  "event_mark h = (he_chain_seq h, he_row_hash h)"

definition measurement_mark :: "history_measurement \<Rightarrow> u64 \<times> string" where
  "measurement_mark h = (hm_chain_seq h, hm_row_hash h)"

definition link_mark :: "chain_link \<Rightarrow> u64 \<times> string" where
  "link_mark l = (cl_seq l, cl_row_hash l)"

lemma mset_concat_singletons:
  assumes "\<And>x. x \<in> set xs \<Longrightarrow> mset (f x) = {#g x#}"
  shows "mset (concat (map f xs)) = mset (map g xs)"
  using assms by (induction xs) auto

lemma history_events_marks:
  assumes "joins_ok tenant db"
  shows "mset (map event_mark (history_events tenant u db))
    = mset (map (link_mark \<circ> er_link) (filter (\<lambda>e. er_tenant e = tenant \<and> er_unit e = u) (db_events (pd_store db))))"
proof -
  let ?S = "\<lambda>e. left_join (\<lambda>s. sw_tenant s = tenant \<and> er_station e = Some (sw_id s)) (pd_stations db)"
  let ?A = "\<lambda>e. left_join (\<lambda>a. aw_tenant a = tenant \<and> er_operator e = Some (aw_id a)) (pd_users db)"
  have one: "\<exists>s. ?S e = [s]" "\<exists>a. ?A e = [a]" for e
    using assms left_join_unique [of sw_id "pd_stations db" _ "the (er_station e)"]
      left_join_unique [of aw_id "pd_users db" _ "the (er_operator e)"]
    by (intro length_one; force simp: joins_ok_def)+
  show ?thesis
    unfolding history_events_def mset_map mset_sort
    unfolding mset_map [symmetric] map_concat map_map
  proof (rule mset_concat_singletons, goal_cases)
    case (1 e)
    obtain s a where "?S e = [s]" "?A e = [a]"
      using one by blast
    then show ?case
      by (simp add: event_mark_def link_mark_def)
  qed
qed

lemma read_measurements_marks:
  "read_measurements rows = Inr hs \<Longrightarrow> map measurement_mark hs = map (link_mark \<circ> mw_link \<circ> fst) rows"
  by (induction rows arbitrary: hs rule: read_measurements.induct)
    (auto simp: and_then_ok measurement_mark_def link_mark_def)

lemma history_measurements_marks:
  assumes "joins_ok tenant db"
  shows "mset (map (link_mark \<circ> mw_link \<circ> fst) (history_measurement_rows tenant u db))
    = mset (map (link_mark \<circ> mw_link) (filter (\<lambda>m. mw_tenant m = tenant \<and> mw_unit m = u)
        (db_measurements (pd_store db))))"
proof -
  have one: "\<exists>d. filter (\<lambda>d. dw_tenant d = tenant \<and> dw_id d = mw_dcp m) (pd_dcps db) = [d]"
    if "m \<in> set (db_measurements (pd_store db))" "mw_tenant m = tenant" for m
  proof -
    let ?P = "\<lambda>d. dw_tenant d = tenant \<and> dw_id d = mw_dcp m"
    have "filter ?P (pd_dcps db) \<noteq> []"
      using assms that by (auto simp: joins_ok_def filter_empty_conv)
    moreover have "length (left_join ?P (pd_dcps db)) = 1"
      using assms left_join_unique [of dw_id "pd_dcps db" ?P "mw_dcp m"] by (simp add: joins_ok_def)
    ultimately show ?thesis
      by (intro length_one) (auto simp: left_join_def split: list.splits)
  qed
  show ?thesis
    unfolding history_measurement_rows_def mset_map mset_sort
    unfolding mset_map [symmetric] map_concat map_map
  proof (rule mset_concat_singletons, goal_cases)
    case (1 m)
    then obtain d where "filter (\<lambda>d. dw_tenant d = tenant \<and> dw_id d = mw_dcp m) (pd_dcps db) = [d]"
      using one [of m] by auto
    then show ?case
      by simp
  qed
qed

text \<open>
  C18: A history is complete and shows nothing else.  After any interleaving of appends, with failing
  statements, the rows a unit's history shows are, by position and hash, exactly the links of the
  one verified chain of the unit: each event and each measurement that was reported as stored is
  shown once, however many stations and operators there are to join with.  The condition \<open>joins_ok\<close> asks
  that the collection point of every measurement exists: the schema does not enforce that, and
  \<open>unknown_point_is_dropped\<close> shows what happens without it.
\<close>

theorem history_shows_the_chain:
  assumes "length cs < 2 ^ 63" and "pd_store db = store_run x H pg (no_evidence us) cs"
    and "joins_ok tenant db" and "unit_history_of fails tenant uid db = Inr (Some h)"
  shows "\<exists>u \<in> set us. ur_tenant u = tenant \<and> ur_uid u = uid \<and>
    mset (map event_mark (uh_events h) @ map measurement_mark (uh_measurements h))
      = mset (map link_mark (append_all H (log_run x us (\<lambda>_. []) cs (tenant, ur_id u))))"
proof -
  obtain u where u: "u \<in> set (visible_units tenant (pd_store db))" "ur_uid u = uid"
      "uh_events h = history_events tenant (ur_id u) db"
      "read_measurements (history_measurement_rows tenant (ur_id u) db) = Inr (uh_measurements h)"
    using unit_history_found [OF assms(4)] by metis
  let ?rows = "chain_rows tenant (ur_id u) (pd_store db)"
  have "mset (map event_mark (uh_events h) @ map measurement_mark (uh_measurements h)) = mset (map link_mark ?rows)"
    unfolding mset_append u(3) read_measurements_marks [OF u(4)]
      history_events_marks [OF assms(3)] history_measurements_marks [OF assms(3)]
    by (simp add: chain_rows_def)
  also have "\<dots> = mset (map link_mark (ordered_rows tenant (ur_id u) (pd_store db)))"
    by (simp add: ordered_rows_def)
  also have "\<dots> = mset (map link_mark (append_all H (log_run x us (\<lambda>_. []) cs (tenant, ur_id u))))"
    using run_ordered [OF assms(1), of tenant "ur_id u" x H pg us] by (simp add: assms(2))
  finally show ?thesis
    using u(1,2) by (auto simp: visible_units_def assms(2) no_evidence_def)
qed

definition demo_chain_plant :: plant_db where
  "demo_chain_plant = demo_plant
     \<lparr>pd_store := store_run demo_externals demo_digest (\<lambda>t. t) (no_evidence [demo_unit_row]) demo_ops,
      pd_revisions := [\<lparr>vw_id = 1, vw_tenant = 1, vw_product = 5, vw_revision = ''A''\<rparr>],
      pd_job_cards := [\<lparr>jw_id = 1, jw_tenant = 1, jw_number = ''JC''\<rparr>],
      pd_dcps := [\<lparr>dw_id = 3, dw_tenant = 1, dw_name = ''leak'', dw_unit = None\<rparr>]\<rparr>"

lemma snd_append_event:
  "snd (append_event x H pg fails fresh t new db) =
     (if op_succeeds (db_units db) (EventOp fails fresh t new)
      then db\<lparr>db_events := db_events db @ [event_row_of x pg fresh t new
        (next_link x H db (EventOp fails fresh t new))]\<rparr> else db)"
  by (subst append_event_cases) (simp add: Let_def next_link_def)

lemma snd_append_measurement:
  "snd (append_measurement x H pg fails fresh t new db) =
     (if op_succeeds (db_units db) (MeasurementOp fails fresh t new)
      then db\<lparr>db_measurements := db_measurements db @ [measurement_row_of x pg fresh t new
        (next_link x H db (MeasurementOp fails fresh t new))]\<rparr> else db)"
  by (subst append_measurement_cases) (simp add: Let_def next_link_def)

lemma demo_chain_measurements:
  "\<exists>l. db_measurements (pd_store demo_chain_plant) =
     [measurement_row_of demo_externals (\<lambda>t. t) (MeasurementId (PublicId 3)) 1 demo_new_measurement l]"
  by (simp add: demo_chain_plant_def store_run_def demo_ops_def snd_append_event snd_append_measurement
      no_evidence_def demo_succeeds) blast

lemma demo_chain_found: "\<exists>h. unit_history_of (\<lambda>_. None) 1 ''U7'' demo_chain_plant = Inr (Some h)"
proof -
  have head: "\<exists>p pr j pl rest. history_head 1 ''U7'' demo_chain_plant = (demo_unit_row, p, pr, j, pl) # rest"
    by (simp add: history_head_def demo_chain_plant_def demo_plant_def visible_units_def no_evidence_def
        demo_unit_row_def)
  obtain l where ms: "db_measurements (pd_store demo_chain_plant) =
      [measurement_row_of demo_externals (\<lambda>t. t) (MeasurementId (PublicId 3)) 1 demo_new_measurement l]"
    using demo_chain_measurements by blast
  have "\<exists>hs. read_measurements (history_measurement_rows 1 7 demo_chain_plant) = Inr hs"
    unfolding history_measurement_rows_def ms
    by (simp add: demo_chain_plant_def measurement_row_of_def demo_new_measurement_def value_columns_round_trip
        del: columns_of_value.simps)
  moreover have "ur_id demo_unit_row = 7"
    by (simp add: demo_unit_row_def)
  ultimately show ?thesis
    using head by (auto simp: unit_history_of_def statement_def)
qed

lemma history_shows_the_chain_witness:
  "\<exists>h. unit_history_of (\<lambda>_. None) 1 ''U7'' demo_chain_plant = Inr (Some h)
    \<and> length (uh_events h) + length (uh_measurements h) = 2"
proof -
  obtain h where h: "unit_history_of (\<lambda>_. None) 1 ''U7'' demo_chain_plant = Inr (Some h)"
    using demo_chain_found by blast
  have joins: "joins_ok 1 demo_chain_plant"
  proof -
    obtain l where ms: "db_measurements (pd_store demo_chain_plant) =
        [measurement_row_of demo_externals (\<lambda>t. t) (MeasurementId (PublicId 3)) 1 demo_new_measurement l]"
      using demo_chain_measurements by blast
    have rows: "pd_stations demo_chain_plant = []" "pd_users demo_chain_plant = []"
        "pd_dcps demo_chain_plant = [\<lparr>dw_id = 3, dw_tenant = 1, dw_name = ''leak'', dw_unit = None\<rparr>]"
      by (simp_all add: demo_chain_plant_def demo_plant_def)
    show ?thesis
      unfolding joins_ok_def ms rows by (simp add: measurement_row_of_def demo_new_measurement_def)
  qed
  have run: "pd_store demo_chain_plant
      = store_run demo_externals demo_digest (\<lambda>t. t) (no_evidence [demo_unit_row]) demo_ops"
    by (simp add: demo_chain_plant_def)
  have "length demo_ops < 2 ^ 63"
    by (simp add: demo_ops_def)
  from history_shows_the_chain [OF this run joins h]
  have "mset (map event_mark (uh_events h) @ map measurement_mark (uh_measurements h))
      = mset (map link_mark (append_all demo_digest
          (log_run demo_externals [demo_unit_row] (\<lambda>_. []) demo_ops (1, 7))))"
    by (simp add: demo_unit_row_def)
  from arg_cong [OF this, of size] have "length (uh_events h) + length (uh_measurements h) = 2"
    by (simp add: demo_log_length)
  with h show ?thesis
    by blast
qed

text \<open>
  The schema does not enforce the last part of \<open>joins_ok\<close>: \<open>measurement.dcp_id\<close> is a bare number with no
  foreign key, and the append does not look the point up.  The inner join then drops the reading: the
  history of this plant is found and shows no measurement, while the store holds one.
\<close>

lemma unknown_point_is_dropped:
  "\<exists>h. unit_history_of (\<lambda>_. None) 1 ''U7'' (demo_chain_plant\<lparr>pd_dcps := []\<rparr>) = Inr (Some h)
    \<and> uh_measurements h = [] \<and> length (db_measurements (pd_store (demo_chain_plant\<lparr>pd_dcps := []\<rparr>))) = 1"
proof -
  let ?db = "demo_chain_plant\<lparr>pd_dcps := []\<rparr>"
  obtain l where ms: "db_measurements (pd_store demo_chain_plant) =
      [measurement_row_of demo_externals (\<lambda>t. t) (MeasurementId (PublicId 3)) 1 demo_new_measurement l]"
    using demo_chain_measurements by blast
  have head: "\<exists>p pr j pl rest. history_head 1 ''U7'' ?db = (demo_unit_row, p, pr, j, pl) # rest"
    by (simp add: history_head_def demo_chain_plant_def demo_plant_def visible_units_def no_evidence_def
        demo_unit_row_def)
  have "history_measurement_rows 1 (ur_id demo_unit_row) ?db = []"
    by (simp add: history_measurement_rows_def ms)
  then show ?thesis
    using head by (auto simp: unit_history_of_def statement_def ms)
qed

section \<open>Stored rows are well typed\<close>

text \<open>
  What the schema promises of every row: the texts that stand for an enumeration are names of it, a
  measurement's columns hold one value of its datatype, and evidence belongs to a unit of its tenant.
\<close>

definition unit_keys :: "plant_db \<Rightarrow> (row_id \<times> row_id) set" where
  "unit_keys db = (\<lambda>u. (ur_tenant u, ur_id u)) ` set (plant_units db)"

definition event_typed :: "plant_db \<Rightarrow> event_row \<Rightarrow> bool" where
  "event_typed db e \<longleftrightarrow> er_kind e \<in> range kind_name \<and> (er_tenant e, er_unit e) \<in> unit_keys db"

definition measurement_typed :: "plant_db \<Rightarrow> measurement_row \<Rightarrow> bool" where
  "measurement_typed db m \<longleftrightarrow>
     mw_value m \<in> range columns_of_value \<and> mw_verdict m \<in> {''PASS'', ''FAIL''}
     \<and> mw_source m \<in> {''DEVICE'', ''MANUAL''} \<and> (mw_tenant m, mw_unit m) \<in> unit_keys db"

definition rows_typed :: "plant_db \<Rightarrow> bool" where
  "rows_typed db \<longleftrightarrow>
     (\<forall>u \<in> set (plant_units db). ur_state u \<in> range state_name)
     \<and> (\<forall>e \<in> set (db_events (pd_store db)). event_typed db e)
     \<and> (\<forall>m \<in> set (db_measurements (pd_store db)). measurement_typed db m)"

lemma typed_mono:
  assumes "unit_keys db \<subseteq> unit_keys db'"
  shows "event_typed db e \<Longrightarrow> event_typed db' e" "measurement_typed db m \<Longrightarrow> measurement_typed db' m"
  using assms by (auto simp: event_typed_def measurement_typed_def)

lemma rows_typed_units:
  assumes "rows_typed db" and "unit_keys db \<subseteq> unit_keys db'"
    and "db_events (pd_store db') = db_events (pd_store db)"
    and "db_measurements (pd_store db') = db_measurements (pd_store db)"
    and "\<forall>u \<in> set (plant_units db'). ur_state u \<in> range state_name"
  shows "rows_typed db'"
  using assms typed_mono [OF assms(2)] by (simp add: rows_typed_def)

lemma with_units_rows [simp]:
  "db_events (pd_store (with_units us db)) = db_events (pd_store db)"
  "db_measurements (pd_store (with_units us db)) = db_measurements (pd_store db)"
  by (simp_all add: with_units_def)

lemma succeeds_unit_key:
  "op_succeeds (plant_units db) c \<Longrightarrow> op_owner c \<in> unit_keys db"
  by (cases "op_owner c") (force simp: op_succeeds_def unit_keys_def image_iff)

lemma born_state_name: "''BORN'' \<in> range state_name"
  using rangeI [of state_name Born] by simp

lemma insert_unit_typed:
  assumes "rows_typed db"
  shows "rows_typed (snd (insert_unit x msg fails fresh now tenant new db))"
proof -
  let ?u = "unit_row_of x fresh now tenant new"
  have born: "ur_state ?u \<in> range state_name"
    using born_state_name by (simp add: unit_row_of_def)
  have "rows_typed (with_units (plant_units db @ [?u]) db)"
    using assms born by (intro rows_typed_units [OF assms]) (auto simp: unit_keys_def rows_typed_def)
  then show ?thesis
    using assms insert_unit_cases [of x msg fails fresh now tenant new db] by (metis snd_conv)
qed

lemma set_unit_state_typed:
  assumes "rows_typed db"
  shows "rows_typed (snd (set_unit_state fails tenant uid s current_op db))"
proof (cases rule: set_unit_state_cases [of fails tenant uid s current_op db])
  case (refused e)
  then show ?thesis
    using assms by simp
next
  case moves
  have "(\<lambda>u. (ur_tenant u, ur_id u)) (moved tenant uid s current_op u) = (ur_tenant u, ur_id u)" for u
    by (simp add: moved_def)
  moreover have "ur_state (moved tenant uid s current_op u) \<in> range state_name"
    if "u \<in> set (plant_units db)" for u
    using assms that by (auto simp: moved_def rows_typed_def)
  ultimately show ?thesis
    unfolding moves(1) by (intro rows_typed_units [OF assms]) (auto simp: unit_keys_def image_image)
qed

lemma store_exec_typed:
  assumes "rows_typed db"
  shows "rows_typed (db\<lparr>pd_store := store_exec x H pg (pd_store db) c\<rparr>)"
proof -
  let ?db = "db\<lparr>pd_store := store_exec x H pg (pd_store db) c\<rparr>"
  have keys: "unit_keys ?db = unit_keys db"
    by (simp add: unit_keys_def)
  show ?thesis
  proof (cases "op_succeeds (plant_units db) c")
    case True
    note key = succeeds_unit_key [OF True]
    show ?thesis
      using assms True key unfolding rows_typed_def event_typed_def measurement_typed_def keys
      by (cases c) (auto simp: snd_append_event snd_append_measurement event_row_of_def
          measurement_row_of_def split: value_source.splits)
  next
    case False
    then show ?thesis
      using assms by (cases c) (simp_all add: snd_append_event snd_append_measurement)
  qed
qed

lemma plant_run_typed: "rows_typed db \<Longrightarrow> rows_typed (plant_run x H msg pg db cs)"
proof (induction cs arbitrary: db)
  case (Cons c cs)
  have "rows_typed (plant_exec x H msg pg db c)"
    using Cons.prems insert_unit_typed set_unit_state_typed store_exec_typed by (cases c) simp_all
  then show ?case
    by (simp add: Cons.IH)
qed simp

text \<open>Progress: the history of a well-typed database can always be read.\<close>

lemma read_measurements_ok:
  assumes "\<forall>r \<in> set rows. mw_value (fst r) \<in> range columns_of_value"
  shows "\<exists>hs. read_measurements rows = Inr hs"
  using assms
proof (induction rows rule: read_measurements.induct)
  case (2 m d rows)
  then obtain hs v where "read_measurements rows = Inr hs" "mw_value m = columns_of_value v"
    by auto
  then show ?case
    by (simp add: value_columns_round_trip del: columns_of_value.simps)
qed simp

lemma history_of_typed:
  assumes "rows_typed db"
  shows "\<exists>found. unit_history_of (\<lambda>_. None) tenant uid db = Inr found
    \<and> (found = None \<longleftrightarrow> history_head tenant uid db = [])"
proof (cases "history_head tenant uid db")
  case (Cons head rest)
  obtain u p pr j pl where head: "head = (u, p, pr, j, pl)"
    by (cases head)
  have "\<exists>hs. read_measurements (history_measurement_rows tenant (ur_id u) db) = Inr hs"
    using assms by (intro read_measurements_ok)
      (auto simp: history_measurement_rows_def rows_typed_def measurement_typed_def)
  then show ?thesis
    by (auto simp: unit_history_of_def statement_def Cons head)
qed (simp add: unit_history_of_def statement_def)

text \<open>
  C29: Stored rows are well typed, and what is stored can be read.  From a database without units and
  evidence, after any sequence of births, moves and appends with any failures: every state and every
  event kind is the name of one, every measurement's columns hold a value of their datatype, its
  verdict and source are names, and all evidence belongs to a unit of its tenant; so no history ever
  fails to decode, and it is found for every unit whose references are its tenant's.
\<close>

theorem stored_rows_are_well_typed:
  assumes "plant_units base = []" "db_events (pd_store base) = []" "db_measurements (pd_store base) = []"
    and db_def: "db = plant_run x H msg pg base cs"
  shows "rows_typed db \<and> (\<exists>found. unit_history_of (\<lambda>_. None) tenant uid db = Inr found
    \<and> (found = None \<longleftrightarrow> history_head tenant uid db = []))"
proof -
  have "rows_typed base"
    using assms(1-3) by (simp add: rows_typed_def)
  then have "rows_typed db"
    unfolding db_def by (rule plant_run_typed)
  then show ?thesis
    using history_of_typed by blast
qed

lemma stored_rows_are_well_typed_witness:
  "rows_typed (plant_run plant_externals demo_digest (\<lambda>n. n) (\<lambda>t. t) demo_plant
     (demo_before @ [ChainOp (EventOp (\<lambda>_. None) (EventId (PublicId 1)) 1 demo_new_event)]))"
  by (rule conjunct1 [OF stored_rows_are_well_typed [OF _ _ _ refl, of demo_plant]])
    (simp_all add: demo_plant_def no_evidence_def)

end
