(* ===== verification/Page.thy ===== *)
theory Page
  imports History
begin

text \<open>
  The public trace page: \<open>apps/trace-edge/src/page.rs\<close>.  The literal parts of the page are the
  format strings of the source; how the language prints a double is the parameter \<open>show_f64\<close>.
\<close>

section \<open>Escaping\<close>

definition escape_html_char :: "char \<Rightarrow> string" where
  "escape_html_char c =
     (if c = CHR ''&'' then ''&amp;''
      else if c = CHR ''<'' then ''&lt;''
      else if c = CHR ''>'' then ''&gt;''
      else if c = CHR 0x22 then ''&quot;''
      else if c = CHR 0x27 then ''&#39;''
      else [c])"

definition escape_html :: "string \<Rightarrow> string" where
  "escape_html s = concat (map escape_html_char s)"

text \<open>The characters that open or close a tag or an attribute.\<close>

definition is_markup :: "char \<Rightarrow> bool" where
  "is_markup c \<longleftrightarrow> c = CHR ''<'' \<or> c = CHR ''>'' \<or> c = CHR 0x22 \<or> c = CHR 0x27"

interpretation html: text_code escape_html_char is_markup
proof
  show "d \<in> set (escape_html_char c) \<Longrightarrow> \<not> is_markup d" for c d
    by (auto simp: escape_html_char_def is_markup_def split: if_splits)
  show "prefix (escape_html_char c) (escape_html_char d) \<Longrightarrow> c = d" for c d
    by (auto simp: escape_html_char_def split: if_splits)
qed

section \<open>The page\<close>

definition PAGE_HEAD :: string where
  "PAGE_HEAD = ''<!doctype html>
<html lang=\"en\"><head>
<meta charset=\"utf-8\">
<meta name=\"viewport\" content=\"width=device-width,initial-scale=1\">
<title>''"

definition PAGE_STYLE :: string where
  "PAGE_STYLE = '' &middot; ElectronIx Trace</title>
<style>
:root{color-scheme:light dark}
*{box-sizing:border-box}
body{margin:0;padding:1rem;font:15px/1.5 system-ui,-apple-system,Segoe UI,Roboto,sans-serif;
background:#f6f7f9;color:#14181f}
@media(prefers-color-scheme:dark){body{background:#12151a;color:#e6e9ee}
.card{background:#1b1f27!important;border-color:#2a303b!important}
th{background:#232833!important} td,th{border-color:#2a303b!important}}
.wrap{max-width:60rem;margin:0 auto}
h1{font-size:1.3rem;margin:.2rem 0}
.uid{font-family:ui-monospace,SFMono-Regular,Menlo,monospace;font-size:1rem;
letter-spacing:.02em;word-break:break-all}
.card{background:#fff;border:1px solid #dfe3ea;border-radius:10px;padding:1rem;margin:1rem 0}
.meta{display:grid;grid-template-columns:repeat(auto-fit,minmax(11rem,1fr));gap:.6rem}
.meta div span{display:block;font-size:.75rem;text-transform:uppercase;
letter-spacing:.05em;opacity:.6}
table{width:100%;border-collapse:collapse;font-size:.85rem}
th,td{text-align:left;padding:.4rem .5rem;border-bottom:1px solid #e6e9ef;vertical-align:top}
th{background:#f0f2f6;font-weight:600;position:sticky;top:0}
.scroll{overflow-x:auto}
.pass{color:#0a7d33;font-weight:600}
.fail{color:#c0281c;font-weight:700}
.state{display:inline-block;padding:.15rem .5rem;border-radius:99px;font-size:.75rem;
font-weight:700;background:#e7edf5;letter-spacing:.04em}
.h,.raw{font-family:ui-monospace,Menlo,monospace;font-size:.75rem;opacity:.75;
word-break:break-all}
.none{opacity:.55;font-style:italic}
footer{font-size:.75rem;opacity:.6;margin:1.5rem 0 .5rem}
</style></head>
<body><div class=\"wrap\">

<h1>''"

definition PAGE_2 :: string where
  "PAGE_2 = '' <span class=\"state\">''"

definition PAGE_3 :: string where
  "PAGE_3 = ''</span></h1>
<div class=\"uid\">''"

definition PAGE_4 :: string where
  "PAGE_4 = ''</div>

<div class=\"card\"><div class=\"meta\">
<div><span>Serial</span>''"

definition PAGE_5 :: string where
  "PAGE_5 = ''</div>
<div><span>Model</span>''"

definition PAGE_6 :: string where
  "PAGE_6 = ''</div>
<div><span>Revision</span>''"

definition PAGE_7 :: string where
  "PAGE_7 = ''</div>
<div><span>Job card</span>''"

definition PAGE_8 :: string where
  "PAGE_8 = ''</div>
<div><span>Plant</span>''"

definition PAGE_9 :: string where
  "PAGE_9 = ''</div>
<div><span>Born</span>''"

definition PAGE_10 :: string where
  "PAGE_10 = ''</div>
</div></div>

<div class=\"card\"><h2>Components consumed</h2><div class=\"scroll\"><table>
<thead><tr><th>Depth</th><th>Item</th><th>Op</th><th>When</th></tr></thead>
<tbody>''"

definition PAGE_11 :: string where
  "PAGE_11 = ''</tbody></table></div></div>

<div class=\"card\"><h2>Measurements</h2><div class=\"scroll\"><table>
<thead><tr><th>When</th><th>Point</th><th>Value</th><th>Verdict</th><th>Source</th>
<th>Raw device payload</th></tr></thead>
<tbody>''"

definition PAGE_12 :: string where
  "PAGE_12 = ''</tbody></table></div></div>

<div class=\"card\"><h2>Event history</h2><div class=\"scroll\"><table>
<thead><tr><th>When</th><th>Event</th><th>Op</th><th>Station</th><th>Operator</th>
<th>Hash</th></tr></thead>
<tbody>''"

definition PAGE_13 :: string where
  "PAGE_13 = ''</tbody></table></div></div>

<footer>ElectronIx Trace &middot; every measurement is hash chained and append only.
Raw device payloads are retained verbatim.</footer>
</div></body></html>''"

definition or_text :: "string \<Rightarrow> string option \<Rightarrow> string" where
  "or_text t s = (case s of None \<Rightarrow> t | Some v \<Rightarrow> v)"

definition show_i32 :: "u32 \<Rightarrow> string" where
  "show_i32 w = show_int (sint w)"

definition event_html :: "externals \<Rightarrow> history_event \<Rightarrow> string" where
  "event_html x e =
     ''<tr><td>'' @ escape_html (rfc3339 x (he_recorded_at e))
     @ ''</td><td>'' @ escape_html (he_kind e)
     @ ''</td><td>'' @ (case he_operation_seq e of None \<Rightarrow> ''-'' | Some v \<Rightarrow> show_i32 v)
     @ ''</td><td>'' @ escape_html (or_text ''-'' (he_station e))
     @ ''</td><td>'' @ escape_html (or_text ''-'' (he_operator e))
     @ ''</td><td class=\"h\">'' @ escape_html (take 12 (he_row_hash e)) @ ''</td></tr>''"

definition measurement_html :: "externals \<Rightarrow> history_measurement \<Rightarrow> string" where
  "measurement_html x m =
     ''<tr><td>'' @ escape_html (rfc3339 x (hm_recorded_at m))
     @ ''</td><td>'' @ escape_html (hm_dcp_name m)
     @ ''</td><td>'' @ escape_html (canonical x (hm_value m))
     @ '' '' @ escape_html (or_text [] (hm_unit_of_measure m))
     @ ''</td><td class=\"'' @ (if hm_verdict m = ''PASS'' then ''pass'' else ''fail'')
     @ ''\">'' @ escape_html (hm_verdict m)
     @ ''</td><td>'' @ escape_html (hm_source m)
     @ ''</td><td class=\"raw\">'' @ escape_html (or_text ''-'' (hm_raw_payload m)) @ ''</td></tr>''"

definition component_html :: "externals \<Rightarrow> (f64 \<Rightarrow> string) \<Rightarrow> history_component \<Rightarrow> string" where
  "component_html x show_f64 c =
     (let what = (case hc_child_uid c of
          None \<Rightarrow> ''lot '' @ escape_html (or_text ''-'' (hc_lot_no c)) @ '' &times; ''
            @ show_f64 (case hc_qty c of None \<Rightarrow> F_Fin 0 | Some q \<Rightarrow> q)
        | Some uid \<Rightarrow> ''unit <a href=\"/t/'' @ escape_html uid @ ''\">'' @ escape_html uid @ ''</a>'')
      in ''<tr><td>'' @ show_nat (hc_depth c) @ ''</td><td>'' @ what
       @ ''</td><td>'' @ show_i32 (hc_operation_seq c)
       @ ''</td><td>'' @ escape_html (rfc3339 x (hc_recorded_at c)) @ ''</td></tr>'')"

definition empty_note :: "string \<Rightarrow> string \<Rightarrow> string" where
  "empty_note s what =
     (if s = [] then ''<tr><td colspan=\"6\" class=\"none\">no '' @ what @ '' recorded</td></tr>'' else s)"

definition render_page :: "externals \<Rightarrow> (f64 \<Rightarrow> string) \<Rightarrow> unit_history \<Rightarrow> string" where
  "render_page x show_f64 h =
     (let events = concat (map (event_html x) (uh_events h));
          measurements = concat (map (measurement_html x) (uh_measurements h));
          components = concat (map (component_html x show_f64) (uh_components h))
      in PAGE_HEAD @ escape_html (uh_serial h) @ PAGE_STYLE @ escape_html (uh_model_no h)
       @ PAGE_2 @ escape_html (uh_state h) @ PAGE_3 @ escape_html (uh_uid h)
       @ PAGE_4 @ escape_html (uh_serial h) @ PAGE_5 @ escape_html (uh_model_no h)
       @ PAGE_6 @ escape_html (uh_revision h) @ PAGE_7 @ escape_html (uh_job_number h)
       @ PAGE_8 @ escape_html (uh_plant h) @ PAGE_9 @ escape_html (rfc3339 x (uh_created_at h))
       @ PAGE_10 @ empty_note components ''components''
       @ PAGE_11 @ empty_note measurements ''measurements''
       @ PAGE_12 @ empty_note events ''events'' @ PAGE_13)"

definition NOT_FOUND_HEAD :: string where
  "NOT_FOUND_HEAD = ''<!doctype html><html lang=\"en\"><head><meta charset=\"utf-8\">
<meta name=\"viewport\" content=\"width=device-width,initial-scale=1\">
<title>Not found &middot; ElectronIx Trace</title>
<style>body{font:15px/1.6 system-ui,sans-serif;margin:0;padding:2rem;text-align:center;
color:#14181f;background:#f6f7f9}
code{font-family:ui-monospace,Menlo,monospace;background:#e7ebf1;padding:.2rem .4rem;
border-radius:4px;word-break:break-all}
@media(prefers-color-scheme:dark){body{background:#12151a;color:#e6e9ee}
code{background:#232833}}</style></head>
<body><h1>No unit found</h1>
<p><code>''"

definition NOT_FOUND_TAIL :: string where
  "NOT_FOUND_TAIL = ''</code> does not match any unit known to this plant.</p>
<p style=\"opacity:.7;font-size:.9rem\">If this code was printed at another site, it must be
looked up there. Check the human-readable text beside the code.</p>
</body></html>''"

definition not_found_page :: "string \<Rightarrow> string" where
  "not_found_page uid = NOT_FOUND_HEAD @ escape_html uid @ NOT_FOUND_TAIL"

section \<open>What is recorded cannot change the page\<close>

definition markup :: "string \<Rightarrow> string" where
  "markup s = filter is_markup s"

lemma markup_append: "markup (s @ t) = markup s @ markup t"
  by (simp add: markup_def)

lemma markup_escape: "markup (escape_html s) = []"
  unfolding markup_def escape_html_def by (rule html.escaped_safe)

lemma markup_digits: "(\<And>c. c \<in> set s \<Longrightarrow> is_digit_char c \<or> c = CHR ''-'') \<Longrightarrow> markup s = []"
proof -
  have "\<not> (is_digit_char c \<or> c = CHR ''-'')" if "is_markup c" for c
    using that by (auto simp: is_markup_def is_digit_char_def)
  then show "(\<And>c. c \<in> set s \<Longrightarrow> is_digit_char c \<or> c = CHR ''-'') \<Longrightarrow> markup s = []"
    by (auto simp: markup_def filter_empty_all)
qed

lemma markup_show_i32: "markup (show_i32 w) = []"
  by (rule markup_digits) (auto simp: show_i32_def show_int_def split: if_splits dest: show_nat_digits)

lemma markup_show_nat: "markup (show_nat n) = []"
  by (rule markup_digits) (auto dest: show_nat_digits)

text \<open>
  Two histories of the same shape: the same numbers of rows, each measurement passed or did not
  pass in both, each component is a unit in both or a lot in both.
\<close>

definition same_shape :: "unit_history \<Rightarrow> unit_history \<Rightarrow> bool" where
  "same_shape h h' \<longleftrightarrow>
     length (uh_events h) = length (uh_events h')
     \<and> list_all2 (\<lambda>m m'. hm_verdict m = ''PASS'' \<longleftrightarrow> hm_verdict m' = ''PASS'')
         (uh_measurements h) (uh_measurements h')
     \<and> list_all2 (\<lambda>c c'. hc_child_uid c = None \<longleftrightarrow> hc_child_uid c' = None)
         (uh_components h) (uh_components h')"

lemma markup_plain: "markup ''-'' = []"
  by (simp_all add: markup_def is_markup_def)

lemmas markup_simps = markup_append markup_escape markup_show_i32 markup_show_nat

lemma markup_event: "markup (event_html x e) = markup (event_html x e')"
proof -
  have op: "markup (case he_operation_seq e of None \<Rightarrow> ''-'' | Some v \<Rightarrow> show_i32 v) = []" for e
    by (cases "he_operation_seq e") (simp_all only: option.case markup_simps markup_plain)
  show ?thesis
    unfolding event_html_def markup_simps op ..
qed

lemma markup_measurement:
  "(hm_verdict m = ''PASS'' \<longleftrightarrow> hm_verdict m' = ''PASS'') \<Longrightarrow>
   markup (measurement_html x m) = markup (measurement_html x m')"
  unfolding measurement_html_def markup_simps by (simp only:)

lemma markup_component:
  assumes "\<And>q. markup (show_f64 q) = []" and "hc_child_uid c = None \<longleftrightarrow> hc_child_uid c' = None"
  shows "markup (component_html x show_f64 c) = markup (component_html x show_f64 c')"
proof (cases "hc_child_uid c")
  case None
  then have "hc_child_uid c' = None"
    using assms(2) by simp
  then show ?thesis
    unfolding component_html_def Let_def markup_simps None option.case assms(1) by (simp only: option.case markup_simps assms(1))
next
  case (Some a)
  then obtain b where "hc_child_uid c' = Some b"
    using assms(2) by fastforce
  then show ?thesis
    unfolding component_html_def Let_def markup_simps Some option.case by (simp only: option.case markup_simps)
qed

lemma row_nonempty [simp]:
  "event_html x e \<noteq> []" "measurement_html x m \<noteq> []" "component_html x show_f64 c \<noteq> []"
  by (simp_all add: event_html_def measurement_html_def component_html_def Let_def)

lemma markup_rows:
  assumes "list_all2 (\<lambda>a b. markup (f a) = markup (g b)) as bs"
  shows "markup (concat (map f as)) = markup (concat (map g bs))"
  using assms by (induction rule: list_all2_induct) (simp_all add: markup_append)

lemma markup_empty_note:
  assumes "markup s = markup t" and "s = [] \<longleftrightarrow> t = []"
  shows "markup (empty_note s what) = markup (empty_note t what)"
  using assms by (simp add: empty_note_def)

lemma rows_empty: "(\<And>a. f a \<noteq> []) \<Longrightarrow> concat (map f as) = [] \<longleftrightarrow> as = []"
  by (cases as) simp_all

text \<open>
  C20: Nothing that is recorded can add, remove or alter a tag or an attribute of the trace page: two
  histories of the same shape give pages with the same sequence of markup characters, whatever their
  serials, lots, operators, raw device payloads and other texts are.  And no text is lost: what is
  shown of two different texts differs.
\<close>

theorem page_markup_is_fixed:
  assumes "\<forall>q. filter is_markup (show_f64 q) = []" and "same_shape h h'"
  shows "filter is_markup (render_page x show_f64 h) = filter is_markup (render_page x show_f64 h')
    \<and> filter is_markup (not_found_page a) = filter is_markup (not_found_page b)
    \<and> (escape_html a = escape_html b \<longleftrightarrow> a = b)"
proof -
  have num: "markup (show_f64 q) = []" for q
    using assms(1) by (simp add: markup_def)
  have events: "markup (concat (map (event_html x) (uh_events h))) = markup (concat (map (event_html x) (uh_events h')))"
    using assms(2) markup_event by (intro markup_rows) (auto simp: same_shape_def list_all2_conv_all_nth)
  have measurements: "markup (concat (map (measurement_html x) (uh_measurements h)))
      = markup (concat (map (measurement_html x) (uh_measurements h')))"
    using assms(2) by (intro markup_rows) (auto simp: same_shape_def elim!: list_all2_mono intro: markup_measurement)
  have components: "markup (concat (map (component_html x show_f64) (uh_components h)))
      = markup (concat (map (component_html x show_f64) (uh_components h')))"
    using assms(2) by (intro markup_rows)
      (auto simp: same_shape_def elim!: list_all2_mono intro!: markup_component num)
  have lengths: "uh_events h = [] \<longleftrightarrow> uh_events h' = []" "uh_measurements h = [] \<longleftrightarrow> uh_measurements h' = []"
      "uh_components h = [] \<longleftrightarrow> uh_components h' = []"
    using assms(2) by (auto simp: same_shape_def)
  have "markup (render_page x show_f64 h) = markup (render_page x show_f64 h')"
    unfolding render_page_def Let_def markup_simps
    by (simp only: markup_empty_note [OF events] markup_empty_note [OF measurements]
        markup_empty_note [OF components] rows_empty row_nonempty lengths not_False_eq_True)
  moreover have "markup (not_found_page a) = markup (not_found_page b)"
    unfolding not_found_page_def markup_simps ..
  ultimately show ?thesis
    by (simp add: markup_def escape_html_def html.escaped_inject)
qed

lemma page_markup_is_fixed_witness:
  "filter is_markup (render_page demo_externals (\<lambda>_. ''0'') (demo_lot_history\<lparr>uh_serial := ''<script>''\<rparr>))
   = filter is_markup (render_page demo_externals (\<lambda>_. ''0'') demo_lot_history)"
proof -
  have "same_shape (demo_lot_history\<lparr>uh_serial := ''<script>''\<rparr>) demo_lot_history"
    by (simp add: same_shape_def demo_lot_history_def)
  moreover have "\<forall>q. filter is_markup ((\<lambda>_ :: f64. ''0'') q) = []"
    by (simp add: is_markup_def)
  ultimately show ?thesis
    using page_markup_is_fixed [of "\<lambda>_. ''0''"] by blast
qed

end
