(* ===== verification/Edge.thy ===== *)
theory Edge
  imports Page License Billing
begin

text \<open>
  The edge service, \<open>apps/trace-edge/src\<close>: its configuration (\<open>config.rs\<close>), the licence it loads at
  startup (\<open>main.rs\<close>), its state (\<open>state.rs\<close>) and its request handlers (\<open>routes.rs\<close>).  A request is
  what the web framework has parsed of it; a reply is the value that the framework then serialises.
\<close>

section \<open>Configuration\<close>

record edge_config =
  cfg_database_url :: string
  cfg_bind_addr :: string
  cfg_tenant :: row_id
  cfg_plant :: row_id
  cfg_trace_base_url :: string
  cfg_license_pubkey_hex :: "string option"
  cfg_update_pubkey_hex :: "string option"
  cfg_update_cohort :: string
  cfg_stripe_webhook_secret :: "string option"

type_synonym environment = "string \<Rightarrow> string option"

definition env_or :: "environment \<Rightarrow> string \<Rightarrow> string \<Rightarrow> string" where
  "env_or env key dflt = (case env key of Some v \<Rightarrow> v | None \<Rightarrow> dflt)"

text \<open>\<open>int_error\<close> is the standard library's message for a text that is no 64-bit integer.\<close>

definition parse_env :: "environment \<Rightarrow> (string \<Rightarrow> string) \<Rightarrow> string \<Rightarrow> row_id \<Rightarrow> string + row_id" where
  "parse_env env int_error key dflt =
     (case env key of
        None \<Rightarrow> Inr dflt
      | Some v \<Rightarrow>
          (case parse_i64 v of None \<Rightarrow> Inl (key @ '': '' @ int_error v) | Some w \<Rightarrow> Inr (sint w)))"

definition non_empty :: "environment \<Rightarrow> string \<Rightarrow> string option" where
  "non_empty env key = (case env key of None \<Rightarrow> None | Some v \<Rightarrow> if trim v = [] then None else Some v)"

definition config_from_env ::
  "environment \<Rightarrow> (string \<Rightarrow> string + string) \<Rightarrow> (string \<Rightarrow> string) \<Rightarrow> string + edge_config" where
  "config_from_env env parse_addr int_error =
     (case env ''TRACE_DATABASE_URL'' of
        None \<Rightarrow> Inl ''TRACE_DATABASE_URL is required''
      | Some url \<Rightarrow>
          and_then (parse_addr (env_or env ''TRACE_BIND_ADDR'' ''0.0.0.0:8080'')) (\<lambda>addr.
          and_then (parse_env env int_error ''TRACE_TENANT_ID'' 1) (\<lambda>tenant.
          and_then (parse_env env int_error ''TRACE_PLANT_ID'' 1) (\<lambda>plant. Inr
            \<lparr>cfg_database_url = url, cfg_bind_addr = addr, cfg_tenant = tenant, cfg_plant = plant,
             cfg_trace_base_url = env_or env ''TRACE_BASE_URL'' ''http://trace.plant.local'',
             cfg_license_pubkey_hex = non_empty env ''TRACE_LICENSE_PUBKEY_HEX'',
             cfg_update_pubkey_hex = non_empty env ''TRACE_UPDATE_PUBKEY_HEX'',
             cfg_update_cohort = env_or env ''TRACE_UPDATE_COHORT'' ''default'',
             cfg_stripe_webhook_secret = non_empty env ''STRIPE_WEBHOOK_SECRET''\<rparr>))))"

section \<open>The licence at startup\<close>

text \<open>\<open>read\<close> gives the content of a file that can be read.\<close>

definition node_id :: "sign_lib \<Rightarrow> environment \<Rightarrow> (string \<Rightarrow> string option) \<Rightarrow> string" where
  "node_id L env read =
     (let fingerprint = (case env ''TRACE_NODE_FINGERPRINT'' of
          Some f \<Rightarrow> f
        | None \<Rightarrow> (case read ''/etc/machine-id'' of Some t \<Rightarrow> t | None \<Rightarrow> ''unknown-node''))
      in node_id_from_fingerprint L (trim fingerprint))"

text \<open>\<open>read_envelope\<close> and \<open>from_slice\<close> are the JSON readers; \<open>None\<close> is a panic.\<close>

definition load_license ::
  "sign_lib \<Rightarrow> (string \<Rightarrow> string + envelope) \<Rightarrow> (string \<Rightarrow> string + entitlement) \<Rightarrow> calendar
     \<Rightarrow> environment \<Rightarrow> (string \<Rightarrow> string option) \<Rightarrow> utc \<Rightarrow> edge_config \<Rightarrow> license_status option" where
  "load_license L read_envelope from_slice cal env read now config =
     (case cfg_license_pubkey_hex config of
        None \<Rightarrow> Some unlicensed
      | Some key_hex \<Rightarrow>
          (case read (env_or env ''TRACE_LICENSE_FILE'' ''/etc/electronix-trace/license.json'') of
             None \<Rightarrow> Some unlicensed
           | Some raw \<Rightarrow>
               (case read_envelope raw of
                  Inl _ \<Rightarrow> Some unlicensed
                | Inr env' \<Rightarrow>
                    (case trusted_from_hex L key_hex of
                       Inl _ \<Rightarrow> Some unlicensed
                     | Inr key \<Rightarrow>
                         (case license_verify L from_slice cal env' key (node_id L env read) now of
                            None \<Rightarrow> None
                          | Some (Inl _) \<Rightarrow> Some unlicensed
                          | Some (Inr status) \<Rightarrow> Some status)))))"

section \<open>The state\<close>

text \<open>The licence is behind a lock, which is poisoned once a writer has panicked.\<close>

record app_state =
  as_config :: edge_config
  as_license :: license_status
  as_poisoned :: bool

definition app_state_new :: "edge_config \<Rightarrow> license_status \<Rightarrow> app_state" where
  "app_state_new config status = \<lparr>as_config = config, as_license = status, as_poisoned = False\<rparr>"

definition current_license :: "app_state \<Rightarrow> license_status" where
  "current_license st = (if as_poisoned st then unlicensed else as_license st)"

definition current_enforcement :: "app_state \<Rightarrow> enforcement" where
  "current_enforcement st = ls_enforcement (current_license st)"

definition set_license :: "license_status \<Rightarrow> app_state \<Rightarrow> app_state" where
  "set_license status st = (if as_poisoned st then st else st\<lparr>as_license := status\<rparr>)"

section \<open>Scanned codes\<close>

definition trim_end_slashes :: "string \<Rightarrow> string" where
  "trim_end_slashes s = rev (dropWhile (\<lambda>c. c = CHR ''/'') (rev s))"

definition normalise_scanned_code :: "string \<Rightarrow> string" where
  "normalise_scanned_code raw =
     to_uppercase (last (split_on CHR ''/'' (trim_end_slashes (trim raw))))"

definition trace_url :: "string \<Rightarrow> string \<Rightarrow> string" where
  "trace_url base uid = trim_end_slashes base @ ''/t/'' @ uid"

section \<open>Requests\<close>

record birth_request =
  br_product_revision :: row_id
  br_job_card :: row_id
  br_serial :: string
  br_index_in_job :: i64

datatype request =
    GetTrace string
  | GetHealth
  | GetLicense
  | PostUnit birth_request
  | GetUnit string
  | GetRecall string
  | PostProduct string string
  | PostWebhook "string option" string

record license_report =
  lr_enforcement :: enforcement
  lr_summary :: string
  lr_days_to_expiry :: "int option"
  lr_tier :: "tier option"
  lr_customer :: "string option"
  lr_max_stations :: "u32 option"
  lr_production_allowed :: bool
  lr_configuration_allowed :: bool

datatype reply =
    PageReply string
  | HealthReply bool row_id enforcement
  | LicenseReply license_report
  | BornReply string row_id string
  | HistoryReply unit_history
  | RecallReply string nat "affected_unit list"
  | ProductReply row_id
  | WebhookReply string bool

record api_error =
  ae_status :: nat
  ae_message :: string

definition api_err :: "nat \<Rightarrow> string \<Rightarrow> api_error + 'a" where
  "api_err status message = Inl \<lparr>ae_status = status, ae_message = message\<rparr>"

text \<open>A storage error is reported in summary only.\<close>

fun from_store :: "(store_error + 'a) \<times> plant_db \<Rightarrow> (api_error + 'a) \<times> plant_db" where
  "from_store (Inl e, db) = (api_err 500 ''storage error'', db)"
| "from_store (Inr a, db) = (Inr a, db)"

text \<open>The packages, and what the surroundings of one request decide.\<close>

record packages =
  pk_ext :: externals
  pk_show_f64 :: "f64 \<Rightarrow> string"
  pk_violation :: "string \<Rightarrow> string"
  pk_sign :: sign_lib
  pk_billing :: billing_lib

record occasion =
  oc_begins :: "db_error option"
  oc_faults :: faults
  oc_commits :: commit_result
  oc_now :: utc
  oc_row_id :: row_id
  oc_uid :: unit_uid
  oc_outbox_id :: public_id

text \<open>One transaction of the tenant; reading changes nothing.\<close>

definition in_transaction ::
  "occasion \<Rightarrow> (plant_db \<Rightarrow> (store_error + 'a) \<times> plant_db) \<Rightarrow> plant_db \<Rightarrow> (api_error + 'a) \<times> plant_db" where
  "in_transaction oc body db = from_store (transact (oc_begins oc) (oc_commits oc) body db)"

definition reading :: "(plant_db \<Rightarrow> store_error + 'a) \<Rightarrow> plant_db \<Rightarrow> (store_error + 'a) \<times> plant_db" where
  "reading query db = (query db, db)"

definition answer :: "('a \<Rightarrow> api_error + reply) \<Rightarrow> (api_error + 'a) \<times> plant_db \<Rightarrow> (api_error + reply) \<times> plant_db" where
  "answer f r = (and_then (fst r) f, snd r)"

section \<open>The handlers\<close>

definition get_health :: "occasion \<Rightarrow> app_state \<Rightarrow> plant_db \<Rightarrow> (api_error + reply) \<times> plant_db" where
  "get_health oc st db =
     answer (\<lambda>ok. Inr (HealthReply ok (cfg_plant (as_config st)) (current_enforcement st)))
       (in_transaction oc
         (reading (\<lambda>db. Inr (is_ok (outbox_pending (oc_faults oc) (cfg_tenant (as_config st)) db)))) db)"

definition trace_page ::
  "packages \<Rightarrow> occasion \<Rightarrow> app_state \<Rightarrow> string \<Rightarrow> plant_db \<Rightarrow> (api_error + reply) \<times> plant_db" where
  "trace_page pk oc st scanned db =
     (let uid = normalise_scanned_code scanned in
      answer (\<lambda>found. Inr (PageReply (case found of
            Some h \<Rightarrow> render_page (pk_ext pk) (pk_show_f64 pk) h
          | None \<Rightarrow> not_found_page uid)))
        (in_transaction oc (reading (unit_history_of (oc_faults oc) (cfg_tenant (as_config st)) uid)) db))"

definition license_report_of :: "license_status \<Rightarrow> license_report" where
  "license_report_of s =
     \<lparr>lr_enforcement = ls_enforcement s, lr_summary = ls_summary s, lr_days_to_expiry = ls_days_to_expiry s,
      lr_tier = map_option en_tier (ls_entitlement s),
      lr_customer = map_option en_customer_name (ls_entitlement s),
      lr_max_stations = status_max_stations s,
      lr_production_allowed = allows_production (ls_enforcement s),
      lr_configuration_allowed = allows_configuration_change (ls_enforcement s)\<rparr>"

definition require_config_change :: "app_state \<Rightarrow> api_error + unit" where
  "require_config_change st =
     (if allows_configuration_change (current_enforcement st) then Inr ()
      else api_err 402 (ls_summary (current_license st)
        @ '' Production and traceability capture are unaffected.''))"

definition birth_unit ::
  "packages \<Rightarrow> occasion \<Rightarrow> app_state \<Rightarrow> birth_request \<Rightarrow> plant_db \<Rightarrow> (api_error + reply) \<times> plant_db" where
  "birth_unit pk oc st req db =
     (let x = pk_ext pk; config = as_config st; uid = unit_uid_display x (oc_uid oc);
          new = \<lparr>nu_uid = oc_uid oc, nu_plant = cfg_plant config,
                 nu_product_revision = br_product_revision req, nu_job_card = br_job_card req,
                 nu_serial = br_serial req, nu_index_in_job = br_index_in_job req\<rparr>
      in answer (\<lambda>unit_id. Inr (BornReply uid unit_id (trace_url (cfg_trace_base_url config) uid)))
        (in_transaction oc (\<lambda>db.
          case insert_unit x (pk_violation pk) (oc_faults oc) (oc_row_id oc) (oc_now oc) (cfg_tenant config)
              new db of
            (Inl e, db') \<Rightarrow> (Inl e, db')
          | (Inr unit_id, db') \<Rightarrow>
              (case enqueue_outbox x (oc_faults oc) (oc_outbox_id oc) (cfg_tenant config) (cfg_plant config)
                  ''unit.born''
                  (JObject [(''uid'', JString uid), (''unit_id'', JNumber (show_int unit_id))]) db' of
                 (Inl e, db'') \<Rightarrow> (Inl e, db'')
               | (Inr _, db'') \<Rightarrow> (Inr unit_id, db''))) db))"

definition get_unit ::
  "occasion \<Rightarrow> app_state \<Rightarrow> string \<Rightarrow> plant_db \<Rightarrow> (api_error + reply) \<times> plant_db" where
  "get_unit oc st scanned db =
     (let uid = normalise_scanned_code scanned in
      answer (\<lambda>found. case found of
            Some h \<Rightarrow> Inr (HistoryReply h)
          | None \<Rightarrow> api_err 404 (''no unit '' @ uid @ '' at this plant''))
        (in_transaction oc (reading (unit_history_of (oc_faults oc) (cfg_tenant (as_config st)) uid)) db))"

definition recall_by_lot ::
  "occasion \<Rightarrow> app_state \<Rightarrow> string \<Rightarrow> plant_db \<Rightarrow> (api_error + reply) \<times> plant_db" where
  "recall_by_lot oc st lot db =
     answer (\<lambda>found. Inr (RecallReply lot (length found) found))
       (in_transaction oc
         (reading (\<lambda>db. units_affected_by_lot (oc_faults oc) (cfg_tenant (as_config st)) lot (pd_store db))) db)"

definition create_product ::
  "packages \<Rightarrow> occasion \<Rightarrow> app_state \<Rightarrow> string \<Rightarrow> string \<Rightarrow> plant_db \<Rightarrow> (api_error + reply) \<times> plant_db" where
  "create_product pk oc st model name db =
     (case require_config_change st of
        Inl e \<Rightarrow> (Inl e, db)
      | Inr _ \<Rightarrow>
          answer (\<lambda>id'. Inr (ProductReply id'))
            (in_transaction oc (insert_product (pk_violation pk) (oc_faults oc) (oc_row_id oc)
              (cfg_tenant (as_config st)) model name) db))"

text \<open>A header value is text only if all its bytes are visible ASCII or tabs.\<close>

definition header_text :: "string \<Rightarrow> string option" where
  "header_text v =
     (if list_all (\<lambda>c. let n = (of_char c :: nat) in n = 9 \<or> (32 \<le> n \<and> n < 127)) v then Some v else None)"

definition stripe_webhook ::
  "packages \<Rightarrow> occasion \<Rightarrow> app_state \<Rightarrow> string option \<Rightarrow> string \<Rightarrow> api_error + reply" where
  "stripe_webhook pk oc st signature body =
     (case cfg_stripe_webhook_secret (as_config st) of
        None \<Rightarrow> api_err 404 ''billing is not enabled on this node''
      | Some secret \<Rightarrow>
          (case Option.bind signature header_text of
             None \<Rightarrow> api_err 400 ''missing Stripe-Signature''
           | Some sig_text \<Rightarrow>
               (case webhook_verify (pk_sign pk) (pk_billing pk) (webhook_new secret) body sig_text (oc_now oc) of
                  Inl e \<Rightarrow> api_err 400 ''signature verification failed''
                | Inr ev \<Rightarrow> Inr (WebhookReply (stripe_event.ev_id ev) (affects_entitlement ev)))))"

fun handle ::
  "packages \<Rightarrow> occasion \<Rightarrow> app_state \<Rightarrow> request \<Rightarrow> plant_db \<Rightarrow> (api_error + reply) \<times> plant_db" where
  "handle pk oc st (GetTrace scanned) db = trace_page pk oc st scanned db"
| "handle pk oc st GetHealth db = get_health oc st db"
| "handle pk oc st GetLicense db = (Inr (LicenseReply (license_report_of (current_license st))), db)"
| "handle pk oc st (PostUnit req) db = birth_unit pk oc st req db"
| "handle pk oc st (GetUnit scanned) db = get_unit oc st scanned db"
| "handle pk oc st (GetRecall lot) db = recall_by_lot oc st lot db"
| "handle pk oc st (PostProduct model name) db = create_product pk oc st model name db"
| "handle pk oc st (PostWebhook signature body) db = (stripe_webhook pk oc st signature body, db)"

section \<open>The licence gates configuration, and nothing else\<close>

lemma product_refused:
  "current_enforcement st = Restricted \<Longrightarrow>
   handle pk oc st (PostProduct model name) db
     = (api_err 402 (ls_summary (current_license st)
         @ '' Production and traceability capture are unaffected.''), db)"
  by (simp add: create_product_def require_config_change_def allows_configuration_change_def api_err_def)

lemma product_allowed:
  "current_enforcement st \<noteq> Restricted \<Longrightarrow>
   handle pk oc st (PostProduct model name) db
     = answer (\<lambda>id'. Inr (ProductReply id'))
         (in_transaction oc (insert_product (pk_violation pk) (oc_faults oc) (oc_row_id oc)
            (cfg_tenant (as_config st)) model name) db)"
  by (cases "current_enforcement st")
    (simp_all add: create_product_def require_config_change_def allows_configuration_change_def)

definition not_payment :: "(api_error + reply) \<times> plant_db \<Rightarrow> bool" where
  "not_payment r \<longleftrightarrow> (case fst r of Inl e \<Rightarrow> ae_status e \<noteq> 402 | Inr _ \<Rightarrow> True)"

lemma in_transaction_status:
  "in_transaction oc body db = (Inl e, db') \<Longrightarrow> ae_status e = 500"
  by (cases "transact (oc_begins oc) (oc_commits oc) body db"; cases "fst (transact (oc_begins oc) (oc_commits oc) body db)")
    (auto simp: in_transaction_def api_err_def)

lemma answer_not_payment:
  assumes "\<And>a e. f a = Inl e \<Longrightarrow> ae_status e \<noteq> 402"
  shows "not_payment (answer f (in_transaction oc body db))"
proof (cases "in_transaction oc body db")
  case (Pair r db')
  show ?thesis
    using assms in_transaction_status [of oc body db _ db'] Pair
    by (cases r) (auto simp: not_payment_def answer_def split: sum.split)
qed

definition production_requests ::
  "string \<Rightarrow> birth_request \<Rightarrow> string \<Rightarrow> string \<Rightarrow> string option \<Rightarrow> string \<Rightarrow> request list" where
  "production_requests scanned req uid lot signature body =
     [GetTrace scanned, PostUnit req, GetUnit uid, GetRecall lot, PostWebhook signature body]"

text \<open>
  C6: Production never depends on the licence and configuration does.  The trace page, births, histories,
  recalls and webhooks do the same, to the database and in their answer, under any licence status and
  even with its lock poisoned, and never ask for payment; creating a product is refused, with the
  database untouched, exactly when the licence in force restricts, and otherwise does what it does
  under any other licence that does not restrict.
\<close>

theorem licence_gates_only_configuration:
  "map (\<lambda>r. handle pk oc (st\<lparr>as_license := l, as_poisoned := p\<rparr>) r db) (production_requests scanned req uid lot signature body)
      = map (\<lambda>r. handle pk oc st r db) (production_requests scanned req uid lot signature body)
    \<and> list_all (\<lambda>r. not_payment (handle pk oc st r db)) (production_requests scanned req uid lot signature body)
    \<and> handle pk oc st (PostProduct model name) db =
        (if ls_enforcement (current_license st) = Restricted
         then (api_err 402 (ls_summary (current_license st)
           @ '' Production and traceability capture are unaffected.''), db)
         else handle pk oc (st\<lparr>as_license := (as_license st)\<lparr>ls_enforcement := Full\<rparr>, as_poisoned := False\<rparr>)
           (PostProduct model name) db)"
proof (intro conjI)
  let ?st = "st\<lparr>as_license := l, as_poisoned := p\<rparr>"
  show "map (\<lambda>r. handle pk oc ?st r db) (production_requests scanned req uid lot signature body) = map (\<lambda>r. handle pk oc st r db) (production_requests scanned req uid lot signature body)"
    by (simp add: production_requests_def trace_page_def birth_unit_def get_unit_def
        recall_by_lot_def stripe_webhook_def Let_def cong: option.case_cong)
  have "not_payment (stripe_webhook pk oc st signature body, db)"
    by (auto simp: not_payment_def stripe_webhook_def api_err_def split: option.split sum.split)
  then show "list_all (\<lambda>r. not_payment (handle pk oc st r db)) (production_requests scanned req uid lot signature body)"
    by (simp add: production_requests_def)
      (auto simp: trace_page_def birth_unit_def get_unit_def recall_by_lot_def Let_def api_err_def
        intro!: answer_not_payment split: option.splits)
  show "handle pk oc st (PostProduct model name) db =
      (if ls_enforcement (current_license st) = Restricted
       then (api_err 402 (ls_summary (current_license st)
         @ '' Production and traceability capture are unaffected.''), db)
       else handle pk oc (st\<lparr>as_license := (as_license st)\<lparr>ls_enforcement := Full\<rparr>, as_poisoned := False\<rparr>)
         (PostProduct model name) db)"
    by (simp add: product_refused product_allowed current_enforcement_def current_license_def
        del: handle.simps)
qed

section \<open>A born unit is found by its label\<close>

lemma split_on_append_sep: "split_on sep (q @ sep # u) = split_on sep q @ split_on sep u"
proof (induction q)
  case (Cons c q)
  then show ?case
    by (cases "split_on sep q") simp_all
qed simp

lemma last_split_on: "sep \<notin> set u \<Longrightarrow> last (split_on sep (q @ sep # u)) = u"
  by (simp add: split_on_append_sep split_on_none)

lemma last_of_dropWhile: "c \<in> set s \<Longrightarrow> \<not> P c \<Longrightarrow> last (dropWhile P s) = last s"
  by (induction s) auto

lemma dropWhile_stops: "xs \<noteq> [] \<Longrightarrow> \<not> P (hd xs) \<Longrightarrow> dropWhile P xs = xs"
  by (cases xs) auto

lemma trim_padded:
  assumes "list_all is_space a" "list_all is_space b" "s \<noteq> []" "\<not> is_space (last s)"
  shows "trim (a @ s @ b) = dropWhile is_space s"
proof -
  have mem: "last s \<in> set s"
    using assms(3) by simp
  have left: "dropWhile is_space (a @ s @ b) = dropWhile is_space s @ b"
    using assms(1) by (simp add: dropWhile_append2 dropWhile_append1 [of _ _ is_space, OF mem assms(4)] list_all_iff)
  have last: "dropWhile is_space s \<noteq> [] \<and> last (dropWhile is_space s) = last s"
    using assms(4) mem last_of_dropWhile [of _ _ is_space, OF mem assms(4)] by auto
  then have "dropWhile is_space (rev (dropWhile is_space s @ b)) = rev (dropWhile is_space s)"
    using assms(2,4)
    by (simp only: rev_append, subst dropWhile_append2) (auto simp: list_all_iff hd_rev intro!: dropWhile_stops)
  then show ?thesis
    unfolding trim_def left by simp
qed

text \<open>
  What a scanner may make of a label: white space around it, anything up to a last slash before the
  identity, the identity in either case, slashes after it.
\<close>

definition scanned_form :: "string \<Rightarrow> string \<Rightarrow> string \<Rightarrow> string \<Rightarrow> string \<Rightarrow> string \<Rightarrow> bool" where
  "scanned_form uid pad pre u slashes pad' \<longleftrightarrow>
     list_all is_space pad \<and> list_all is_space pad' \<and> (pre = [] \<or> last pre = CHR ''/'')
     \<and> list_all (\<lambda>c. c = CHR ''/'') slashes \<and> to_uppercase u = uid"

lemma normalise_scanned:
  assumes form: "scanned_form uid pad pre u slashes pad'"
    and uid: "uid \<noteq> []" "CHR ''/'' \<notin> set uid" "list_all (\<lambda>c. \<not> is_space c) uid"
  shows "normalise_scanned_code (pad @ pre @ u @ slashes @ pad') = uid"
proof -
  have up: "uid = map upper_char u"
    using form by (simp add: scanned_form_def to_uppercase_def)
  have slash: "CHR ''/'' \<notin> set u"
    using uid(2) by (auto simp: up upper_char_def Let_def image_iff)
  have ne: "u \<noteq> []"
    using uid(1) by (simp add: up)
  have plain: "\<not> is_space c" if "c \<in> set u" for c
    using uid(3) that by (auto simp: up list_all_iff)
  have not_slash: "\<not> is_space CHR ''/''"
    by (simp add: is_space_def)
  let ?s = "pre @ u @ slashes"
  have "slashes \<noteq> [] \<Longrightarrow> last slashes = CHR ''/''"
    using form last_in_set [of slashes] unfolding scanned_form_def list_all_iff by blast
  then have "\<not> is_space (last ?s)"
    using plain [OF last_in_set [OF ne]] not_slash by (cases "slashes = []") (simp_all add: ne)
  then have "trim (pad @ ?s @ pad') = dropWhile is_space ?s"
    using form ne by (intro trim_padded) (auto simp: scanned_form_def)
  moreover obtain pre' where "dropWhile is_space ?s = pre' @ u @ slashes" "pre' = [] \<or> last pre' = CHR ''/''"
  proof (cases "pre = []")
    case True
    have "dropWhile is_space (u @ slashes) = u @ slashes"
      using ne plain by (cases u) auto
    then show thesis
      using that [of "[]"] True by simp
  next
    case False
    then have lst: "last pre = CHR ''/''"
      using form by (simp add: scanned_form_def)
    then have mem: "CHR ''/'' \<in> set pre"
      using False last_in_set [of pre] by simp
    have "last (dropWhile is_space pre) = CHR ''/''"
      using last_of_dropWhile [of _ _ is_space, OF mem not_slash] lst by simp
    then show thesis
      using that [of "dropWhile is_space pre"] dropWhile_append1 [OF mem, of is_space "u @ slashes"] not_slash
      by blast
  qed
  ultimately have trimmed: "trim (pad @ pre @ u @ slashes @ pad') = pre' @ u @ slashes"
    by simp
  have "trim_end_slashes (pre' @ u @ slashes) = pre' @ u"
  proof -
    have "\<forall>c \<in> set (rev slashes). c = CHR ''/''"
      using form by (simp add: scanned_form_def list_all_iff)
    moreover have "last u \<noteq> CHR ''/''"
    proof
      assume end_slash: "last u = CHR ''/''"
      have "last u \<in> set u"
        by (rule last_in_set [OF ne])
      then show False
        using slash unfolding end_slash by contradiction
    qed
    then have "hd (rev (pre' @ u)) \<noteq> CHR ''/''"
      using ne by (simp add: hd_rev)
    then have "dropWhile (\<lambda>c. c = CHR ''/'') (rev (pre' @ u)) = rev (pre' @ u)"
      by (intro dropWhile_stops) (simp_all add: ne)
    ultimately have "dropWhile (\<lambda>c. c = CHR ''/'') (rev slashes @ rev (pre' @ u)) = rev (pre' @ u)"
      by (subst dropWhile_append2) blast+
    then show ?thesis
      by (simp add: trim_end_slashes_def)
  qed
  moreover have "last (split_on CHR ''/'' (pre' @ u)) = u"
  proof (cases "pre' = []")
    case False
    then have "pre' = butlast pre' @ [CHR ''/'']"
      using \<open>pre' = [] \<or> last pre' = CHR ''/''\<close> by (metis append_butlast_last_id)
    then have "pre' @ u = butlast pre' @ CHR ''/'' # u"
      by (metis append.assoc append_Cons append_Nil)
    then show ?thesis
      using last_split_on [OF slash, of "butlast pre'"] by (simp only:)
  qed (simp add: split_on_none slash)
  ultimately show ?thesis
    by (simp add: normalise_scanned_code_def trimmed up to_uppercase_def)
qed

lemma ulid_text_plain:
  assumes "is_ulid_text uid"
  shows "uid \<noteq> []" "CHR ''/'' \<notin> set uid" "list_all (\<lambda>c. \<not> is_space c) uid" "to_uppercase uid = uid"
proof -
  have alphabet: "c \<in> set ''0123456789ABCDEFGHJKMNPQRSTVWXYZ''" if "c \<in> set uid" for c
    using assms that by (auto simp: is_ulid_text_def list_all_iff)
  have "\<forall>c \<in> set ''0123456789ABCDEFGHJKMNPQRSTVWXYZ''. \<not> is_space c \<and> c \<noteq> CHR ''/'' \<and> upper_char c = c"
    by (simp add: is_space_def upper_char_def)
  then have plain: "\<not> is_space c" "c \<noteq> CHR ''/''" "upper_char c = c" if "c \<in> set uid" for c
    using alphabet [OF that] by blast+
  show "uid \<noteq> []"
    using assms by (auto simp: is_ulid_text_def)
  show "CHR ''/'' \<notin> set uid"
    using plain(2) by blast
  show "list_all (\<lambda>c. \<not> is_space c) uid"
    using plain(1) by (simp add: list_all_iff)
  show "to_uppercase uid = uid"
    using plain(3) by (simp add: to_uppercase_def map_idI)
qed

text \<open>A birth that is answered with a unit has stored it, and an entry in the outbox.\<close>

definition birth_input :: "occasion \<Rightarrow> edge_config \<Rightarrow> birth_request \<Rightarrow> new_unit" where
  "birth_input oc config req =
     \<lparr>nu_uid = oc_uid oc, nu_plant = cfg_plant config, nu_product_revision = br_product_revision req,
      nu_job_card = br_job_card req, nu_serial = br_serial req, nu_index_in_job = br_index_in_job req\<rparr>"

definition born_row :: "packages \<Rightarrow> occasion \<Rightarrow> edge_config \<Rightarrow> birth_request \<Rightarrow> unit_row" where
  "born_row pk oc config req =
     unit_row_of (pk_ext pk) (oc_row_id oc) (oc_now oc) (cfg_tenant config) (birth_input oc config req)"

lemma answer_ok:
  "answer f r = (Inr y, db') \<longleftrightarrow> (\<exists>a. r = (Inr a, db') \<and> f a = Inr y)"
  by (cases r; cases "fst r") (auto simp: answer_def)

lemma from_store_ok: "from_store r = (Inr a, db') \<longleftrightarrow> r = (Inr a, db')"
  by (cases r rule: from_store.cases) (auto simp: api_err_def)

lemma in_transaction_ok:
  "in_transaction oc body db = (Inr a, db')
    \<longleftrightarrow> oc_begins oc = None \<and> oc_commits oc = CommitOk \<and> body db = (Inr a, db')"
  by (simp add: in_transaction_def from_store_ok transact_ok)

lemma birth_unit_ok:
  assumes "birth_unit pk oc st req db = (Inr (BornReply uid unit_id url), db')"
  defines "u \<equiv> born_row pk oc (as_config st) req"
  shows "admit_unit (pk_violation pk) u db = Inr ()" "uid = ur_uid u" "unit_id = ur_id u"
    "url = trace_url (cfg_trace_base_url (as_config st)) uid"
    "\<exists>row. db' = (with_units (plant_units db @ [u]) db)\<lparr>pd_outbox := pd_outbox db @ [row]\<rparr>"
proof -
  let ?insert = "insert_unit (pk_ext pk) (pk_violation pk) (oc_faults oc) (oc_row_id oc) (oc_now oc)
    (cfg_tenant (as_config st)) (birth_input oc (as_config st) req) db"
  have row: "unit_row_of (pk_ext pk) (oc_row_id oc) (oc_now oc) (cfg_tenant (as_config st))
      (birth_input oc (as_config st) req) = u"
    by (simp add: u_def born_row_def)
  have ok: "fst ?insert = Inr unit_id" "uid = unit_uid_display (pk_ext pk) (oc_uid oc)"
      "url = trace_url (cfg_trace_base_url (as_config st)) uid"
      "\<exists>row. db' = (snd ?insert)\<lparr>pd_outbox := pd_outbox (snd ?insert) @ [row]\<rparr>"
    using assms(1) unfolding birth_unit_def Let_def answer_ok in_transaction_ok birth_input_def
    by (auto simp: enqueue_outbox_def statement_def split: prod.splits sum.splits option.splits)
  have stored: "fst ?insert = Inr (oc_row_id oc)"
      "snd ?insert = with_units (plant_units db @ [u]) db"
      "admit_unit (pk_violation pk) u db = Inr ()"
    using ok(1) unfolding insert_unit_def Let_def row
    by (auto simp: and_then_ok split: sum.splits)
  show "admit_unit (pk_violation pk) u db = Inr ()"
    by (rule stored(3))
  show "uid = ur_uid u" "unit_id = ur_id u" "url = trace_url (cfg_trace_base_url (as_config st)) uid"
    using ok stored(1) by (simp_all add: u_def born_row_def unit_row_of_def birth_input_def)
  show "\<exists>row. db' = (with_units (plant_units db @ [u]) db)\<lparr>pd_outbox := pd_outbox db @ [row]\<rparr>"
    using ok(4) by (simp add: stored(2))
qed

text \<open>What a birth refers to is visible to the tenant.\<close>

definition references_owned :: "plant_db \<Rightarrow> edge_config \<Rightarrow> birth_request \<Rightarrow> bool" where
  "references_owned db config req \<longleftrightarrow>
     (\<exists>pr \<in> set (pd_revisions db). vw_tenant pr = cfg_tenant config \<and> vw_id pr = br_product_revision req
        \<and> (\<exists>p \<in> set (pd_products db). pw_tenant p = cfg_tenant config \<and> pw_id p = vw_product pr))
     \<and> (\<exists>j \<in> set (pd_job_cards db). jw_tenant j = cfg_tenant config \<and> jw_id j = br_job_card req)
     \<and> (\<exists>pl \<in> set (pd_plants db). lw_tenant pl = cfg_tenant config \<and> lw_id pl = cfg_plant config)"

definition calm :: "occasion \<Rightarrow> bool" where
  "calm oc \<longleftrightarrow> oc_begins oc = None \<and> oc_faults oc = (\<lambda>_. None) \<and> oc_commits oc = CommitOk"

lemma trace_page_calm:
  assumes "calm oc" and "unit_history_of (\<lambda>_. None) (cfg_tenant (as_config st)) (normalise_scanned_code s) db = Inr found"
  shows "trace_page pk oc st s db = (Inr (PageReply (case found of
      Some h \<Rightarrow> render_page (pk_ext pk) (pk_show_f64 pk) h
    | None \<Rightarrow> not_found_page (normalise_scanned_code s))), db)"
  using assms
  by (simp add: trace_page_def Let_def answer_ok in_transaction_ok calm_def reading_def)

lemma born_row_sel [simp]:
  "ur_tenant (born_row pk oc config req) = cfg_tenant config"
  "ur_plant (born_row pk oc config req) = cfg_plant config"
  "ur_product_revision (born_row pk oc config req) = br_product_revision req"
  "ur_job_card (born_row pk oc config req) = br_job_card req"
  "ur_serial (born_row pk oc config req) = br_serial req"
  "ur_state (born_row pk oc config req) = ''BORN''"
  by (simp_all add: born_row_def unit_row_of_def birth_input_def)

lemma outbox_update_sel [simp]:
  "unit_keys (db\<lparr>pd_outbox := rows\<rparr>) = unit_keys db" "rows_typed (db\<lparr>pd_outbox := rows\<rparr>) = rows_typed db"
  by (simp_all add: unit_keys_def rows_typed_def event_typed_def measurement_typed_def)

lemma born_is_typed:
  assumes "rows_typed db" "birth_unit pk oc st req db = (Inr (BornReply uid unit_id url), db')"
  shows "rows_typed db'"
proof -
  let ?u = "born_row pk oc (as_config st) req"
  obtain row where db': "db' = (with_units (plant_units db @ [?u]) db)\<lparr>pd_outbox := pd_outbox db @ [row]\<rparr>"
    using birth_unit_ok(5) [OF assms(2)] by blast
  have "rows_typed (with_units (plant_units db @ [?u]) db)"
    using assms(1) born_state_name by (intro rows_typed_units [OF assms(1)]) (auto simp: unit_keys_def rows_typed_def)
  then show ?thesis
    by (simp add: db')
qed

lemma born_history:
  assumes "rows_typed db" and "references_owned db (as_config st) req"
    and "birth_unit pk oc st req db = (Inr (BornReply uid unit_id url), db')"
  shows "\<exists>h. unit_history_of (\<lambda>_. None) (cfg_tenant (as_config st)) uid db' = Inr (Some h)
    \<and> uh_uid h = uid \<and> uh_serial h = br_serial req \<and> uh_state h = ''BORN''
    \<and> uh_events h = [] \<and> uh_measurements h = []"
proof -
  let ?u = "born_row pk oc (as_config st) req" and ?t = "cfg_tenant (as_config st)"
  note ok = birth_unit_ok [OF assms(3)]
  note new = admit_unit_new [OF ok(1)]
  obtain row where db': "db' = (with_units (plant_units db @ [?u]) db)\<lparr>pd_outbox := pd_outbox db @ [row]\<rparr>"
    using ok(5) by blast
  obtain pr p j pl where "pr \<in> set (pd_revisions db)" "vw_tenant pr = ?t" "vw_id pr = br_product_revision req"
      "p \<in> set (pd_products db)" "pw_tenant p = ?t" "pw_id p = vw_product pr"
      "j \<in> set (pd_job_cards db)" "jw_tenant j = ?t" "jw_id j = br_job_card req"
      "pl \<in> set (pd_plants db)" "lw_tenant pl = ?t" "lw_id pl = cfg_plant (as_config st)"
    using assms(2) unfolding references_owned_def by blast
  then have "(?u, p, pr, j, pl) \<in> set (history_head ?t uid db')"
    using ok(2) by (simp add: history_head_set db' visible_units_def)
  then obtain h where h: "unit_history_of (\<lambda>_. None) ?t uid db' = Inr (Some h)"
    using history_of_typed [OF born_is_typed [OF assms(1,3)], of ?t uid] by (cases "history_head ?t uid db'") auto
  obtain v where v: "v \<in> set (visible_units ?t (pd_store db'))" "ur_uid v = uid" "uh_uid h = uid"
      "uh_serial h = ur_serial v" "uh_state h = ur_state v" "uh_events h = history_events ?t (ur_id v) db'"
      "read_measurements (history_measurement_rows ?t (ur_id v) db') = Inr (uh_measurements h)"
    using unit_history_found [OF h] by metis
  have v_new: "v = ?u"
    using v(1,2) new(1) ok(2) unfolding image_iff by (auto simp: db' visible_units_def)
  have "(?t, ur_id ?u) \<notin> unit_keys db"
    using new(2) by (auto simp: unit_keys_def)
  then have none: "filter (\<lambda>e. er_tenant e = ?t \<and> er_unit e = ur_id ?u) (db_events (pd_store db')) = []"
      "filter (\<lambda>m. mw_tenant m = ?t \<and> mw_unit m = ur_id ?u) (db_measurements (pd_store db')) = []"
    using assms(1) by (auto simp: filter_empty_conv db' rows_typed_def event_typed_def measurement_typed_def)
  have "uh_events h = []" "uh_measurements h = []"
    using v(6,7) unfolding v_new history_events_def history_measurement_rows_def none by simp_all
  then show ?thesis
    using h v(3-5) by (simp add: v_new)
qed

text \<open>
  C9: A born unit is found by scanning its label.  Once a birth has been answered, the label's URL ends in
  the unit's identity, and whatever a scanner makes of it (the whole URL, the path, the bare code, in
  lower case, with white space around it or slashes after it) the trace page shows that very unit, with
  its serial and as born, without anything recorded of another one; nothing in the database changes.
\<close>

theorem born_unit_is_found:
  assumes "rows_typed db" and "references_owned db (as_config st) req"
    and "handle pk oc st (PostUnit req) db = (Inr (BornReply uid unit_id url), db')"
    and "scanned_form uid pad pre u slashes pad'" and "calm oc'"
  shows "\<exists>h. handle pk oc' st (GetTrace (pad @ pre @ u @ slashes @ pad')) db'
        = (Inr (PageReply (render_page (pk_ext pk) (pk_show_f64 pk) h)), db')
      \<and> uh_uid h = uid \<and> uh_serial h = br_serial req \<and> uh_state h = ''BORN''
      \<and> uh_events h = [] \<and> uh_measurements h = []
      \<and> (\<exists>base. url = base @ ''/t/'' @ uid \<and> scanned_form uid [] (base @ ''/t/'') uid [] [])"
proof -
  have born: "birth_unit pk oc st req db = (Inr (BornReply uid unit_id url), db')"
    using assms(3) by simp
  note ok = birth_unit_ok [OF born]
  have "is_ulid_text uid"
    using admit_unit_new(3) [OF ok(1)] ok(2) by simp
  note plain = ulid_text_plain [OF this]
  obtain h where h: "unit_history_of (\<lambda>_. None) (cfg_tenant (as_config st)) uid db' = Inr (Some h)"
      "uh_uid h = uid" "uh_serial h = br_serial req" "uh_state h = ''BORN''"
      "uh_events h = []" "uh_measurements h = []"
    using born_history [OF assms(1,2) born] by blast
  have "normalise_scanned_code (pad @ pre @ u @ slashes @ pad') = uid"
    by (rule normalise_scanned [OF assms(4) plain(1-3)])
  then have "handle pk oc' st (GetTrace (pad @ pre @ u @ slashes @ pad')) db'
      = (Inr (PageReply (render_page (pk_ext pk) (pk_show_f64 pk) h)), db')"
    using trace_page_calm [OF assms(5), of st "pad @ pre @ u @ slashes @ pad'" db' "Some h" pk] h(1) by simp
  moreover have "\<exists>base. url = base @ ''/t/'' @ uid \<and> scanned_form uid [] (base @ ''/t/'') uid [] []"
    using ok(4) plain(4) by (auto simp: trace_url_def scanned_form_def)
  ultimately show ?thesis
    using h(2-6) by blast
qed

text \<open>A box that answers one birth, and a scanner that reads lower case with a line end.\<close>

definition demo_packages :: packages where
  "demo_packages = \<lparr>pk_ext = plant_externals, pk_show_f64 = (\<lambda>_. ''0''), pk_violation = (\<lambda>n. n),
     pk_sign = demo_lib, pk_billing = demo_billing\<rparr>"

definition demo_config :: edge_config where
  "demo_config = \<lparr>cfg_database_url = ''postgres'', cfg_bind_addr = ''0.0.0.0:8080'', cfg_tenant = 1,
     cfg_plant = 1, cfg_trace_base_url = ''http://trace/'', cfg_license_pubkey_hex = None,
     cfg_update_pubkey_hex = None, cfg_update_cohort = ''default'', cfg_stripe_webhook_secret = None\<rparr>"

definition demo_occasion :: occasion where
  "demo_occasion = \<lparr>oc_begins = None, oc_faults = (\<lambda>_. None), oc_commits = CommitOk, oc_now = 0,
     oc_row_id = 7, oc_uid = UnitUid (PublicId 1), oc_outbox_id = PublicId 2\<rparr>"

definition demo_birth :: birth_request where
  "demo_birth = \<lparr>br_product_revision = 2, br_job_card = 3, br_serial = ''S1'', br_index_in_job = 0\<rparr>"

abbreviation demo_box :: app_state where
  "demo_box \<equiv> app_state_new demo_config unlicensed"

lemma demo_born:
  "\<exists>db'. handle demo_packages demo_occasion demo_box (PostUnit demo_birth) demo_plant
     = (Inr (BornReply ''01JX8P2K7F3QW9ABCDEFGHJKMN'' 7 ''http://trace/t/01JX8P2K7F3QW9ABCDEFGHJKMN''), db')"
proof -
  let ?new = "\<lparr>nu_uid = UnitUid (PublicId 1), nu_plant = 1, nu_product_revision = 2, nu_job_card = 3,
      nu_serial = ''S1'', nu_index_in_job = 0\<rparr>"
  have "admit_unit (\<lambda>n. n) (unit_row_of plant_externals 7 0 1 ?new) demo_plant = Inr ()"
    by (simp add: admit_unit_def unit_row_of_def plant_uid_text is_ulid_text_def demo_plant_def no_evidence_def)
  then show ?thesis
    by (simp add: birth_unit_def Let_def answer_ok in_transaction_ok demo_packages_def demo_occasion_def
        app_state_new_def demo_config_def demo_birth_def insert_unit_def statement_def enqueue_outbox_def
        plant_uid_text trace_url_def trim_end_slashes_def)
qed

lemma born_unit_is_found_witness:
  "\<exists>h db'. handle demo_packages demo_occasion demo_box
       (GetTrace (''http://trace/t/01jx8p2k7f3qw9abcdefghjkmn'' @ [CHR 0x0A])) db'
     = (Inr (PageReply (render_page plant_externals (\<lambda>_. ''0'') h)), db') \<and> uh_serial h = ''S1''"
proof -
  obtain db' where born: "handle demo_packages demo_occasion demo_box (PostUnit demo_birth) demo_plant
     = (Inr (BornReply ''01JX8P2K7F3QW9ABCDEFGHJKMN'' 7 ''http://trace/t/01JX8P2K7F3QW9ABCDEFGHJKMN''), db')"
    using demo_born by blast
  have "rows_typed demo_plant"
    by (simp add: rows_typed_def demo_plant_def no_evidence_def)
  moreover have "references_owned demo_plant (as_config demo_box) demo_birth"
    by (simp add: references_owned_def demo_plant_def app_state_new_def demo_config_def demo_birth_def)
  moreover have "scanned_form ''01JX8P2K7F3QW9ABCDEFGHJKMN'' [] ''http://trace/t/''
      ''01jx8p2k7f3qw9abcdefghjkmn'' [] [CHR 0x0A]"
    by (simp add: scanned_form_def to_uppercase_def upper_char_def is_space_def) code_simp
  moreover have "calm demo_occasion"
    by (simp add: calm_def demo_occasion_def)
  ultimately show ?thesis
    using born_unit_is_found [OF _ _ born] by (fastforce simp: demo_packages_def demo_birth_def)
qed

section \<open>Two things the edge service does not notice\<close>

text \<open>
  A birth whose job card is another tenant's is accepted, since the database checks a reference without
  its row policies, and the label that was printed for it leads to the page for unknown codes.
\<close>

theorem foreign_job_card_is_not_found:
  assumes "rows_typed db" and "handle pk oc st (PostUnit req) db = (Inr (BornReply uid unit_id url), db')"
    and "\<forall>j \<in> set (pd_job_cards db). jw_id j = br_job_card req \<longrightarrow> jw_tenant j \<noteq> cfg_tenant (as_config st)"
    and "calm oc'"
  shows "handle pk oc' st (GetTrace uid) db' = (Inr (PageReply (not_found_page uid)), db')"
proof -
  have born: "birth_unit pk oc st req db = (Inr (BornReply uid unit_id url), db')"
    using assms(2) by simp
  note ok = birth_unit_ok [OF born]
  let ?u = "born_row pk oc (as_config st) req"
  obtain row where db': "db' = (with_units (plant_units db @ [?u]) db)\<lparr>pd_outbox := pd_outbox db @ [row]\<rparr>"
    using ok(5) by blast
  have "is_ulid_text uid"
    using admit_unit_new(3) [OF ok(1)] ok(2) by simp
  note plain = ulid_text_plain [OF this]
  have "normalise_scanned_code uid = uid"
    using normalise_scanned [of uid "[]" "[]" uid "[]" "[]"] plain by (simp add: scanned_form_def)
  moreover have "history_head (cfg_tenant (as_config st)) uid db' = []"
  proof -
    have "a \<notin> set (history_head (cfg_tenant (as_config st)) uid db')" for a
      using assms(3) admit_unit_new(1) [OF ok(1)] ok(2) unfolding image_iff
      by (cases a) (auto simp: history_head_set db' visible_units_def)
    then show ?thesis
      using last_in_set by blast
  qed
  ultimately show ?thesis
    using history_of_typed [OF born_is_typed [OF assms(1) born], of "cfg_tenant (as_config st)" uid]
      trace_page_calm [OF assms(4), of st uid db' None pk] by auto
qed

text \<open>
  The licence is evaluated when the box starts.  If it allowed configuration then, configuration stays
  open at any later instant until the box restarts, although the licence evaluated at that instant
  restricts it.
\<close>

theorem expiry_needs_restart:
  assumes "calendar_laws last_instant cal" and "license_evaluate cal en startup = Some status"
    and "allows_configuration_change (ls_enforcement status)"
    and "en_expires_at en + uint (en_grace_days en) * nanos_per_day < later"
    and "license_evaluate cal en later = Some status'"
  shows "ls_enforcement status' = Restricted
    \<and> not_payment (handle pk (oc\<lparr>oc_now := later\<rparr>) (app_state_new config status) (PostProduct model name) db)"
proof -
  have "\<not> allows_configuration_change (ls_enforcement status')"
    using license_evaluate_cases [OF assms(1), of en later] grace_end_after [of en] assms(4,5)
    by (auto simp: allows_configuration_change_def level_at_def split: if_splits)
  moreover have "current_enforcement (app_state_new config status) \<noteq> Restricted"
    using assms(3) by (auto simp: current_enforcement_def current_license_def app_state_new_def
        allows_configuration_change_def)
  ultimately show ?thesis
    by (cases "ls_enforcement status'")
      (auto simp: product_allowed allows_configuration_change_def simp del: handle.simps intro: answer_not_payment)
qed

text \<open>The entitlement a box has installed for itself: read, signed, of a known schema and for this node.\<close>

definition installed_entitlement ::
  "sign_lib \<Rightarrow> (string \<Rightarrow> string + envelope) \<Rightarrow> (string \<Rightarrow> string + entitlement) \<Rightarrow> environment
     \<Rightarrow> (string \<Rightarrow> string option) \<Rightarrow> edge_config \<Rightarrow> entitlement \<Rightarrow> bool" where
  "installed_entitlement L read_envelope from_slice env read config en \<longleftrightarrow>
     (\<exists>key_hex raw env' key. cfg_license_pubkey_hex config = Some key_hex
        \<and> read (env_or env ''TRACE_LICENSE_FILE'' ''/etc/electronix-trace/license.json'') = Some raw
        \<and> read_envelope raw = Inr env' \<and> trusted_from_hex L key_hex = Inr key
        \<and> trusted_verify L from_slice key env' = Inr en \<and> en_schema en \<le> SCHEMA_VERSION
        \<and> (en_node_id en = None \<or> en_node_id en = Some (node_id L env read)))"

lemma license_verify_outcome:
  "license_verify L from_slice cal env' key node now = (case trusted_verify L from_slice key env' of
      Inl e \<Rightarrow> Some (Inl (LicSignature e))
    | Inr en \<Rightarrow>
        if en_schema en \<le> SCHEMA_VERSION \<and> (en_node_id en = None \<or> en_node_id en = Some node)
        then map_option Inr (license_evaluate cal en now)
        else Some (Inl (if en_schema en \<le> SCHEMA_VERSION then WrongNode (the (en_node_id en)) node
          else UnsupportedSchema (en_schema en) SCHEMA_VERSION)))"
  by (auto simp: license_verify_def not_le split: sum.split option.split)

text \<open>
  C33: What a box starts with.  It runs unlicensed unless an entitlement is installed: a file that can be
  read, whose envelope verifies under the configured key, of a known schema, locked to this node or to
  none; then it runs with what that entitlement says at that instant.  Only an installed entitlement
  whose grace period ends after the last representable instant stops the start.
\<close>

theorem startup_licence:
  assumes "calendar_laws last_instant cal"
  shows "case load_license L read_envelope from_slice cal env read now config of
      None \<Rightarrow> \<exists>en. installed_entitlement L read_envelope from_slice env read config en
        \<and> last_instant < en_expires_at en + uint (en_grace_days en) * nanos_per_day
    | Some status \<Rightarrow> if \<exists>en. installed_entitlement L read_envelope from_slice env read config en
        then \<exists>en. installed_entitlement L read_envelope from_slice env read config en
          \<and> license_evaluate cal en now = Some status
        else status = unlicensed"
proof (cases "\<exists>en. installed_entitlement L read_envelope from_slice env read config en")
  case True
  then obtain en key_hex raw env' key where inst:
      "installed_entitlement L read_envelope from_slice env read config en"
      "cfg_license_pubkey_hex config = Some key_hex"
      "read (env_or env ''TRACE_LICENSE_FILE'' ''/etc/electronix-trace/license.json'') = Some raw"
      "read_envelope raw = Inr env'" "trusted_from_hex L key_hex = Inr key"
      "trusted_verify L from_slice key env' = Inr en" "en_schema en \<le> SCHEMA_VERSION"
      "en_node_id en = None \<or> en_node_id en = Some (node_id L env read)"
    unfolding installed_entitlement_def by blast
  have "load_license L read_envelope from_slice cal env read now config = license_evaluate cal en now"
    using inst(7,8) unfolding load_license_def license_verify_outcome
    by (cases "license_evaluate cal en now") (auto simp: inst(2-6))
  then show ?thesis
    using inst(1) license_evaluate_cases [OF assms, of en now]
    by (cases "license_evaluate cal en now") (auto split: if_splits)
next
  case False
  then have "load_license L read_envelope from_slice cal env read now config = Some unlicensed"
    unfolding load_license_def license_verify_outcome installed_entitlement_def
    by (auto split: option.split sum.split)
  then show ?thesis
    using False by simp
qed

lemma startup_licence_witness:
  "load_license demo_lib (\<lambda>_. Inl ''not an envelope'') (\<lambda>_. Inl ''not an entitlement'') demo_calendar
     (\<lambda>_. None) (\<lambda>_. Some ''rubbish'') 0 (demo_config\<lparr>cfg_license_pubkey_hex := Some ''k''\<rparr>) = Some unlicensed"
  using startup_licence [OF demo_calendar_laws, where L = demo_lib and env = "\<lambda>_. None" and now = 0
      and read_envelope = "\<lambda>_. Inl ''not an envelope''" and from_slice = "\<lambda>_. Inl ''not an entitlement''"
      and read = "\<lambda>_. Some ''rubbish''" and config = "demo_config\<lparr>cfg_license_pubkey_hex := Some ''k''\<rparr>"]
  by (simp add: installed_entitlement_def split: option.splits)

end
