(* ===== verification/Example.thy ===== *)
theory Example
  imports RouteSim
begin

text \<open>
  The command line of the route simulator and its built-in scenario,
  \<open>tools/route-sim/src/main.rs\<close>: what \<open>main\<close> prints and exits with, and what the simulator says of the
  example it ships.
\<close>

section \<open>The built-in scenario\<close>

definition example_uid :: string where
  "example_uid = ''01JX8P2K7F3QW9ABCDEFGHJKMN''"

text \<open>Codes of the built-in example: a malformed one would be a panic, so that it is no code.\<close>

definition example_code :: "string \<Rightarrow> code" where
  "example_code s = (case code_new s of Inr c \<Rightarrow> c | Inl _ \<Rightarrow> Code [])"

definition example_operations :: "route_operation list" where
  "example_operations =
     [\<lparr>ro_seq = 10, ro_operation_def_id = 100, ro_requirement = Required, ro_predecessors = [],
       ro_gates = [Identity, MarkVerified], ro_failure_path = Retry 3\<rparr>,
      \<lparr>ro_seq = 20, ro_operation_def_id = 200, ro_requirement = Required, ro_predecessors = [10],
       ro_gates = [Identity, OperatorAuth, Precondition, ComponentVerify [11]],
       ro_failure_path = Quarantine\<rparr>,
      \<lparr>ro_seq = 30, ro_operation_def_id = 300, ro_requirement = Required, ro_predecessors = [20],
       ro_gates = [Precondition, DataCapture], ro_failure_path = Rework 20 [20, 30]\<rparr>,
      \<lparr>ro_seq = 40, ro_operation_def_id = 400, ro_requirement = Required, ro_predecessors = [30],
       ro_gates = [Precondition, TestPass ''EOL'', InterlockOut 42], ro_failure_path = Quarantine\<rparr>]"

definition example_inputs :: "(string, operation_input) btree" where
  "example_inputs = bt_collect
     [(''10'', default_input\<lparr>oi_identity_scanned := True,
         oi_mark_verification := Some \<lparr>mv_decoded = example_uid, mv_grade = Some CHR ''B''\<rparr>\<rparr>),
      (''20'', default_input\<lparr>oi_identity_scanned := True,
         oi_component_scans := [\<lparr>sc_part_no = example_code ''SCR-M6-20'', sc_bom_line_id = Some 11,
           sc_raw = ''SCR-M6-20''\<rparr>]\<rparr>),
      (''30'', default_input\<lparr>oi_captured := [\<lparr>cv_dcp_id = 1, cv_value = V_Numeric (F_Fin (121 / 10)),
           cv_verdict = V_Pass\<rparr>]\<rparr>),
      (''40'', default_input\<lparr>oi_test_verdicts := bt_collect [(''EOL'', V_Pass)]\<rparr>)]"

definition example_dcps :: "(string, data_collection_point list) btree" where
  "example_dcps = bt_collect
     [(''30'', [\<lparr>dcp_id = 1, dcp_name = ''final_torque'', dcp_label = ''Final torque'', dcp_unit = Some ''Nm'',
         dcp_datatype = DT_Numeric,
         dcp_limits = \<lparr>lim_min = Some (F_Fin 10), lim_max = Some (F_Fin 14), lim_nominal = Some (F_Fin 12)\<rparr>,
         dcp_sample_rule = Every, dcp_mandatory = True, dcp_device_id = Some 5\<rparr>])]"

definition example_def :: "row_id \<Rightarrow> string \<Rightarrow> string \<Rightarrow> row_id list \<Rightarrow> operation_def" where
  "example_def i name label ds =
     \<lparr>od_id = i, od_name = name, od_label = label, od_dcp_ids = ds, od_required_skill = None\<rparr>"

definition example_scenario :: scenario where
  "example_scenario =
     \<lparr>sn_name = ''EX-VLV-2200 rev A, four operations, one station'',
      sn_route = \<lparr>rt_id = 1, rt_product_revision_id = 1, rt_line_id = 1, rt_revision = ''A'',
        rt_operations = example_operations\<rparr>,
      sn_operation_defs = [example_def 100 ''label_and_verify'' ''Label'' [],
        example_def 200 ''assemble'' ''Assemble'' [], example_def 300 ''torque'' ''Torque'' [1],
        example_def 400 ''eol_test'' ''EOL test'' []],
      sn_dcps = example_dcps,
      sn_stations = [\<lparr>station_id = 1, station_line_id = 1, station_code = example_code ''ST-01'',
        station_name = ''Single terminal running the whole route'',
        station_operations = {100, 200, 300, 400}, station_active = True\<rparr>],
      sn_operator = \<lparr>opr_id = 7, opr_tenant_id = 1, opr_username = ''R.KUMAR'',
        opr_display_name = ''R. Kumar'', opr_certifications = {}, opr_active = True\<rparr>,
      sn_revision = \<lparr>rev_id = 1, rev_product_id = 1, rev_revision = example_code ''A'',
        rev_material = Aluminium, rev_mark_method = Label, rev_min_mark_grade = Some CHR ''C'',
        rev_active = True\<rparr>,
      sn_unit_uid = Some example_uid, sn_inputs = example_inputs\<rparr>"

section \<open>The command line\<close>

record sim_cli =
  cli_scenario :: "string option"
  cli_verbose :: bool
  cli_example :: bool

record process_result =
  pr_stdout :: string
  pr_exit :: int

text \<open>
  \<open>read\<close> and \<open>parse\<close> read a file and a scenario from JSON, \<open>print\<close> writes a scenario as JSON, or fails; an
  error of \<open>main\<close> is reported on the error output with exit code 1.
\<close>

definition sim_main ::
  "externals \<Rightarrow> unit_uid \<Rightarrow> (string \<Rightarrow> string option) \<Rightarrow> (string \<Rightarrow> scenario option)
     \<Rightarrow> (scenario \<Rightarrow> string option) \<Rightarrow> sim_cli \<Rightarrow> process_result" where
  "sim_main x fresh read parse print cli =
     (let failed = \<lparr>pr_stdout = [], pr_exit = 1\<rparr> in
      if cli_example cli
      then (case print example_scenario of
          None \<Rightarrow> failed | Some text \<Rightarrow> \<lparr>pr_stdout = text @ newline, pr_exit = 0\<rparr>)
      else (case (case cli_scenario cli of
            Some path \<Rightarrow> Option.bind (read path) parse
          | None \<Rightarrow> Some example_scenario) of
          None \<Rightarrow> failed
        | Some s \<Rightarrow>
            (case run x fresh s (cli_verbose cli) of
               Inl e \<Rightarrow> failed
             | Inr report \<Rightarrow> \<lparr>pr_stdout = report, pr_exit = exit_code (Inr report)\<rparr>)))"

section \<open>The built-in scenario runs clean\<close>

text \<open>The turns of the run: the unit's operation, the finished operations and the report so far.\<close>

definition example_state :: "unit_uid \<Rightarrow> operation_seq option \<Rightarrow> operation_seq set \<Rightarrow> string \<Rightarrow> sim_state" where
  "example_state uid now finished out =
     \<lparr>ss_unit = (sim_unit example_scenario uid)\<lparr>u_current_operation := now\<rparr>,
      ss_completed = finished, ss_out = out\<rparr>"

abbreviation example_station :: station where
  "example_station \<equiv> hd (sn_stations example_scenario)"

lemma example_servers:
  "first_server (sn_route example_scenario) (ss_unit (example_state uid now {} out)) {} (sn_stations example_scenario)
    = Some (example_station, example_operations ! 0)"
  "first_server (sn_route example_scenario) (ss_unit (example_state uid now {10} out)) {10} (sn_stations example_scenario)
    = Some (example_station, example_operations ! 1)"
  "first_server (sn_route example_scenario) (ss_unit (example_state uid now {20, 10} out)) {20, 10} (sn_stations example_scenario)
    = Some (example_station, example_operations ! 2)"
  "first_server (sn_route example_scenario) (ss_unit (example_state uid now {30, 20, 10} out)) {30, 20, 10} (sn_stations example_scenario)
    = Some (example_station, example_operations ! 3)"
  by code_simp+

lemma example_defs:
  "\<forall>i < 4. bt_get (bt_collect (map (\<lambda>d. (od_id d, d)) (sn_operation_defs example_scenario)))
     (ro_operation_def_id (example_operations ! i)) = Some (sn_operation_defs example_scenario ! i)"
  by code_simp

lemma example_seqs:
  "map ro_seq example_operations = [10, 20, 30, 40]"
  by (simp add: example_operations_def)

lemma example_seq [simp]:
  "ro_seq (example_operations ! 0) = 10" "ro_seq (example_operations ! 1) = 20" "ro_seq (example_operations ! Suc 0) = 20"
  "ro_seq (example_operations ! 2) = 30" "ro_seq (example_operations ! 3) = 40"
  by (simp_all add: example_operations_def)

lemma example_state_sel [simp]:
  "ss_completed (example_state uid now finished out) = finished"
  "ss_out (example_state uid now finished out) = out"
  "u_uid (ss_unit (example_state uid now finished out)) = uid"
  by (simp_all add: example_state_def sim_unit_def)

text \<open>What the scenario offers an operation.\<close>

abbreviation example_input :: "route_operation \<Rightarrow> operation_input" where
  "example_input op \<equiv> (case bt_get example_inputs (show_word (ro_seq op)) of
     None \<Rightarrow> default_input | Some i \<Rightarrow> i)"

lemma example_identity:
  assumes "oi_identity_scanned (example_input op)"
  shows "gate_identity x kind (sim_context example_scenario st station op def) = pass kind"
  using assms by (simp add: gate_identity_def sim_context_def Let_def example_scenario_def)

lemma example_scanned:
  "oi_identity_scanned (example_input (example_operations ! 0))"
  "oi_identity_scanned (example_input (example_operations ! 1))"
  by code_simp+
lemma example_mark:
   "oi_mark_verification (example_input (example_operations ! 0))
     = Some \<lparr>mv_decoded = example_uid, mv_grade = Some CHR ''B''\<rparr>"
  by code_simp

lemma example_marked:
  assumes "unit_uid_display x uid = example_uid"
  shows "gate_mark_verified x kind (sim_context example_scenario (example_state uid now finished out) station (example_operations ! 0) def) = pass kind"
proof -
  let ?ctx = "sim_context example_scenario (example_state uid now finished out) station (example_operations ! 0) def"
  have "oc_mark_verification ?ctx = Some \<lparr>mv_decoded = example_uid, mv_grade = Some CHR ''B''\<rparr>"
    unfolding sim_context_def Let_def using example_mark by (simp add: example_scenario_def)
  moreover have "rev_mark_method (oc_revision ?ctx) = Label" "rev_min_mark_grade (oc_revision ?ctx) = Some CHR ''C''"
    "u_uid (oc_unit ?ctx) = uid"
    by (simp_all add: sim_context_def Let_def example_scenario_def)
  moreover have "\<not> CHR ''B'' > CHR ''C''" by code_simp
  ultimately show ?thesis using assms by (simp add: gate_mark_verified_def Let_def)
qed

lemma example_advance1:
  assumes "unit_uid_display x uid = example_uid"
  shows "try_advance x (sim_context example_scenario (example_state uid now {} out) example_station
      (example_operations ! 0) (sn_operation_defs example_scenario ! 0))
    = Adv_Completed (map pass [''IDENTITY'', ''MARK_VERIFIED'']) [] [20] False"
proof -
  let ?ctx = "sim_context example_scenario (example_state uid now {} out) example_station
      (example_operations ! 0) (sn_operation_defs example_scenario ! 0)"
  have "ro_gates (oc_operation ?ctx) = [Identity, MarkVerified]"
    by (simp add: sim_context_def Let_def example_operations_def)
  moreover have "map ro_seq (ready_operations (oc_route ?ctx) (insert (ro_seq (oc_operation ?ctx)) (oc_completed ?ctx))) = [20]"
    "is_complete (oc_route ?ctx) (insert (ro_seq (oc_operation ?ctx)) (oc_completed ?ctx)) = False"
     by code_simp+
  ultimately show ?thesis
    using example_identity [OF example_scanned(1)] example_marked [OF assms]
    by (simp add: try_advance_def Let_def pass_def)
qed

lemma example_advance2:
  shows "try_advance x (sim_context example_scenario (example_state uid now {10} out) example_station
      (example_operations ! 1) (sn_operation_defs example_scenario ! 1))
    = Adv_Completed (map pass [''IDENTITY'', ''OPERATOR_AUTH'', ''PRECONDITION'', ''COMPONENT_VERIFY'']) [] [30] False"
proof -
  let ?ctx = "sim_context example_scenario (example_state uid now {10} out) example_station
      (example_operations ! 1) (sn_operation_defs example_scenario ! 1)"
  have "ro_gates (oc_operation ?ctx) = [Identity, OperatorAuth, Precondition, ComponentVerify [11]]"
    by (simp add: sim_context_def Let_def example_operations_def)
  moreover have "map ro_seq (ready_operations (oc_route ?ctx) (insert (ro_seq (oc_operation ?ctx)) (oc_completed ?ctx))) = [30]"
    "is_complete (oc_route ?ctx) (insert (ro_seq (oc_operation ?ctx)) (oc_completed ?ctx)) = False"
    "evaluate_gate x OperatorAuth ?ctx = pass ''OPERATOR_AUTH''"
    "evaluate_gate x Precondition ?ctx = pass ''PRECONDITION''"
    "evaluate_gate x (ComponentVerify [11]) ?ctx = pass ''COMPONENT_VERIFY''"
     by code_simp+
  ultimately show ?thesis
    using example_identity [OF example_scanned(2)] 
    by (simp add: try_advance_def Let_def pass_def del: evaluate_gate.simps add: evaluate_gate.simps(1))
qed

lemma example_advance3: "try_advance x (sim_context example_scenario (example_state uid now {20, 10} out) example_station (example_operations ! 2)
     (sn_operation_defs example_scenario ! 2))
   = Adv_Completed (map pass [''PRECONDITION'', ''DATA_CAPTURE'']) [] [40] False"
  by code_simp
lemma example_advance4: "try_advance x (sim_context example_scenario (example_state uid now {30, 20, 10} out) example_station (example_operations ! 3)
     (sn_operation_defs example_scenario ! 3))
   = Adv_Completed (map pass [''PRECONDITION'', ''TEST_PASS'', ''INTERLOCK_OUT'']) [ReleaseInterlock 42] [] True"
  by code_simp

definition example_part :: "bool \<Rightarrow> nat \<Rightarrow> string list \<Rightarrow> effect list \<Rightarrow> operation_seq list \<Rightarrow> string" where
  "example_part v i gates effects next_ready =
     completed_report v (example_operations ! i) (sn_operation_defs example_scenario ! i) example_station (map pass gates) effects
          @ (if v \<and> next_ready \<noteq> [] then ''        next ready: '' @ debug_list show_word next_ready @ newline else [])"

lemma example_turn:
  assumes "first_server (sn_route example_scenario) (ss_unit st) (ss_completed st) (sn_stations example_scenario)
      = Some (example_station, example_operations ! i)"
    and "try_advance x (sim_context example_scenario st example_station (example_operations ! i)
        (sn_operation_defs example_scenario ! i))
      = Adv_Completed (map pass gates) effects next_ready False"
    and "st = example_state uid now finished out" and "i < 4"
    and "n = ro_seq (example_operations ! i)"
  shows "sim_turn x example_scenario v st
    = Go_on (example_state uid (Some n) (insert n finished) (out @ example_part v i gates effects next_ready))"
  using assms(1,2) example_defs assms(4)
  by (simp add: sim_turn_def assms(3,5) example_state_def Let_def example_part_def)

definition example_report :: "bool \<Rightarrow> string" where
  "example_report v =
    (''route-sim: '' @ sn_name example_scenario @ newline
     @ ''route '' @ rt_revision (sn_route example_scenario) @ '' on line '' @ show_int (rt_line_id (sn_route example_scenario))
     @ '', '' @ show_nat (length (rt_operations (sn_route example_scenario))) @ '' operations, ''
     @ show_nat (length (sn_stations example_scenario)) @ '' stations'' @ newline @ newline
     @ ''unit '' @ example_uid @ '' (SIM-0000000001)'' @ newline @ newline)
     @ example_part v 0 [''IDENTITY'', ''MARK_VERIFIED''] [] [20]
     @ example_part v 1 [''IDENTITY'', ''OPERATOR_AUTH'', ''PRECONDITION'', ''COMPONENT_VERIFY''] [] [30]
     @ example_part v 2 [''PRECONDITION'', ''DATA_CAPTURE''] [] [40]
     @ example_part v 3 [''PRECONDITION'', ''TEST_PASS'', ''INTERLOCK_OUT''] [ReleaseInterlock 42] []
     @ newline @ ''route complete'' @ newline"

lemma example_report_clean:
  "\<forall>v. contains ''BLOCKED'' (example_report v @ newline @ ''final state: '' @ state_name Completed @ newline
     @ ''completed operations: '' @ debug_seq_set {40, 30, 20, 10} @ newline) = False"
  by code_simp

lemma example_def_at: "i < 4 \<Longrightarrow> bt_get (bt_collect (map (\<lambda>d. (od_id d, d)) (sn_operation_defs example_scenario)))
     (ro_operation_def_id (example_operations ! i)) = Some (sn_operation_defs example_scenario ! i)"
  using example_defs by blast

lemma example_last_turn:
  "sim_turn x example_scenario v (example_state uid now {30, 20, 10} out)
    = Stop ((example_state uid (Some 40) {40, 30, 20, 10} (out @ example_part v 3 [''PRECONDITION'', ''TEST_PASS'', ''INTERLOCK_OUT''] [ReleaseInterlock 42] []
     @ newline @ ''route complete'' @ newline))\<lparr>ss_unit := (sim_unit example_scenario uid)\<lparr>u_current_operation := Some 40, u_state := Completed\<rparr>\<rparr>)"
  using example_advance4 [of x uid now out] example_servers(4) [of uid now out] example_def_at [of 3]
  by (simp add: sim_turn_def Let_def example_part_def transition_to_def)
     (simp add: example_state_def sim_unit_def)

lemma example_runs:
  assumes u: "ulid_from_string x example_uid = Some u" and d: "ulid_text x u = example_uid"
  shows "sim_run x fresh example_scenario v = Inr ((example_state (UnitUid (PublicId u)) (Some 40) {40, 30, 20, 10} (example_report v))
     \<lparr>ss_unit := (sim_unit example_scenario (UnitUid (PublicId u)))\<lparr>u_current_operation := Some 40, u_state := Completed\<rparr>\<rparr>)"
proof -
  let ?u = "UnitUid (PublicId u)"
  let ?h = "sim_header x example_scenario ?u"
  have l: "length (rt_operations (sn_route example_scenario)) = 4" by code_simp
  have disp: "unit_uid_display x ?u = example_uid" by (simp add: d)
  have start: "\<lparr>ss_unit = sim_unit example_scenario ?u, ss_completed = {}, ss_out = ?h\<rparr> = example_state ?u None {} ?h"
    by (simp add: example_state_def sim_unit_def)
  have t1: "sim_turn x example_scenario v (example_state ?u None {} ?h) =
     Go_on (example_state ?u (Some 10) {10} (?h @ example_part v 0 [''IDENTITY'', ''MARK_VERIFIED''] [] [20]))" (is "_ = Go_on (example_state _ _ _ ?o1)")
    by (rule example_turn [OF _ example_advance1 [OF disp] refl]) (simp_all add: example_servers del: One_nat_def)
  have t2: "sim_turn x example_scenario v (example_state ?u (Some 10) {10} ?o1) =
     Go_on (example_state ?u (Some 20) {20, 10} (?o1 @ example_part v 1 [''IDENTITY'', ''OPERATOR_AUTH'', ''PRECONDITION'', ''COMPONENT_VERIFY''] [] [30]))" (is "_ = Go_on (example_state _ _ _ ?o2)")
    by (rule example_turn [OF _ example_advance2 refl]) (simp_all add: example_servers del: One_nat_def)
  have t3: "sim_turn x example_scenario v (example_state ?u (Some 20) {20, 10} ?o2) =
     Go_on (example_state ?u (Some 30) {30, 20, 10} (?o2 @ example_part v 2 [''PRECONDITION'', ''DATA_CAPTURE''] [] [40]))" (is "_ = Go_on (example_state _ _ _ ?o3)")
    by (rule example_turn [OF _ example_advance3 refl]) (simp_all add: example_servers del: One_nat_def)
  have loop: "sim_loop x example_scenario v 0 (example_state ?u None {} ?h)
    = Inr ((example_state ?u (Some 40) {40, 30, 20, 10} (?o3 @ example_part v 3 [''PRECONDITION'', ''TEST_PASS'', ''INTERLOCK_OUT'']
        [ReleaseInterlock 42] [] @ newline @ ''route complete'' @ newline))
      \<lparr>ss_unit := (sim_unit example_scenario ?u)\<lparr>u_current_operation := Some 40, u_state := Completed\<rparr>\<rparr>)"
    by (simp add: sim_loop.simps l t1 t2 t3 example_last_turn del: append_assoc append.simps One_nat_def)
  have "validate (sn_route example_scenario) = Some (Inr ())" by code_simp
  moreover have "sn_unit_uid example_scenario = Some example_uid" by (simp add: example_scenario_def)
  ultimately have "sim_run x fresh example_scenario v = sim_loop x example_scenario v 0 (example_state ?u None {} ?h)"
    by (simp only: sim_run_def newtype_parse_def u start option.case sum.case public_id_parse.simps and_then.simps)
  from trans [OF this loop] show ?thesis
    by (simp only: example_report_def sim_header_def disp append_assoc)
qed

text \<open>
  The example scenario the simulator ships runs clean: its route validates, the unit passes all four
  operations and every gate, ends COMPLETED with operations 10, 20, 30 and 40 done, and the simulator,
  started with no scenario, exits with code 0, printing the gates or not.  Of the ULID library it
  relies on the example's identity being read and written back as the same text.
\<close>

theorem built_in_example_passes:
  assumes "ulid_from_string x example_uid = Some u" and "ulid_text x u = example_uid"
  shows "\<exists>st. sim_run x fresh example_scenario verbose = Inr st
    \<and> u_state (ss_unit st) = Completed \<and> ss_completed st = {10, 20, 30, 40}
    \<and> pr_exit (sim_main x fresh read parse print \<lparr>cli_scenario = None, cli_verbose = verbose, cli_example = False\<rparr>) = 0"
proof -
  note ran = example_runs [OF assms, of fresh verbose]
  have "\<exists>report. run x fresh example_scenario verbose = Inr report \<and> exit_code (Inr report) = 0"
    using example_report_clean by (simp add: run_def ran exit_code_def example_state_def del: append_assoc)
  then show ?thesis
    using ran by (auto simp: sim_main_def example_state_def)
qed

lemma built_in_example_passes_witness:
  "\<exists>st. sim_run (demo_externals\<lparr>ulid_text := \<lambda>_. example_uid, ulid_from_string := \<lambda>_. Some 1\<rparr>)
      (UnitUid (PublicId 7)) example_scenario True = Inr st \<and> u_state (ss_unit st) = Completed"
  using built_in_example_passes [of "demo_externals\<lparr>ulid_text := \<lambda>_. example_uid, ulid_from_string := \<lambda>_. Some 1\<rparr>" 1
    "UnitUid (PublicId 7)" True "\<lambda>_. None" "\<lambda>_. None" "\<lambda>_. None"] by auto
end
