(* ===== verification/Sources.thy ===== *)
theory Sources
  imports Install
begin

text \<open>
  Where update bytes come from, \<open>crates/trace-updater/src/source.rs\<close>: a bundle in a directory, read from
  the same kind of file system the updater writes, and a bundle on an HTTP server.  Both become the
  \<open>artifact_source\<close> of the updater.  Decoding an envelope from JSON is the \<open>serde_json\<close> package's; the HTTP
  client of the \<open>reqwest\<close> package is the server it talks to, as the responses it hands over.
\<close>

section \<open>Reading files\<close>

text \<open>
  How the kernel finds a file: component by component, following the symbolic links it meets, of
  which it follows at most forty.
\<close>

function resolve_links :: "fs \<Rightarrow> nat \<Rightarrow> path \<Rightarrow> path \<Rightarrow> string + path" where
  "resolve_links fs n base [] = Inr base"
| "resolve_links fs n base (p # ps) =
     (if p = ''..'' then resolve_links fs n (butlast base) ps
      else case fs (base @ [p]) of
        Some (Link t) \<Rightarrow>
          if n = 0 then Inl ''too many levels of symbolic links''
          else resolve_links fs (n - 1) [] (t @ ps)
      | _ \<Rightarrow> resolve_links fs n (base @ [p]) ps)"
  by pat_completeness auto

termination
  by (relation "measures [\<lambda>(fs, n, base, ps). n, \<lambda>(fs, n, base, ps). length ps]") auto

definition LINK_DEPTH :: nat where
  "LINK_DEPTH = 40"

definition read_file :: "fs \<Rightarrow> path \<Rightarrow> string + string" where
  "read_file fs p =
     (case resolve_links fs LINK_DEPTH [] p of
        Inl e \<Rightarrow> Inl e
      | Inr q \<Rightarrow>
          (case fs q of
             Some (File bytes) \<Rightarrow> Inr bytes
           | Some Dir \<Rightarrow> Inl ''is a directory''
           | _ \<Rightarrow> Inl ''no such file or directory''))"

text \<open>\<open>Path::display\<close>, of a path written without superfluous parts.\<close>

definition show_path :: "path \<Rightarrow> string" where
  "show_path p = concat (map (\<lambda>c. CHR ''/'' # c) p)"

text \<open>The message each error displays.\<close>

fun update_error_display :: "update_error \<Rightarrow> string" where
  "update_error_display (UpSignature e) = ''update manifest is not trustworthy: '' @ sign_error_display e"
| "update_error_display (DigestMismatch name expected actual) =
     ''artifact '' @ name @ '': expected sha256 '' @ expected @ '', got '' @ actual"
| "update_error_display (DowngradeRefused installed offered) =
     ''refusing downgrade from '' @ installed @ '' to '' @ offered @ ''; manifest is not marked as a rollback''"
| "update_error_display (UpgradePathRequired installed minimum target) =
     ''update to '' @ target @ '' requires at least '' @ minimum @ '', but '' @ installed @ '' is installed''"
| "update_error_display (MalformedVersion v detail) = ''malformed version '' @ v @ '': '' @ detail"
| "update_error_display (UpRolledBack v reason restored) =
     ''update to '' @ v @ '' failed its health probe ('' @ reason @ ''); rolled back to '' @ restored"
| "update_error_display (RollbackImpossible v reason) =
     ''update to '' @ v @ '' failed its health probe ('' @ reason @ '') and no previous release exists''"
| "update_error_display (UpIo p e) = ''update io error at '' @ show_path p @ '': '' @ e"
| "update_error_display (UpFetch name detail) = ''cannot fetch artifact '' @ name @ '': '' @ detail"
| "update_error_display (UpMalformed detail) = ''malformed manifest: '' @ detail"

section \<open>A directory\<close>

type_synonym envelope_json = "string \<Rightarrow> string + envelope"

definition directory_manifest ::
  "envelope_json \<Rightarrow> fs \<Rightarrow> directory_source \<Rightarrow> update_error + envelope" where
  "directory_manifest parse stick src =
     (let p = path_join (ds_root src) (ds_manifest_name src) in
      case read_file stick p of
        Inl e \<Rightarrow> Inl (UpIo p e)
      | Inr bytes \<Rightarrow>
          (case parse bytes of
             Inl e \<Rightarrow> Inl (UpMalformed (show_path p @ '': '' @ e))
           | Inr env \<Rightarrow> Inr env))"

definition directory_artifact :: "fs \<Rightarrow> directory_source \<Rightarrow> artifact \<Rightarrow> update_error + string" where
  "directory_artifact stick src a =
     and_then (source_resolve src (ar_path a)) (\<lambda>p.
       case read_file stick p of
         Inl e \<Rightarrow> Inl (UpFetch (ar_name a) (show_path p @ '': '' @ e))
       | Inr bytes \<Rightarrow> Inr bytes)"

definition directory_describe :: "directory_source \<Rightarrow> string" where
  "directory_describe src = ''directory '' @ show_path (ds_root src)"

definition from_directory :: "envelope_json \<Rightarrow> fs \<Rightarrow> directory_source \<Rightarrow> artifact_source" where
  "from_directory parse stick src =
     \<lparr>src_manifest = directory_manifest parse stick src,
      src_artifact = directory_artifact stick src\<rparr>"

section \<open>An HTTP server\<close>

text \<open>
  A response as the client hands it over: the status code and its text, the declared length, if there
  is one, and the whole body, or how reading it failed.
\<close>

record http_response =
  rsp_status :: "16 word"
  rsp_status_text :: string
  rsp_content_length :: "u64 option"
  rsp_body :: "string + string"

type_synonym http_server = "string \<Rightarrow> string + http_response"

definition is_success :: "http_response \<Rightarrow> bool" where
  "is_success r \<longleftrightarrow> 200 \<le> rsp_status r \<and> rsp_status r < 300"

record http_source =
  hs_base_url :: string
  hs_manifest_url :: string
  hs_max_artifact_bytes :: u64

definition DEFAULT_MAX_ARTIFACT_BYTES :: u64 where
  "DEFAULT_MAX_ARTIFACT_BYTES = 512 * 1024 * 1024"

text \<open>\<open>built\<close> is what building the client came to.\<close>

definition http_source_new :: "string + unit \<Rightarrow> string \<Rightarrow> string \<Rightarrow> update_error + http_source" where
  "http_source_new built base_url manifest_url =
     (case built of
        Inl e \<Rightarrow> Inl (UpFetch ''client'' e)
      | Inr _ \<Rightarrow> Inr \<lparr>hs_base_url = base_url, hs_manifest_url = manifest_url,
          hs_max_artifact_bytes = DEFAULT_MAX_ARTIFACT_BYTES\<rparr>)"

definition with_max_artifact_bytes :: "http_source \<Rightarrow> u64 \<Rightarrow> http_source" where
  "with_max_artifact_bytes src cap = src\<lparr>hs_max_artifact_bytes := cap\<rparr>"

definition http_manifest ::
  "envelope_json \<Rightarrow> http_server \<Rightarrow> http_source \<Rightarrow> update_error + envelope" where
  "http_manifest parse srv src =
     (case srv (hs_manifest_url src) of
        Inl e \<Rightarrow> Inl (UpFetch ''manifest'' e)
      | Inr r \<Rightarrow>
          if \<not> is_success r then Inl (UpFetch ''manifest'' (''HTTP '' @ rsp_status_text r))
          else (case rsp_body r of
              Inl e \<Rightarrow> Inl (UpFetch ''manifest'' e)
            | Inr bytes \<Rightarrow>
                (case parse bytes of Inl e \<Rightarrow> Inl (UpMalformed e) | Inr env \<Rightarrow> Inr env)))"

definition artifact_url :: "http_source \<Rightarrow> artifact \<Rightarrow> string" where
  "artifact_url src a =
     rev (dropWhile (\<lambda>c. c = CHR ''/'') (rev (hs_base_url src))) @ ''/'' @ ar_path a"

definition http_artifact :: "http_server \<Rightarrow> http_source \<Rightarrow> artifact \<Rightarrow> update_error + string" where
  "http_artifact srv src a =
     (if ar_size a > hs_max_artifact_bytes src
      then Inl (UpFetch (ar_name a) (''declared size '' @ show_word (ar_size a) @ '' exceeds the ''
        @ show_word (hs_max_artifact_bytes src) @ '' byte cap''))
      else let url = artifact_url src a in
        case srv url of
          Inl e \<Rightarrow> Inl (UpFetch (ar_name a) e)
        | Inr r \<Rightarrow>
            if \<not> is_success r
            then Inl (UpFetch (ar_name a) (''HTTP '' @ rsp_status_text r @ '' for '' @ url))
            else (case rsp_content_length r of
                Some len \<Rightarrow>
                  if len > hs_max_artifact_bytes src
                  then Inl (UpFetch (ar_name a) (''server offered '' @ show_word len
                    @ '' bytes, over the cap''))
                  else (case rsp_body r of Inl e \<Rightarrow> Inl (UpFetch (ar_name a) e) | Inr b \<Rightarrow> Inr b)
              | None \<Rightarrow>
                  (case rsp_body r of Inl e \<Rightarrow> Inl (UpFetch (ar_name a) e) | Inr b \<Rightarrow> Inr b)))"

definition http_describe :: "http_source \<Rightarrow> string" where
  "http_describe src = ''http '' @ hs_base_url src"

definition from_http :: "envelope_json \<Rightarrow> http_server \<Rightarrow> http_source \<Rightarrow> artifact_source" where
  "from_http parse srv src =
     \<lparr>src_manifest = http_manifest parse srv src, src_artifact = http_artifact srv src\<rparr>"

section \<open>The transports agree\<close>

text \<open>
  Two attempts at the same: the second does what the first does, in the same world, unless the first failed;
  strictly, then the second has failed as well and left the same world, and only the errors differ.
\<close>

definition result_like :: "bool \<Rightarrow> 'e + 'a \<Rightarrow> 'e + 'a \<Rightarrow> bool" where
  "result_like strict r r' \<longleftrightarrow> r' = r \<or> \<not> is_ok r \<and> (strict \<longrightarrow> \<not> is_ok r')"

definition io_like :: "bool \<Rightarrow> 'a io \<Rightarrow> 'a io \<Rightarrow> bool" where
  "io_like strict m m' \<longleftrightarrow> (\<forall>w. m' w = m w
     \<or> (\<exists>e. fst (m w) = Failed e) \<and> (strict \<longrightarrow> snd (m' w) = snd (m w) \<and> (\<exists>e. fst (m' w) = Failed e)))"

lemma result_likeI:
  assumes "\<And>b. r = Inr b \<Longrightarrow> r' = Inr b" and "\<And>b. strict \<Longrightarrow> r' = Inr b \<Longrightarrow> r = Inr b"
  shows "result_like strict r r'"
  using assms by (cases r; cases r') (auto simp: result_like_def)

lemma io_like_refl: "io_like strict m m"
  by (simp add: io_like_def)

lemma io_like_bind:
  assumes "io_like strict m m'" and "\<And>a. io_like strict (f a) (f' a)"
  shows "io_like strict (io_bind m f) (io_bind m' f')"
  unfolding io_like_def
proof
  fix w
  consider "m' w = m w" | e where "fst (m w) = Failed e"
      "strict \<longrightarrow> snd (m' w) = snd (m w) \<and> (\<exists>e. fst (m' w) = Failed e)"
    using assms(1) unfolding io_like_def by blast
  then show "io_bind m' f' w = io_bind m f w \<or> (\<exists>e. fst (io_bind m f w) = Failed e)
      \<and> (strict \<longrightarrow> snd (io_bind m' f' w) = snd (io_bind m f w) \<and> (\<exists>e. fst (io_bind m' f' w) = Failed e))"
  proof cases
    case 1
    obtain r w1 where "m w = (r, w1)"
      by fastforce
    with 1 show ?thesis
      using assms(2) by (cases r) (auto simp: io_bind_def io_like_def)
  next
    case 2
    then show ?thesis
      by (auto simp: io_bind_def split: prod.splits finish.splits)
  qed
qed

lemma io_like_lift:
  assumes "result_like strict r r'" and "\<And>a. r = Inr a \<Longrightarrow> io_like strict (f a) (f' a)"
  shows "io_like strict (io_bind (io_lift r) f) (io_bind (io_lift r') f')"
  using assms
  by (cases r; cases r') (auto simp: result_like_def io_like_def io_bind_def io_lift_def)

lemma stage_like:
  assumes "\<forall>a \<in> set as. result_like strict (src_artifact on a) (src_artifact off a)"
  shows "io_like strict (stage_artifacts L on staging as) (stage_artifacts L off staging as)"
  using assms
proof (induction as)
  case (Cons a as)
  then show ?case
    unfolding stage_artifacts.simps by (intro io_like_lift io_like_bind io_like_refl) simp_all
qed (simp add: io_like_refl)

text \<open>An update is decided by its source: by what it gives for the manifest and for each artifact listed.\<close>

lemma update_like:
  assumes "result_like strict (src_manifest on) (src_manifest off)"
    and "\<And>env m a. src_manifest on = Inr env
      \<Longrightarrow> manifest_verify (up_sign u) (up_semver u) (up_from_slice u) env (up_key u) = Inr m
      \<Longrightarrow> a \<in> set (mf_artifacts m) \<Longrightarrow> result_like strict (src_artifact on a) (src_artifact off a)"
  shows "io_like strict (update u on probe) (update u off probe)"
proof -
  have target: "io_like strict (apply_target u on probe m installed target) (apply_target u off probe m installed target)"
    if "\<forall>a \<in> set (mf_artifacts m). result_like strict (src_artifact on a) (src_artifact off a)"
    for m installed target
    unfolding apply_target_def stage_def Let_def
    by (intro io_like_bind io_like_refl stage_like that)
  show ?thesis
    unfolding update_def Let_def
    using assms
    by (intro io_like_bind io_like_lift io_like_refl)
      (auto simp: result_like_def intro!: io_like_refl target split: update_decision.splits)
qed

text \<open>The file of a bundle under a relative path, and a server that publishes a bundle and nothing else.\<close>

definition bundle_file :: "fs \<Rightarrow> path \<Rightarrow> string \<Rightarrow> string option" where
  "bundle_file fs dir p =
     (if is_absolute p \<or> ''..'' \<in> set (components p) then None
      else case read_file fs (dir @ components p) of Inl _ \<Rightarrow> None | Inr b \<Rightarrow> Some b)"

definition publishes :: "http_server \<Rightarrow> string \<Rightarrow> fs \<Rightarrow> path \<Rightarrow> bool" where
  "publishes srv base fs dir \<longleftrightarrow> (\<forall>p.
     case bundle_file fs dir p of
       None \<Rightarrow> (case srv (base @ ''/'' @ p) of Inl _ \<Rightarrow> True | Inr r \<Rightarrow> \<not> is_success r)
     | Some b \<Rightarrow> length b < 2 ^ 64 \<and> (\<exists>r. srv (base @ ''/'' @ p) = Inr r \<and> is_success r \<and> rsp_body r = Inr b
         \<and> rsp_content_length r = Some (of_nat (length b))))"

definition within_cap :: "http_source \<Rightarrow> artifact \<Rightarrow> string \<Rightarrow> bool" where
  "within_cap src a b \<longleftrightarrow>
     ar_size a \<le> hs_max_artifact_bytes src \<and> length b \<le> unat (hs_max_artifact_bytes src)"

text \<open>The directory source reads exactly the files of its bundle.\<close>

lemma directory_artifact_file:
  "directory_artifact stick (source_new dir) a = Inr b \<longleftrightarrow> bundle_file stick dir (ar_path a) = Some b"
  by (auto simp: directory_artifact_def source_resolve_def bundle_file_def path_join_def source_new_def
      list_ex_iff walk_inside split: sum.splits)

lemma directory_manifest_file:
  "directory_manifest parse stick (source_new dir) = Inr env
    \<longleftrightarrow> (\<exists>doc. bundle_file stick dir ''manifest.json'' = Some doc \<and> parse doc = Inr env)"
proof -
  have "components ''manifest.json'' = [''manifest.json'']" "\<not> is_absolute ''manifest.json''"
    by code_simp+
  then show ?thesis
    by (auto simp: directory_manifest_def bundle_file_def path_join_def source_new_def split: sum.splits)
qed

lemma publishes_file:
  assumes "publishes srv base stick dir" and "bundle_file stick dir p = Some b"
  shows "\<exists>r. srv (base @ ''/'' @ p) = Inr r \<and> is_success r \<and> rsp_body r = Inr b
    \<and> rsp_content_length r = Some (of_nat (length b)) \<and> length b < 2 ^ 64"
proof -
  have "case bundle_file stick dir p of
       None \<Rightarrow> (case srv (base @ ''/'' @ p) of Inl _ \<Rightarrow> True | Inr r \<Rightarrow> \<not> is_success r)
     | Some b \<Rightarrow> length b < 2 ^ 64 \<and> (\<exists>r. srv (base @ ''/'' @ p) = Inr r \<and> is_success r \<and> rsp_body r = Inr b
         \<and> rsp_content_length r = Some (of_nat (length b)))"
    using assms(1) unfolding publishes_def by (rule spec)
  then show ?thesis
    unfolding assms(2) option.case by blast
qed

lemma publishes_other:
  assumes "publishes srv base stick dir" and "bundle_file stick dir p = None"
  shows "srv (base @ ''/'' @ p) = Inr r \<Longrightarrow> \<not> is_success r"
proof -
  have "case bundle_file stick dir p of
       None \<Rightarrow> (case srv (base @ ''/'' @ p) of Inl _ \<Rightarrow> True | Inr r \<Rightarrow> \<not> is_success r)
     | Some b \<Rightarrow> length b < 2 ^ 64 \<and> (\<exists>r. srv (base @ ''/'' @ p) = Inr r \<and> is_success r \<and> rsp_body r = Inr b
         \<and> rsp_content_length r = Some (of_nat (length b)))"
    using assms(1) unfolding publishes_def by (rule spec)
  then show "srv (base @ ''/'' @ p) = Inr r \<Longrightarrow> \<not> is_success r"
    unfolding assms(2) option.case by simp
qed

text \<open>The HTTP source, of the files of a published bundle, those within the cap.\<close>

lemma http_artifact_file:
  assumes "publishes srv base stick dir" and "base = [] \<or> last base \<noteq> CHR ''/''"
    and "hs_base_url hs = base @ replicate n CHR ''/''"
  shows "http_artifact srv hs a = Inr b \<longleftrightarrow> bundle_file stick dir (ar_path a) = Some b
    \<and> within_cap hs a b"
proof -
  have "dropWhile (\<lambda>c. c = CHR ''/'') (rev base) = rev base"
    using assms(2) by (cases base rule: rev_cases) auto
  moreover have "dropWhile (\<lambda>c. c = CHR ''/'') (replicate n CHR ''/'' @ rev base)
      = dropWhile (\<lambda>c. c = CHR ''/'') (rev base)"
    by (induction n) simp_all
  ultimately have url: "artifact_url hs a = base @ ''/'' @ ar_path a"
    by (simp add: artifact_url_def assms(3))
  show ?thesis
  proof (cases "bundle_file stick dir (ar_path a)")
    case None
    note refused = publishes_other [OF assms(1) None]
    then show ?thesis
      using None refused by (auto simp: http_artifact_def url Let_def split: sum.splits)
  next
    case (Some c)
    then obtain r where "srv (base @ ''/'' @ ar_path a) = Inr r" "is_success r" "rsp_body r = Inr c"
        "rsp_content_length r = Some (of_nat (length c))" "length c < 2 ^ 64"
      using publishes_file [OF assms(1)] by blast
    then show ?thesis
      using Some by (auto simp: http_artifact_def url Let_def within_cap_def word_le_nat_alt word_less_nat_alt unat_of_nat_small not_less)
  qed
qed

lemma http_manifest_file:
  assumes "publishes srv base stick dir" and "hs_manifest_url hs = base @ ''/manifest.json''"
  shows "http_manifest parse srv hs = Inr env
    \<longleftrightarrow> (\<exists>doc. bundle_file stick dir ''manifest.json'' = Some doc \<and> parse doc = Inr env)"
proof (cases "bundle_file stick dir ''manifest.json''")
  case None
  note refused = publishes_other [OF assms(1) None]
  then show ?thesis
    using None assms(2) by (auto simp: http_manifest_def split: sum.splits)
next
  case (Some c)
  then obtain r where "srv (base @ ''/manifest.json'') = Inr r" "is_success r" "rsp_body r = Inr c"
    using publishes_file [OF assms(1)] by fastforce
  then show ?thesis
    using Some assms(2) by (auto simp: http_manifest_def split: sum.splits)
qed


text \<open>A stick that holds a release.\<close>

definition demo_envelope :: envelope where
  "demo_envelope = \<lparr>env_alg = ALG_ED25519, env_payload_b64 = ''true'',
     env_signature_b64 = replicate 64 CHR ''s'', env_key_id = []\<rparr>"

definition demo_stick :: fs where
  "demo_stick q =
     (if q = [] \<or> q = [''usb''] then Some Dir
      else if q = [''usb'', ''manifest.json''] then Some (File ''signed'')
      else if q = [''usb'', ''app''] then Some (File demo_bytes)
      else None)"

text \<open>A server that publishes the stick; what it does not have, it answers with a page that says so.\<close>

definition demo_server :: http_server where
  "demo_server url =
     (case (if prefix ''http://h/'' url then bundle_file demo_stick [''usb''] (drop 9 url) else None) of
        Some b \<Rightarrow> Inr \<lparr>rsp_status = 200, rsp_status_text = ''200 OK'',
          rsp_content_length = Some (of_nat (length b)), rsp_body = Inr b\<rparr>
      | None \<Rightarrow> Inr \<lparr>rsp_status = 404, rsp_status_text = ''404 Not Found'',
          rsp_content_length = Some 9, rsp_body = Inr ''not found''\<rparr>)"

definition demo_http :: http_source where
  "demo_http = \<lparr>hs_base_url = ''http://h/'', hs_manifest_url = ''http://h/manifest.json'',
     hs_max_artifact_bytes = DEFAULT_MAX_ARTIFACT_BYTES\<rparr>"

lemma demo_publishes: "publishes demo_server ''http://h'' demo_stick [''usb'']"
proof -
  have "length b < 2 ^ 64" if "bundle_file demo_stick [''usb''] p = Some b" for p b
    using that by (auto simp: bundle_file_def read_file_def demo_stick_def demo_bytes_def
        split: if_splits sum.splits option.splits node.splits)
  then show ?thesis
    by (auto simp: publishes_def demo_server_def is_success_def split: option.splits)
qed

lemma demo_online:
  "fst (update (demo_updater (demo_manifest ''3'' False [demo_artifact ''app'' demo_bytes]))
     (from_http (\<lambda>_. Inr demo_envelope) demo_server demo_http) (\<lambda>_. healthy_report) (demo_world 30))
    = Done (Installed 3 (Some 2))"
  by code_simp


section \<open>How much a server can make a box read\<close>

text \<open>The client checks a declared length: a body it hands over complete has that length.\<close>

definition lengths_checked :: "http_server \<Rightarrow> bool" where
  "lengths_checked srv \<longleftrightarrow>
     (\<forall>url r n b. srv url = Inr r \<longrightarrow> rsp_content_length r = Some n \<longrightarrow> rsp_body r = Inr b
        \<longrightarrow> length b = unat n)"

text \<open>
  The size cap of a download holds only for lengths a server declares: of an artifact whose signed size
  is within the cap, a body is taken exactly when its length was not declared or is within the cap, so
  that a server that declares none makes the box read a body of any length.
\<close>

theorem cap_needs_declared_length:
  assumes "lengths_checked srv" and "ar_size a \<le> hs_max_artifact_bytes src"
    and "srv (artifact_url src a) = Inr r" and "is_success r" and "rsp_body r = Inr b"
  shows "http_artifact srv src a = Inr b
    \<longleftrightarrow> rsp_content_length r = None \<or> length b \<le> unat (hs_max_artifact_bytes src)"
proof -
  have "length b = unat n" if "rsp_content_length r = Some n" for n
    using assms that by (auto simp: lengths_checked_def)
  then show ?thesis
    using assms by (auto simp: http_artifact_def Let_def word_le_nat_alt word_less_nat_alt split: option.splits)
qed

definition endless_server :: "nat \<Rightarrow> http_server" where
  "endless_server n url = Inr \<lparr>rsp_status = 200, rsp_status_text = ''200 OK'', rsp_content_length = None,
     rsp_body = Inr (replicate n CHR ''x'')\<rparr>"

lemma cap_needs_declared_length_witness:
  "http_artifact (endless_server 5000) (with_max_artifact_bytes demo_http 4096) (demo_artifact ''app'' demo_bytes)
     = Inr (replicate 5000 CHR ''x'')"
proof -
  have "lengths_checked (endless_server 5000)"
    by (simp add: lengths_checked_def endless_server_def)
  moreover have "ar_size (demo_artifact ''app'' demo_bytes) \<le> hs_max_artifact_bytes (with_max_artifact_bytes demo_http 4096)"
    by code_simp
  ultimately show ?thesis
    using cap_needs_declared_length [of "endless_server 5000" "demo_artifact ''app'' demo_bytes"
        "with_max_artifact_bytes demo_http 4096"
        "\<lparr>rsp_status = 200, rsp_status_text = ''200 OK'', rsp_content_length = None,
           rsp_body = Inr (replicate 5000 CHR ''x'')\<rparr>" "replicate 5000 CHR ''x''"]
    by (simp add: endless_server_def is_success_def)
qed

text \<open>
  The bundle root confines names, not links: a link on the stick leads the directory source to a file
  of the box.
\<close>

lemma stick_link_leaves_bundle:
  "directory_artifact (\<lambda>q. if q = [''usb'', ''app''] then Some (Link [''etc'', ''shadow''])
      else if q = [''etc'', ''shadow''] then Some (File ''secret'') else Some Dir)
    (source_new [''usb'']) (demo_artifact ''app'' demo_bytes) = Inr ''secret''"
  by code_simp

end
