(* ===== verification/Printer.thy ===== *)
theory Printer
  imports Label
begin

text \<open>
  Where labels go: the sinks, \<open>crates/trace-mark/src/sink.rs\<close>, and the virtual printer that reads what a
  sink sends, \<open>tools/device-sim/src/main.rs\<close>.  What the network and the file system do with a write is an
  argument; a \<open>Duration\<close> is a number of nanoseconds.  Labels are text, so that the printer's lossy decoding of
  the bytes changes nothing.
\<close>

section \<open>Sinks\<close>

datatype sink_error = SinkUnreachable string string | SinkTimeout string u64

text \<open>An awaited call under a deadline: it was abandoned, it failed, or it was done in time.\<close>

datatype awaited = Elapsed | Broke string | InTime

text \<open>What a sink's environment does: \<open>ev_arrived\<close> is how much of an incomplete write came through.\<close>

record sink_event =
  ev_open :: awaited
  ev_write :: awaited
  ev_flush :: "string option"
  ev_arrived :: nat

record tcp_sink =
  ts_addr :: string
  ts_timeout :: nat

definition DEFAULT_PORT :: "16 word" where
  "DEFAULT_PORT = 9100"

definition tcp_sink_new :: "string \<Rightarrow> 16 word \<Rightarrow> tcp_sink" where
  "tcp_sink_new host port = \<lparr>ts_addr = host @ '':'' @ show_word port, ts_timeout = 10000000000\<rparr>"

definition tcp_with_timeout :: "tcp_sink \<Rightarrow> nat \<Rightarrow> tcp_sink" where
  "tcp_with_timeout sink timeout = sink\<lparr>ts_timeout := timeout\<rparr>"

definition timed_out :: "tcp_sink \<Rightarrow> sink_error" where
  "timed_out sink = SinkTimeout (ts_addr sink) (of_nat (ts_timeout sink div 1000000))"

text \<open>Sending to a printer; the state is what the printer has received.\<close>

definition tcp_send ::
  "tcp_sink \<Rightarrow> sink_event \<Rightarrow> string \<Rightarrow> string \<Rightarrow> (sink_error + unit) \<times> string" where
  "tcp_send sink e payload got =
     (case ev_open e of
        Elapsed \<Rightarrow> (Inl (timed_out sink), got)
      | Broke d \<Rightarrow> (Inl (SinkUnreachable (ts_addr sink) d), got)
      | InTime \<Rightarrow>
          (case ev_write e of
             Elapsed \<Rightarrow> (Inl (timed_out sink), got @ take (ev_arrived e) payload)
           | Broke d \<Rightarrow> (Inl (SinkUnreachable (ts_addr sink) d), got @ take (ev_arrived e) payload)
           | InTime \<Rightarrow>
               (case ev_flush e of
                  Some d \<Rightarrow> (Inl (SinkUnreachable (ts_addr sink) d), got @ take (ev_arrived e) payload)
                | None \<Rightarrow> (Inr (), got @ payload))))"

definition tcp_describe :: "tcp_sink \<Rightarrow> string" where
  "tcp_describe sink = ''tcp '' @ ts_addr sink"

text \<open>Appending to a file, given by its path; nothing is awaited under a deadline here.\<close>

definition file_send ::
  "string \<Rightarrow> sink_event \<Rightarrow> string \<Rightarrow> string \<Rightarrow> (sink_error + unit) \<times> string" where
  "file_send path e payload content =
     (case ev_open e of
        Broke d \<Rightarrow> (Inl (SinkUnreachable path d), content)
      | _ \<Rightarrow>
          (case ev_write e of
             Broke d \<Rightarrow> (Inl (SinkUnreachable path d), content @ take (ev_arrived e) payload)
           | _ \<Rightarrow>
               (case ev_flush e of
                  Some d \<Rightarrow> (Inl (SinkUnreachable path d), content @ take (ev_arrived e) payload)
                | None \<Rightarrow> (Inr (), content @ payload))))"

definition file_describe :: "string \<Rightarrow> string" where
  "file_describe path = ''file '' @ path"

text \<open>
  What every sink promises: a label reported as sent has been delivered whole after what was
  delivered before, and of one that was not, at most a beginning.
\<close>

locale label_sink =
  fixes send :: "sink_event \<Rightarrow> string \<Rightarrow> string \<Rightarrow> (sink_error + unit) \<times> string"
  assumes sent: "send e p s = (Inr (), s') \<Longrightarrow> s' = s @ p"
    and not_sent: "send e p s = (Inl err, s') \<Longrightarrow> \<exists>n. s' = s @ take n p"
begin

lemma appends: "\<exists>u. snd (send e p s) = s @ u"
  using sent [of e p s] not_sent [of e p s] by (cases "send e p s"; cases "fst (send e p s)") fastforce+

text \<open>Sending one label after another; the first component tells which were sent.\<close>

fun send_all :: "(sink_event \<times> string) list \<Rightarrow> string \<Rightarrow> bool list \<times> string" where
  "send_all [] s = ([], s)"
| "send_all ((e, p) # jobs) s =
     (let (r, s1) = send e p s; (oks, s2) = send_all jobs s1 in ((r = Inr ()) # oks, s2))"

lemma all_sent:
  "send_all jobs s = (oks, s') \<Longrightarrow> list_all id oks \<Longrightarrow> s' = s @ concat (map snd jobs)"
proof (induction jobs arbitrary: s oks s')
  case (Cons j jobs)
  obtain e p where j: "j = (e, p)"
    by fastforce
  obtain s1 rest where first: "send e p s = (Inr (), s1)" and rest: "send_all jobs s1 = (rest, s')"
      "list_all id rest"
    using Cons.prems by (auto simp: j Let_def id_def split: prod.splits)
  from sent [OF first] Cons.IH [OF rest] show ?case
    by (simp add: j)
qed simp

end

interpretation to_printer: label_sink "tcp_send sink" for sink
  by unfold_locales (fastforce simp: tcp_send_def intro: exI [of _ 0] split: awaited.splits option.splits)+

interpretation to_file: label_sink "file_send path" for path
  by unfold_locales (fastforce simp: file_send_def intro: exI [of _ 0] split: awaited.splits option.splits)+

section \<open>The virtual printer\<close>

text \<open>Rust's \<open>matches(pat).count()\<close>, for a pattern that is not empty.\<close>

function count_matches :: "string \<Rightarrow> string \<Rightarrow> nat" where
  "count_matches pat s =
     (if pat = [] then length s + 1
      else case find_split pat s of None \<Rightarrow> 0 | Some (before, after) \<Rightarrow> Suc (count_matches pat after))"
  by pat_completeness auto

termination
  by (relation "measure (\<lambda>(pat, s). length s)") (auto dest!: find_split_Some)

declare count_matches.simps [simp del]

definition contains_text :: "string \<Rightarrow> string \<Rightarrow> bool" where
  "contains_text s pat \<longleftrightarrow> find_split pat s \<noteq> None"

text \<open>What \<open>summarise\<close> prints, line by line.\<close>

definition summarise :: "string \<Rightarrow> string list" where
  "summarise zpl =
     (let origins = count_matches ''^FO'' zpl; separators = count_matches ''^FS'' zpl in
      (if origins \<noteq> separators
       then [''WARNING: '' @ show_nat origins @ '' field origins but '' @ show_nat separators
         @ '' field separators''] else [])
      @ (if \<not> contains_text zpl ''^XA'' \<or> \<not> contains_text zpl ''^XZ''
         then [''WARNING: label is not wrapped in ^XA ... ^XZ''] else [])
      @ (if contains_text zpl ''{{'' then [''WARNING: unresolved binding left in the label''] else [])
      @ [''summary: '' @ show_nat origins @ '' fields, '' @ show_nat (count_matches ''^B'' zpl)
         @ '' barcodes''])"

text \<open>One connection: everything received, then the summary.\<close>

definition printer_session :: "string \<Rightarrow> string \<Rightarrow> string list" where
  "printer_session peer zpl =
     [''----- ZPL from '' @ peer @ '' -----'', zpl, ''----- end -----''] @ summarise zpl"

section \<open>A printer program as commands\<close>

text \<open>A program is its commands, each after a caret; counting a command is counting its beginnings.\<close>

definition program :: "string list \<Rightarrow> string" where
  "program cmds = concat (map (\<lambda>s. CHR ''^'' # s) cmds)"

lemma program_simps [simp]:
  "program [] = []" "program (s # cmds) = CHR ''^'' # s @ program cmds"
  "program (xs @ ys) = program xs @ program ys"
  by (simp_all add: program_def)

definition plain_command :: "string \<Rightarrow> bool" where
  "plain_command s \<longleftrightarrow> CHR ''^'' \<notin> set s"

lemma prefix_of_command:
  assumes "CHR ''^'' \<notin> set p"
  shows "prefix p (s @ program cmds) \<longleftrightarrow> prefix p s"
proof
  assume "prefix p (s @ program cmds)"
  then show "prefix p s"
    using assms by (cases cmds) (auto simp: prefix_append prefix_Cons)
qed (auto simp: prefix_def)

lemma find_command_skip:
  "CHR ''^'' \<notin> set s \<Longrightarrow> count_matches (CHR ''^'' # p) (s @ t) = count_matches (CHR ''^'' # p) t"
  by (simp add: count_matches.simps [of "CHR ''^'' # p" "s @ t"] count_matches.simps [of "CHR ''^'' # p" t]
      find_split_skip split: option.splits)

lemma count_program:
  assumes "CHR ''^'' \<notin> set p"
  shows "list_all plain_command cmds
    \<Longrightarrow> count_matches (CHR ''^'' # p) (program cmds) = length (filter (prefix p) cmds)"
proof (induction cmds)
  case Nil
  then show ?case
    by (simp add: count_matches.simps find_split.simps [of _ "[]"])
next
  case (Cons s cmds)
  let ?pat = "CHR ''^'' # p" and ?t = "program cmds"
  have s: "CHR ''^'' \<notin> set s"
    using Cons.prems by (simp add: plain_command_def)
  show ?case
  proof (cases "prefix p s")
    case True
    then obtain r where r: "s = p @ r"
      by (auto simp: prefix_def)
    have "find_split ?pat (?pat @ r @ ?t) = Some ([], r @ ?t)"
      by (rule find_split_here)
    then show ?thesis
      using Cons s True find_command_skip [of r p ?t]
      by (subst count_matches.simps) (simp add: r)
  next
    case False
    have "find_split ?pat (CHR ''^'' # s @ ?t) = map_option (\<lambda>(a, b). (CHR ''^'' # a, b)) (find_split ?pat (s @ ?t))"
      using prefix_of_command [OF assms, of s cmds] False
      by (subst find_split.simps) simp
    then have "count_matches ?pat (CHR ''^'' # s @ ?t) = count_matches ?pat (s @ ?t)"
      by (simp add: count_matches.simps [of ?pat "CHR ''^'' # s @ ?t"] count_matches.simps [of ?pat "s @ ?t"]
          split: option.splits)
    then show ?thesis
      using Cons s False find_command_skip [of s p ?t] by simp
  qed
qed

lemma contains_count: "pat \<noteq> [] \<Longrightarrow> contains_text s pat \<longleftrightarrow> 0 < count_matches pat s"
  by (subst count_matches.simps) (auto simp: contains_text_def split: option.splits)

fun element_commands :: "element \<Rightarrow> string list" where
  "element_commands (TextEl x y height width v a) =
     [''FO'' @ show_word x @ '','' @ show_word y]
     @ (case a of AlignLeft \<Rightarrow> [] | AlignCenter \<Rightarrow> [''FB400,1,0,C''] | AlignRight \<Rightarrow> [''FB400,1,0,R''])
     @ [''A0N,'' @ show_word height @ '','' @ show_word width, ''FD'' @ escape_field v, ''FS'' @ [CHR 0x0A]]"
| "element_commands (BarcodeEl x y code cell height v hr) =
     [''FO'' @ show_word x @ '','' @ show_word y]
     @ (case code of
          Code128 \<Rightarrow> [''BY'' @ show_word cell @ '',2.0,'' @ show_word height,
            ''BCN,'' @ show_word height @ '','' @ (if hr then ''Y'' else ''N'') @ '',N,N'', ''FD'' @ escape_field v]
        | Qr \<Rightarrow> [''BQN,2,'' @ show_word cell, ''FDQA,'' @ escape_field v]
        | DataMatrix \<Rightarrow> [''BXN,'' @ show_word cell @ '',200'', ''FD'' @ escape_field v])
     @ [''FS'' @ [CHR 0x0A]]"
| "element_commands (BoxEl x y w h thickness) =
     [''FO'' @ show_word x @ '','' @ show_word y,
      ''GB'' @ show_word w @ '','' @ show_word h @ '','' @ show_word thickness, ''FS'' @ [CHR 0x0A]]"

lemma render_element_commands: "render_element el = program (element_commands el)"
proof (cases el)
  case (BarcodeEl x y code cell height v hr)
  then show ?thesis
    by (cases code) simp_all
next
  case (TextEl x y height width v a)
  then show ?thesis
    by (cases a) simp_all
qed simp

lemma plain_word [simp]: "CHR ''^'' \<notin> set (show_word w)" "CHR ''{'' \<notin> set (show_word w)"
  using show_nat_digits [of _ "unat w"] by (force simp: show_word_def is_digit_char_def)+

lemma plain_field [simp]: "CHR ''^'' \<notin> set (escape_field v)"
  using zpl.escaped_safe [of v] by (auto simp: escape_field_def filter_empty_conv control_def)

lemma element_commands_plain: "list_all plain_command (element_commands el)"
proof (cases el)
  case (BarcodeEl x y code cell height v hr)
  then show ?thesis
    by (cases code) (simp_all add: plain_command_def)
next
  case (TextEl x y height width v a)
  then show ?thesis
    by (cases a) (simp_all add: plain_command_def)
qed (simp add: plain_command_def)

text \<open>How many of an element's commands the printer takes for a barcode.\<close>

fun barcodes_counted :: "element \<Rightarrow> nat" where
  "barcodes_counted (BarcodeEl _ _ Code128 _ _ _ _) = 2"
| "barcodes_counted (BarcodeEl _ _ _ _ _ _ _) = 1"
| "barcodes_counted _ = 0"

lemma element_command_counts:
  "length (filter (prefix ''FO'') (element_commands el)) = 1"
  "length (filter (prefix ''FS'') (element_commands el)) = 1"
  "length (filter (prefix ''B'') (element_commands el)) = barcodes_counted el"
  by (cases el rule: barcodes_counted.cases; simp split: align.splits)+

section \<open>Doubled braces\<close>

lemma find_split_None: "find_split pat s = None \<longleftrightarrow> \<not> sublist pat s"
proof (induction s)
  case Nil
  then show ?case
    by (simp add: find_split.simps [of _ "[]"])
next
  case (Cons c s)
  then show ?case
    by (simp add: find_split.simps [of _ "c # s"] sublist_Cons_right)
qed

lemma contains_sublist: "contains_text s pat \<longleftrightarrow> sublist pat s"
  using find_split_None [of pat s] by (auto simp: contains_text_def)

definition braces :: "string \<Rightarrow> bool" where
  "braces s \<longleftrightarrow> sublist ''{{'' s"

lemma braces_simps [simp]:
  "\<not> braces []" "braces (c # s) \<longleftrightarrow> c = CHR ''{'' \<and> prefix ''{'' s \<or> braces s"
  by (auto simp: braces_def sublist_Cons_right)

lemma no_brace [simp]: "CHR ''{'' \<notin> set s \<Longrightarrow> \<not> braces s"
  by (induction s) auto

lemma braces_append:
  "CHR ''{'' \<notin> set a \<Longrightarrow> braces (a @ b) = braces b"
  "braces (b @ CHR ''^'' # c) \<longleftrightarrow> braces b \<or> braces c"
proof -
  show "CHR ''{'' \<notin> set a \<Longrightarrow> braces (a @ b) = braces b"
    by (induction a) auto
  show "braces (b @ CHR ''^'' # c) \<longleftrightarrow> braces b \<or> braces c"
  proof (induction b)
    case (Cons d b)
    have "prefix ''{'' (b @ CHR ''^'' # c) \<longleftrightarrow> prefix ''{'' b"
      by (cases b) simp_all
    with Cons show ?case
      by simp
  qed simp
qed

lemma braces_program: "braces (program cmds) \<longleftrightarrow> list_ex braces cmds"
proof (induction cmds)
  case (Cons s cmds)
  then show ?case
    using braces_append(2) [of s] by (cases cmds) auto
qed simp

lemma braces_escape: "braces (escape_field v) \<Longrightarrow> braces v"
proof (induction v)
  case (Cons c v)
  have "prefix ''{'' (escape_field v) \<Longrightarrow> prefix ''{'' v"
    by (cases v) (auto simp: escape_field_def escape_char_def split: if_splits)
  with Cons show ?case
    by (auto simp: escape_field_def escape_char_def split: if_splits)
qed (simp add: escape_field_def)

lemma element_commands_braces:
  assumes "\<not> unresolved el"
  shows "\<not> list_ex braces (element_commands el)"
proof (cases el)
  case (BarcodeEl x y code cell height v hr)
  then show ?thesis
    using assms braces_escape [of v] find_split_None [of "''{{''" v]
    by (cases code) (auto simp: unresolved_def braces_def [of v])
next
  case (TextEl x y height width v a)
  then show ?thesis
    using assms braces_escape [of v] find_split_None [of "''{{''" v]
    by (cases a) (auto simp: unresolved_def braces_def [of v])
qed simp

section \<open>What the virtual printer says of a label\<close>

definition label_program :: "(f64 \<Rightarrow> u32 \<Rightarrow> u32) \<Rightarrow> label_template \<Rightarrow> string list" where
  "label_program to_dots t =
     [''XA'' @ [CHR 0x0A], ''PW'' @ show_word (width_dots to_dots t), ''LL'' @ show_word (height_dots to_dots t)]
     @ (case lt_darkness t of None \<Rightarrow> [''LH0,0'' @ [CHR 0x0A]]
        | Some d \<Rightarrow> [''LH0,0'', ''MD'' @ show_word d @ [CHR 0x0A]])
     @ concat (map element_commands (lt_elements t)) @ [''XZ'' @ [CHR 0x0A]]"

lemma render_program:
  assumes "render_zpl to_dots t = Inr zpl"
  shows "zpl = program (label_program to_dots t)" and "\<forall>el \<in> set (lt_elements t). \<not> unresolved el"
proof -
  have "concat (map render_element els) = program (concat (map element_commands els))" for els
    by (induction els) (simp_all add: render_element_commands)
  then show "zpl = program (label_program to_dots t)" "\<forall>el \<in> set (lt_elements t). \<not> unresolved el"
    using assms
    by (auto simp: render_zpl_def outcome zpl_header_def label_program_def find_None_iff
        split: option.splits)
qed

lemma label_program_plain: "list_all plain_command (label_program to_dots t)"
  using element_commands_plain
  by (auto simp: label_program_def plain_command_def list_all_iff split: option.splits)

lemma label_program_counts:
  "length (filter (prefix ''FO'') (label_program to_dots t)) = length (lt_elements t)"
  "length (filter (prefix ''FS'') (label_program to_dots t)) = length (lt_elements t)"
  "length (filter (prefix ''B'') (label_program to_dots t)) = sum_list (map barcodes_counted (lt_elements t))"
proof -
  have "length (filter P (concat (map element_commands els)))
      = sum_list (map (\<lambda>el. length (filter P (element_commands el))) els)" for P els
    by (induction els) simp_all
  then show "length (filter (prefix ''FO'') (label_program to_dots t)) = length (lt_elements t)"
    "length (filter (prefix ''FS'') (label_program to_dots t)) = length (lt_elements t)"
    "length (filter (prefix ''B'') (label_program to_dots t)) = sum_list (map barcodes_counted (lt_elements t))"
    by (simp_all add: label_program_def element_command_counts sum_list_triv split: option.splits)
qed

text \<open>
  C22: A label reported as sent has arrived whole, and it is in order: the virtual printer prints exactly the
  rendered program and then, whatever data the label carries, none of its warnings, and a summary
  that counts every element as a field, every QR and DataMatrix symbol as one barcode and every
  Code 128 symbol as two.
\<close>

theorem sent_label_prints_clean:
  assumes "render_zpl to_dots t = Inr zpl" and "tcp_send sink e zpl [] = (Inr (), got)"
  shows "printer_session peer got =
    [''----- ZPL from '' @ peer @ '' -----'', zpl, ''----- end -----'',
     ''summary: '' @ show_nat (length (lt_elements t)) @ '' fields, ''
       @ show_nat (sum_list (map barcodes_counted (lt_elements t))) @ '' barcodes'']"
proof -
  note prog = render_program [OF assms(1)]
  have count: "count_matches (CHR ''^'' # p) zpl = length (filter (prefix p) (label_program to_dots t))"
    if "CHR ''^'' \<notin> set p" for p
    unfolding prog(1) by (rule count_program [OF that label_program_plain])
  have "contains_text zpl ''^XA''" "contains_text zpl ''^XZ''"
    using count [of "''XA''"] count [of "''XZ''"] by (simp_all add: contains_count label_program_def)
  moreover have "\<not> list_ex braces (label_program to_dots t)"
    using element_commands_braces prog(2)
    by (auto simp: label_program_def list_ex_iff split: option.splits)
  then have "\<not> contains_text zpl ''{{''"
    unfolding contains_sublist braces_def [symmetric] prog(1) braces_program .
  ultimately show ?thesis
    using to_printer.sent [OF assms(2)] count [of "''FO''"] count [of "''FS''"] count [of "''B''"]
    by (simp add: printer_session_def summarise_def label_program_counts)
qed

definition one_barcode :: label_template where
  "one_barcode = (one_field [])\<lparr>lt_elements := [BarcodeEl 12 152 Code128 2 34 ''SN^FS1'' False]\<rparr>"

lemma sent_label_prints_clean_witness:
  "\<exists>zpl. printer_session ''10.0.0.9'' zpl =
    [''----- ZPL from 10.0.0.9 -----'', zpl, ''----- end -----'', ''summary: 1 fields, 2 barcodes'']"
proof -
  let ?sink = "tcp_sink_new ''zebra'' DEFAULT_PORT"
  let ?fine = "\<lparr>ev_open = InTime, ev_write = InTime, ev_flush = None, ev_arrived = 0\<rparr>"
  have "\<exists>zpl. render_zpl (\<lambda>_ _. 400) one_barcode = Inr zpl"
    by (rule exI [of _ "projr (render_zpl (\<lambda>_ _. 400) one_barcode)"]) code_simp
  then obtain zpl where "render_zpl (\<lambda>_ _. 400) one_barcode = Inr zpl" ..
  moreover have "tcp_send ?sink ?fine zpl [] = (Inr (), zpl)"
    by (simp add: tcp_send_def)
  moreover have "show_nat 1 = ''1''" "show_nat 2 = ''2''"
    by code_simp+
  ultimately show ?thesis
    using sent_label_prints_clean [of "\<lambda>_ _. 400" one_barcode zpl ?sink ?fine zpl "''10.0.0.9''"]
    by (auto simp: one_barcode_def)
qed

lemma code128_counts_twice:
  "last (summarise ''^XA^FO1,1^BY2,2.0,34^BCN,34,N,N,N^FDA^FS^XZ'') = ''summary: 1 fields, 2 barcodes''"
  by code_simp

end
