(* ===== verification/StripeApi.thy ===== *)
theory StripeApi
  imports Billing
begin

text \<open>
  The Stripe client of the control plane, \<open>crates/trace-billing/src/client.rs\<close>: the requests it makes, how it
  decodes the answers, and what it reduces a subscription to.  The server behind the HTTP client of the
  \<open>reqwest\<close> package is a function from requests to answers; the parsers of the JSON bodies are the
  \<open>serde_json\<close> package's.
\<close>

section \<open>The client\<close>

record stripe_client =
  secret_key :: string
  api_base :: string

record api_request =
  rq_method :: string
  rq_url :: string
  rq_user :: string
  rq_form :: "(string \<times> string) list"

text \<open>An answer: the status, and the body as text or how reading it failed.\<close>

record api_reply =
  rp_status :: "16 word"
  rp_text :: "string + string"

type_synonym api_server = "api_request \<Rightarrow> string + api_reply"

definition STRIPE_API :: string where
  "STRIPE_API = ''https://api.stripe.com/v1''"

definition client_new :: "string + unit \<Rightarrow> string \<Rightarrow> billing_error + stripe_client" where
  "client_new built key =
     (case built of
        Inl e \<Rightarrow> Inl (Transport e)
      | Inr _ \<Rightarrow> Inr \<lparr>secret_key = key, api_base = STRIPE_API\<rparr>)"

definition with_api_base :: "stripe_client \<Rightarrow> string \<Rightarrow> stripe_client" where
  "with_api_base c base = c\<lparr>api_base := base\<rparr>"

definition client_debug :: "stripe_client \<Rightarrow> string" where
  "client_debug c = ''StripeClient { secret_key: '' @ debug_string ''<redacted>'' @ '', api_base: ''
     @ debug_string (api_base c) @ '' }''"

text \<open>\<open>stripe_message\<close> reads the message out of an error body, if it is one of Stripe's.\<close>

definition decode_reply ::
  "(string \<Rightarrow> string option) \<Rightarrow> (string \<Rightarrow> string + 'a) \<Rightarrow> api_reply \<Rightarrow> billing_error + 'a" where
  "decode_reply stripe_message parse r =
     (case rp_text r of
        Inl e \<Rightarrow> Inl (Transport e)
      | Inr body \<Rightarrow>
          if \<not> (200 \<le> rp_status r \<and> rp_status r < 300)
          then Inl (Api (unat (rp_status r))
            (case stripe_message body of None \<Rightarrow> body | Some m \<Rightarrow> m))
          else (case parse body of Inl e \<Rightarrow> Inl (BillParse e) | Inr a \<Rightarrow> Inr a))"

definition api_post ::
  "(string \<Rightarrow> string option) \<Rightarrow> (string \<Rightarrow> string + 'a) \<Rightarrow> api_server \<Rightarrow> stripe_client \<Rightarrow> string
     \<Rightarrow> (string \<times> string) list \<Rightarrow> billing_error + 'a" where
  "api_post stripe_message parse srv c path form =
     (case srv \<lparr>rq_method = ''POST'', rq_url = api_base c @ path, rq_user = secret_key c, rq_form = form\<rparr> of
        Inl e \<Rightarrow> Inl (Transport e)
      | Inr r \<Rightarrow> decode_reply stripe_message parse r)"

definition api_get ::
  "(string \<Rightarrow> string option) \<Rightarrow> (string \<Rightarrow> string + 'a) \<Rightarrow> api_server \<Rightarrow> stripe_client \<Rightarrow> string
     \<Rightarrow> billing_error + 'a" where
  "api_get stripe_message parse srv c path =
     (case srv \<lparr>rq_method = ''GET'', rq_url = api_base c @ path, rq_user = secret_key c, rq_form = []\<rparr> of
        Inl e \<Rightarrow> Inl (Transport e)
      | Inr r \<Rightarrow> decode_reply stripe_message parse r)"

section \<open>The calls\<close>

record checkout_session =
  cs_id :: string
  cs_url :: "string option"

record portal_session =
  ps_url :: string

definition create_checkout_session ::
  "(string \<Rightarrow> string option) \<Rightarrow> (string \<Rightarrow> string + checkout_session) \<Rightarrow> api_server \<Rightarrow> stripe_client
     \<Rightarrow> string \<Rightarrow> string \<Rightarrow> string \<Rightarrow> string \<Rightarrow> billing_error + checkout_session" where
  "create_checkout_session stripe_message parse srv c price tenant_code success_url cancel_url =
     api_post stripe_message parse srv c ''/checkout/sessions''
       [(''mode'', ''subscription''), (''line_items[0][price]'', price),
        (''line_items[0][quantity]'', ''1''), (''success_url'', success_url), (''cancel_url'', cancel_url),
        (''client_reference_id'', tenant_code), (''metadata[tenant_code]'', tenant_code),
        (''subscription_data[metadata][tenant_code]'', tenant_code)]"

definition create_portal_session ::
  "(string \<Rightarrow> string option) \<Rightarrow> (string \<Rightarrow> string + portal_session) \<Rightarrow> api_server \<Rightarrow> stripe_client
     \<Rightarrow> string \<Rightarrow> string \<Rightarrow> billing_error + portal_session" where
  "create_portal_session stripe_message parse srv c customer return_url =
     api_post stripe_message parse srv c ''/billing_portal/sessions''
       [(''customer'', customer), (''return_url'', return_url)]"

definition fetch_subscription ::
  "(string \<Rightarrow> string option) \<Rightarrow> (string \<Rightarrow> string + raw_subscription) \<Rightarrow> billing_lib \<Rightarrow> utc \<Rightarrow> api_server
     \<Rightarrow> stripe_client \<Rightarrow> string \<Rightarrow> billing_error + subscription_state" where
  "fetch_subscription stripe_message parse B now srv c sub =
     and_then (api_get stripe_message parse srv c (''/subscriptions/'' @ sub))
       (into_state B now)"

section \<open>What comes of a call\<close>

lemma decode_ok:
  "decode_reply stripe_message parse r = Inr a \<longleftrightarrow>
     200 \<le> rp_status r \<and> rp_status r < 300 \<and> (\<exists>body. rp_text r = Inr body \<and> parse body = Inr a)"
  by (auto simp: decode_reply_def split: sum.splits)

text \<open>A key only authenticates: no result and no debug text shows more of it than the answers do.\<close>

lemma results_hide_the_key:
  assumes "\<And>q k. srv (q\<lparr>rq_user := k\<rparr>) = srv q"
  shows "api_post stripe_message parse srv (c\<lparr>secret_key := k\<rparr>) path form = api_post stripe_message parse srv c path form"
    and "api_get stripe_message parse srv (c\<lparr>secret_key := k\<rparr>) path = api_get stripe_message parse srv c path"
    and "client_debug (c\<lparr>secret_key := k\<rparr>) = client_debug c"
proof -
  have same: "srv \<lparr>rq_method = m, rq_url = u, rq_user = k', rq_form = f\<rparr>
      = srv \<lparr>rq_method = m, rq_url = u, rq_user = k, rq_form = f\<rparr>" for m u f k k'
    using assms [where q = "\<lparr>rq_method = m, rq_url = u, rq_user = k, rq_form = f\<rparr>" and k = k'] by simp
  show "api_post stripe_message parse srv (c\<lparr>secret_key := k\<rparr>) path form = api_post stripe_message parse srv c path form"
    by (simp add: api_post_def same [of _ _ "secret_key c" _ k])
  show "api_get stripe_message parse srv (c\<lparr>secret_key := k\<rparr>) path = api_get stripe_message parse srv c path"
    by (simp add: api_get_def same [of _ _ "secret_key c" _ k])
  show "client_debug (c\<lparr>secret_key := k\<rparr>) = client_debug c"
    by (simp add: client_debug_def)
qed

text \<open>
  C16: What a subscription fetched from Stripe is worth: whenever a licence issued for it would run past the
  moment it is issued at, Stripe answered the request for that subscription with a success whose body is a
  subscription with a price and one of the three statuses active, trialing and past due, the licence
  is for that price, and it runs to the end of the period the answer names.
\<close>

theorem fetched_subscription_entitles:
  assumes "fetch_subscription stripe_message parse B t srv c i = Inr sub" and "now < expiry_for sub now"
  shows "\<exists>r body raw. srv \<lparr>rq_method = ''GET'', rq_url = api_base c @ ''/subscriptions/'' @ i,
        rq_user = secret_key c, rq_form = []\<rparr> = Inr r
      \<and> 200 \<le> rp_status r \<and> rp_status r < 300 \<and> rp_text r = Inr body \<and> parse body = Inr raw
      \<and> raw_status raw \<in> {''active'', ''trialing'', ''past_due''} \<and> raw_prices raw \<noteq> []
      \<and> price_id sub = hd (raw_prices raw) \<and> expiry_for sub now = to_utc B t (raw_period_end raw)"
proof -
  obtain raw where got: "api_get stripe_message parse srv c (''/subscriptions/'' @ i) = Inr raw"
    and state: "into_state B t raw = Inr sub"
    using assms(1) by (auto simp: fetch_subscription_def outcome)
  have "raw_prices raw \<noteq> [] \<and> price_id sub = hd (raw_prices raw)
      \<and> raw_status raw \<in> {''active'', ''trialing'', ''past_due''} \<and> expiry_for sub now = to_utc B t (raw_period_end raw)"
    using state assms(2)
    by (auto simp: into_state_def parse_status_def expiry_for_def is_entitled_def min_def
        split: list.splits if_splits)
  with got show ?thesis
    by (auto simp: api_get_def decode_ok split: sum.splits)
qed

definition demo_subscription :: raw_subscription where
  "demo_subscription = \<lparr>raw_id = ''sub_1'', raw_customer = ''cus_1'', raw_status = ''active'',
     raw_period_end = 50, raw_cancel_at_period_end = False, raw_prices = [''price_line'']\<rparr>"

definition demo_stripe :: api_server where
  "demo_stripe q =
     (if rq_url q = ''https://api.stripe.com/v1/subscriptions/sub_1''
      then Inr \<lparr>rp_status = 200, rp_text = Inr ''sub''\<rparr>
      else Inr \<lparr>rp_status = 404, rp_text = Inr ''No such subscription''\<rparr>)"

lemma fetched_subscription_entitles_witness:
  "\<exists>sub. fetch_subscription (\<lambda>_. None) (\<lambda>_. Inr demo_subscription) demo_billing 0 demo_stripe
        \<lparr>secret_key = ''sk'', api_base = STRIPE_API\<rparr> ''sub_1'' = Inr sub
      \<and> price_id sub = ''price_line'' \<and> expiry_for sub 7 = 50 * nanos_per_sec"
proof -
  have "\<exists>sub. fetch_subscription (\<lambda>_. None) (\<lambda>_. Inr demo_subscription) demo_billing 0 demo_stripe
        \<lparr>secret_key = ''sk'', api_base = STRIPE_API\<rparr> ''sub_1'' = Inr sub \<and> 7 < expiry_for sub 7"
    by (simp add: fetch_subscription_def api_get_def demo_stripe_def STRIPE_API_def decode_reply_def
        into_state_def demo_subscription_def expiry_for_def parse_status_def is_entitled_def
        to_utc_def demo_billing_def nanos_per_sec_def)
  then obtain sub where sub: "fetch_subscription (\<lambda>_. None) (\<lambda>_. Inr demo_subscription) demo_billing 0 demo_stripe
        \<lparr>secret_key = ''sk'', api_base = STRIPE_API\<rparr> ''sub_1'' = Inr sub" "7 < expiry_for sub 7"
    by blast
  from fetched_subscription_entitles [OF this] sub(1) show ?thesis
    by (auto simp: demo_subscription_def to_utc_def demo_billing_def)
qed

end
