(* ===== verification/Station.thy ===== *)
theory Station
  imports Spool Clock
begin

text \<open>
  The station agent, \<open>apps/trace-station/src/main.rs\<close>: what one run of the program prints, what it exits
  with and what it leaves on the disk.  Arguments arrive parsed.
\<close>

record station_cli =
  sc_spool :: string
  sc_edge_url :: string
  sc_status :: bool
  sc_enqueue :: "string option"

text \<open>What the surroundings of one run decide: a fresh identity, the clock, the disk.\<close>

record station_run =
  sn_fresh :: string
  sn_now :: utc
  sn_open :: disk_open
  sn_write :: disk_write

record station_result =
  st_lines :: "string list"
  st_error :: "(string \<times> spool_error) option"

definition replay_notice :: "string list" where
  "replay_notice =
     [[], ''Replay against the edge is not implemented in this release.'',
      ''The spool is durable and idempotent, so nothing captured is lost;'',
      ''events accumulate until the replay loop lands.'']"

definition queue_report :: "externals \<Rightarrow> station_cli \<Rightarrow> spool_record list \<Rightarrow> string list" where
  "queue_report x cli queued =
     [''station agent'', ''  spool    '' @ sc_spool cli, ''  edge     '' @ sc_edge_url cli,
      ''  queued   '' @ show_nat (length queued) @ '' event(s)'']
     @ (case queued of [] \<Rightarrow> []
        | oldest # _ \<Rightarrow> [''  oldest   '' @ sr_topic oldest @ '' at '' @ rfc3339 x (sr_recorded_at oldest)])
     @ (if sc_status cli then [] else replay_notice)"

definition station_main ::
  "externals \<Rightarrow> spool_json \<Rightarrow> station_cli \<Rightarrow> station_run \<Rightarrow> spool_disk \<Rightarrow> station_result \<times> spool_disk" where
  "station_main x J cli e d =
     (case sc_enqueue cli of
        Some topic \<Rightarrow>
          (let r = record_new (sn_fresh e) (sn_now e) topic (JObject [(''source'', JString ''cli'')]) in
           case spool_append J (sn_open e) (sn_write e) r d of
             (Inl err, d') \<Rightarrow> (\<lparr>st_lines = [], st_error = Some (''appending to the spool'', err)\<rparr>, d')
           | (Inr _, d') \<Rightarrow>
               (\<lparr>st_lines = [''queued '' @ sr_id r @ '' ('' @ sr_topic r @ '')''], st_error = None\<rparr>, d'))
      | None \<Rightarrow>
          (case spool_load J d of
             Inl err \<Rightarrow> (\<lparr>st_lines = [], st_error = Some (''reading the spool'', err)\<rparr>, d)
           | Inr queued \<Rightarrow> (\<lparr>st_lines = queue_report x cli queued, st_error = None\<rparr>, d)))"

text \<open>
  What a run does to the spool is one of the operations the queue is stated over, or nothing.
\<close>

definition run_op :: "station_cli \<Rightarrow> station_run \<Rightarrow> spool_op list" where
  "run_op cli e =
     (case sc_enqueue cli of None \<Rightarrow> []
      | Some topic \<Rightarrow> [AppendOp (sn_open e) (sn_write e)
          (record_new (sn_fresh e) (sn_now e) topic (JObject [(''source'', JString ''cli'')]))])"

lemma station_main_spool:
  "snd (station_main x J cli e d) = foldl (spool_exec J) d (run_op cli e)"
  by (cases "sc_enqueue cli")
    (auto simp: station_main_def run_op_def Let_def split: sum.splits prod.splits)

definition no_spool :: spool_disk where
  "no_spool = \<lparr>sk_main = None, sk_compacting = None\<rparr>"

text \<open>The disk after a number of runs, one after the other.\<close>

definition runs_of_agent ::
  "externals \<Rightarrow> spool_json \<Rightarrow> (station_cli \<times> station_run) list \<Rightarrow> spool_disk" where
  "runs_of_agent x J runs = foldl (\<lambda>d (cli, e). snd (station_main x J cli e d)) no_spool runs"

lemma runs_of_agent_ops:
  "runs_of_agent x J runs = foldl (spool_exec J) no_spool (concat (map (\<lambda>(cli, e). run_op cli e) runs))"
proof -
  have "foldl (\<lambda>d (cli, e). snd (station_main x J cli e d)) d runs
      = foldl (spool_exec J) d (concat (map (\<lambda>(cli, e). run_op cli e) runs))" for d
    by (induction runs arbitrary: d) (auto simp: station_main_spool)
  then show ?thesis
    by (simp add: runs_of_agent_def)
qed

text \<open>The records that were queued: of the enqueuing runs, those that opened the spool and encoded the record.\<close>

definition captured :: "spool_json \<Rightarrow> (station_cli \<times> station_run) list \<Rightarrow> spool_record list" where
  "captured J runs =
     List.map_filter (\<lambda>(cli, e).
       case sc_enqueue cli of
         None \<Rightarrow> None
       | Some topic \<Rightarrow>
           (let r = record_new (sn_fresh e) (sn_now e) topic (JObject [(''source'', JString ''cli'')])
            in if sn_open e = Opened \<and> is_ok (sj_encode J r) then Some r else None)) runs"

lemma captured_queue:
  "foldl (queue_step J) [] (concat (map (\<lambda>(cli, e). run_op cli e) runs)) = captured J runs"
proof -
  have "foldl (queue_step J) q (concat (map (\<lambda>(cli, e). run_op cli e) runs)) = q @ captured J runs" for q
  proof (induction runs arbitrary: q)
    case (Cons r runs)
    then show ?case
      by (cases r; cases "sc_enqueue (fst r)")
        (simp_all add: captured_def run_op_def map_filter_simps Let_def)
  qed (simp add: captured_def map_filter_simps)
  then show ?thesis
    by simp
qed

text \<open>
  C34: What the station agent reports is what it captured: after any number of runs, none of them cut off
  inside its write, a status run succeeds, leaves the disk alone and counts exactly the events that were
  queued, naming the oldest.
\<close>

theorem status_reports_captured:
  assumes "spool_json_laws J" and "\<forall>(c, e) \<in> set runs. list_all whole (run_op c e)"
    and "sc_enqueue cli = None"
  shows "station_main x J cli e (runs_of_agent x J runs)
    = (\<lparr>st_lines = queue_report x cli (captured J runs), st_error = None\<rparr>, runs_of_agent x J runs)"
proof -
  have "list_all whole (concat (map (\<lambda>(c, e). run_op c e) runs))"
    using assms(2) by (induction runs) auto
  then have "spool_load J (runs_of_agent x J runs) = Inr (captured J runs)"
    unfolding runs_of_agent_ops captured_queue [symmetric] no_spool_def
    by (rule load_stores [OF assms(1) stores_run [OF assms(1)]])
  then show ?thesis
    by (simp add: station_main_def assms(3))
qed

section \<open>One event on an empty disk\<close>

definition demo_run :: station_run where
  "demo_run = \<lparr>sn_fresh = ''1'', sn_now = 0, sn_open = Opened, sn_write = Durable\<rparr>"

definition demo_cli :: "string option \<Rightarrow> station_cli" where
  "demo_cli topic = \<lparr>sc_spool = ''spool.jsonl'', sc_edge_url = ''http://edge'', sc_status = True, sc_enqueue = topic\<rparr>"

definition demo_event :: spool_record where
  "demo_event = record_new ''1'' 0 ''unit.born'' (JObject [(''source'', JString ''cli'')])"

definition one_event_json :: spool_json where
  "one_event_json = \<lparr>sj_encode = (\<lambda>r. if r = demo_event then Inr ''{a}'' else Inl ''no text''),
     sj_decode = (\<lambda>s. if s = ''{a}'' then Inr demo_event else Inl ''EOF'')\<rparr>"

lemma one_event_laws: "spool_json_laws one_event_json"
  unfolding spool_json_laws_def
  using demo_text(1) by (auto simp: one_event_json_def is_ok_def numeral_2_eq_2 numeral_3_eq_3 less_Suc_eq
      split: if_splits)

lemma status_reports_captured_witness:
  "st_lines (fst (station_main demo_externals one_event_json (demo_cli None) demo_run
      (runs_of_agent demo_externals one_event_json [(demo_cli (Some ''unit.born''), demo_run), (demo_cli None, demo_run)])))
    = [''station agent'', ''  spool    spool.jsonl'', ''  edge     http://edge'', ''  queued   1 event(s)'',
       ''  oldest   unit.born at '' @ rfc3339 demo_externals 0]"
proof -
  have "captured one_event_json [(demo_cli (Some ''unit.born''), demo_run), (demo_cli None, demo_run)] = [demo_event]"
    by (simp add: captured_def map_filter_simps demo_cli_def demo_run_def demo_event_def one_event_json_def is_ok_def Let_def)
  moreover have "show_nat 1 = ''1''"
    by code_simp
  ultimately show ?thesis
    using status_reports_captured [OF one_event_laws, of "[(demo_cli (Some ''unit.born''), demo_run), (demo_cli None, demo_run)]"
        "demo_cli None" demo_externals demo_run]
    by (simp add: run_op_def demo_cli_def demo_run_def queue_report_def demo_event_def record_new_def)
qed

end
