(* ===== verification/Service.thy ===== *)
theory Service
  imports Edge
begin

text \<open>
  The edge program, \<open>main\<close> of \<open>apps/trace-edge/src/main.rs\<close>: the steps of a start in their order, and
  serving requests one after the other.  Connecting, migrating and binding are what the surroundings answer;
  the order in which concurrent requests reach the database is the order of the list.
\<close>

section \<open>Starting\<close>

datatype start_failure =
    LoadingConfig string
  | ConnectingDatabase string
  | ApplyingMigrations string
  | LicensePanic
  | Binding string string

record boot =
  bt_env :: environment
  bt_parse_addr :: "string \<Rightarrow> string + string"
  bt_int_error :: "string \<Rightarrow> string"
  bt_connect :: "string \<Rightarrow> string option"
  bt_migrate :: "string option"
  bt_read :: "string \<Rightarrow> string option"
  bt_now :: utc
  bt_bind :: "string \<Rightarrow> string option"

definition edge_start ::
  "sign_lib \<Rightarrow> (string \<Rightarrow> string + envelope) \<Rightarrow> (string \<Rightarrow> string + entitlement) \<Rightarrow> calendar
     \<Rightarrow> boot \<Rightarrow> start_failure + app_state" where
  "edge_start L read_envelope from_slice cal b =
     (case config_from_env (bt_env b) (bt_parse_addr b) (bt_int_error b) of
        Inl e \<Rightarrow> Inl (LoadingConfig e)
      | Inr config \<Rightarrow>
          (case bt_connect b (cfg_database_url config) of
             Some e \<Rightarrow> Inl (ConnectingDatabase e)
           | None \<Rightarrow>
               (case bt_migrate b of
                  Some e \<Rightarrow> Inl (ApplyingMigrations e)
                | None \<Rightarrow>
                    (case load_license L read_envelope from_slice cal (bt_env b) (bt_read b) (bt_now b) config of
                       None \<Rightarrow> Inl LicensePanic
                     | Some status \<Rightarrow>
                         (case bt_bind b (cfg_bind_addr config) of
                            Some e \<Rightarrow> Inl (Binding (cfg_bind_addr config) e)
                          | None \<Rightarrow> Inr (app_state_new config status))))))"

section \<open>Serving\<close>

fun serve ::
  "packages \<Rightarrow> app_state \<Rightarrow> (occasion \<times> request) list \<Rightarrow> plant_db \<Rightarrow> (api_error + reply) list \<times> plant_db" where
  "serve pk st [] db = ([], db)"
| "serve pk st ((oc, r) # jobs) db =
     (let (a, db1) = handle pk oc st r db; (rest, db2) = serve pk st jobs db1 in (a # rest, db2))"

text \<open>What a line asks of the box while it produces.\<close>

fun production :: "request \<Rightarrow> bool" where
  "production (GetTrace _) = True"
| "production (PostUnit _) = True"
| "production (GetUnit _) = True"
| "production (GetRecall _) = True"
| "production (PostWebhook _ _) = True"
| "production _ = False"

lemma handle_production:
  "production r \<Longrightarrow> handle pk oc (st\<lparr>as_license := l, as_poisoned := p\<rparr>) r db = handle pk oc st r db"
  by (cases r) (simp_all add: trace_page_def birth_unit_def get_unit_def recall_by_lot_def
      stripe_webhook_def Let_def cong: option.case_cong)

lemma serve_production:
  assumes "as_config st = as_config st'"
  shows "list_all (\<lambda>(oc, r). production r) jobs \<Longrightarrow> serve pk st jobs db = serve pk st' jobs db"
proof (induction jobs arbitrary: db)
  case (Cons j jobs)
  have "handle pk (fst j) st (snd j) db = handle pk (fst j) st' (snd j) db"
    using handle_production [where r = "snd j" and st = st' and l = "as_license st" and p = "as_poisoned st"]
      Cons.prems assms
    by (cases st; cases st') (auto simp: case_prod_unfold)
  with Cons show ?case
    by (cases j) simp
qed simp

text \<open>
  C7: No licence stops a line: take one box with whatever its licence file and machine identity read as and
  whatever its clock says, and the same box with none of these.  Both fail to start for the same
  reason, unless reading the licence panics, and once started both answer any sequence of births,
  trace pages, histories, recalls and webhooks alike and leave the same database.
\<close>

theorem no_licence_stops_a_line:
  assumes "list_all (\<lambda>(oc, r). production r) jobs"
  shows "case (edge_start L read_envelope from_slice cal b,
        edge_start L read_envelope from_slice cal (b\<lparr>bt_read := \<lambda>_. None, bt_now := t\<rparr>)) of
      (Inr st, Inr bare) \<Rightarrow> serve pk st jobs db = serve pk bare jobs db
    | (Inl e, Inl e') \<Rightarrow> e = e' \<or> e = LicensePanic
    | (Inl e, Inr _) \<Rightarrow> e = LicensePanic
    | (Inr _, Inl _) \<Rightarrow> False"
proof -
  have bare: "load_license L read_envelope from_slice cal env (\<lambda>_. None) t config = Some unlicensed" for env config
    by (simp add: load_license_def split: option.split)
  have "serve pk (app_state_new config l) jobs db = serve pk (app_state_new config unlicensed) jobs db" for config l
    by (rule serve_production) (simp_all add: assms app_state_new_def)
  then show ?thesis
    by (simp add: edge_start_def bare split: sum.split option.split)
qed

definition demo_boot :: boot where
  "demo_boot = \<lparr>bt_env = [''TRACE_DATABASE_URL'' \<mapsto> ''postgres'', ''TRACE_LICENSE_PUBKEY_HEX'' \<mapsto> ''6b''],
     bt_parse_addr = Inr, bt_int_error = (\<lambda>s. s), bt_connect = (\<lambda>_. None), bt_migrate = None,
     bt_read = (\<lambda>_. Some ''{}''), bt_now = 0, bt_bind = (\<lambda>_. None)\<rparr>"

lemma no_licence_stops_a_line_witness:
  "\<exists>st bare. edge_start demo_lib (\<lambda>_. Inl ''EOF'') (\<lambda>_. Inl ''EOF'') demo_calendar demo_boot = Inr st
    \<and> cfg_license_pubkey_hex (as_config st) = Some ''6b''
    \<and> serve demo_packages st [(demo_occasion, PostUnit demo_birth)] demo_plant
      = serve demo_packages bare [(demo_occasion, PostUnit demo_birth)] demo_plant"
proof -
  have "\<exists>st. edge_start demo_lib (\<lambda>_. Inl ''EOF'') (\<lambda>_. Inl ''EOF'') demo_calendar demo_boot = Inr st
      \<and> cfg_license_pubkey_hex (as_config st) = Some ''6b''"
    "\<exists>st. edge_start demo_lib (\<lambda>_. Inl ''EOF'') (\<lambda>_. Inl ''EOF'') demo_calendar
        (demo_boot\<lparr>bt_read := \<lambda>_. None, bt_now := 5\<rparr>) = Inr st"
    by (simp_all add: edge_start_def demo_boot_def config_from_env_def env_or_def parse_env_def non_empty_def
        load_license_def app_state_new_def trim_def is_space_def)
  then show ?thesis
    using no_licence_stops_a_line [where jobs = "[(demo_occasion, PostUnit demo_birth)]" and L = demo_lib
        and read_envelope = "\<lambda>_. Inl ''EOF''" and from_slice = "\<lambda>_. Inl ''EOF''" and cal = demo_calendar
        and b = demo_boot and t = 5 and pk = demo_packages and db = demo_plant]
    by auto
qed

end
