(* ===== verification/Instrument.thy ===== *)
theory Instrument
  imports Drivers Label
begin

text \<open>
  The virtual instrument, \<open>tools/device-sim/src/main.rs\<close>: the readings it makes up, the lines it sends, and
  what the TCP driver of the program makes of them.  Arithmetic on doubles is exact arithmetic rounded by
  \<open>nearest\<close>, the parameter with which the driver reads numbers; \<open>cents\<close>, the rounding to two places when a
  double is printed, is a parameter as well.
\<close>

section \<open>Doubles\<close>

definition f64_round :: "(bool \<Rightarrow> rat \<Rightarrow> f64) \<Rightarrow> rat \<Rightarrow> f64" where
  "f64_round nearest q = nearest (q < 0) \<bar>q\<bar>"

definition f64_negative :: "f64 \<Rightarrow> bool" where
  "f64_negative a \<longleftrightarrow> (case a of F_NegInf \<Rightarrow> True | F_NegZero \<Rightarrow> True | F_Fin q \<Rightarrow> q < 0 | _ \<Rightarrow> False)"

definition f64_infinite :: "f64 \<Rightarrow> bool" where
  "f64_infinite a \<longleftrightarrow> a = F_PosInf \<or> a = F_NegInf"

definition f64_add :: "(bool \<Rightarrow> rat \<Rightarrow> f64) \<Rightarrow> f64 \<Rightarrow> f64 \<Rightarrow> f64" where
  "f64_add nearest a b =
     (if is_nan a \<or> is_nan b then F_NaN
      else if f64_infinite a then (if f64_infinite b \<and> a \<noteq> b then F_NaN else a)
      else if f64_infinite b then b
      else if a = F_NegZero \<and> b = F_NegZero then F_NegZero
      else f64_round nearest (f64_val a + f64_val b))"

definition f64_mul :: "(bool \<Rightarrow> rat \<Rightarrow> f64) \<Rightarrow> f64 \<Rightarrow> f64 \<Rightarrow> f64" where
  "f64_mul nearest a b =
     (let neg = (f64_negative a \<noteq> f64_negative b) in
      if is_nan a \<or> is_nan b then F_NaN
      else if f64_infinite a \<or> f64_infinite b
      then (if \<not> f64_infinite a \<and> f64_val a = 0 \<or> \<not> f64_infinite b \<and> f64_val b = 0 then F_NaN
            else if neg then F_NegInf else F_PosInf)
      else if f64_val a * f64_val b = 0 then (if neg then F_NegZero else F_Fin 0)
      else f64_round nearest (f64_val a * f64_val b))"

section \<open>The instrument\<close>

record instrument =
  in_nominal :: f64
  in_tolerance :: f64
  in_bad_every :: u64
  in_format :: string

text \<open>The phase is a multiple of a quarter between -1 and 1: a double, computed without rounding.\<close>

definition reading_phase :: "u64 \<Rightarrow> rat" where
  "reading_phase n = of_nat (unat (n mod 8)) / 4 - 1"

definition reading_for :: "(bool \<Rightarrow> rat \<Rightarrow> f64) \<Rightarrow> u64 \<Rightarrow> f64 \<Rightarrow> f64 \<Rightarrow> f64" where
  "reading_for nearest n nominal tolerance =
     f64_add nearest nominal (f64_mul nearest (F_Fin (reading_phase n)) tolerance)"

text \<open>A double with two places: the sign, also of a negative number that rounds to zero.\<close>

definition two_places :: "(rat \<Rightarrow> nat) \<Rightarrow> f64 \<Rightarrow> string" where
  "two_places cents a =
     (case a of
        F_NaN \<Rightarrow> ''NaN''
      | F_PosInf \<Rightarrow> ''inf''
      | F_NegInf \<Rightarrow> ''-inf''
      | _ \<Rightarrow>
          (let n = cents \<bar>f64_val a\<bar> in
           (if f64_negative a then ''-'' else []) @ show_nat (n div 100) @ ''.''
             @ show_nat (n mod 100 div 10) @ show_nat (n mod 10)))"

definition format_reading :: "(rat \<Rightarrow> nat) \<Rightarrow> string \<Rightarrow> f64 \<Rightarrow> string" where
  "format_reading cents template v =
     replace_all ''{v}'' (two_places cents v) template @ [CHR 0x0D, CHR 0x0A]"

text \<open>\<open>is_multiple_of\<close>: of zero only zero is one.\<close>

definition is_multiple_of :: "u64 \<Rightarrow> u64 \<Rightarrow> bool" where
  "is_multiple_of n k \<longleftrightarrow> (if k = 0 then n = 0 else n mod k = 0)"

text \<open>The value emitted under the number \<open>n\<close>.\<close>

definition emitted :: "(bool \<Rightarrow> rat \<Rightarrow> f64) \<Rightarrow> instrument \<Rightarrow> u64 \<Rightarrow> f64" where
  "emitted nearest i n =
     (if in_bad_every i > 0 \<and> is_multiple_of n (in_bad_every i)
      then f64_add nearest (in_nominal i) (f64_mul nearest (in_tolerance i) (F_Fin 20))
      else reading_for nearest n (in_nominal i) (in_tolerance i))"

text \<open>
  The sessions of all connections: a connection is sent a line when it opens and one for every line it
  sends itself, and for each it draws the next number of the counter they share, which wraps.  The
  connections come in the order in which they draw; what is sent to each is listed in that order.
\<close>

fun instrument_sessions ::
  "(bool \<Rightarrow> rat \<Rightarrow> f64) \<Rightarrow> (rat \<Rightarrow> nat) \<Rightarrow> instrument \<Rightarrow> 'c list \<Rightarrow> u64 \<Rightarrow> ('c \<times> string) list" where
  "instrument_sessions nearest cents i [] counter = []"
| "instrument_sessions nearest cents i (c # cs) counter =
     (let n = counter + 1 in
      (c, format_reading cents (in_format i) (emitted nearest i n))
        # instrument_sessions nearest cents i cs n)"

lemma session_lines:
  "k < length cs \<Longrightarrow> instrument_sessions nearest cents i cs counter ! k
    = (cs ! k, format_reading cents (in_format i) (emitted nearest i (counter + of_nat (k + 1))))"
proof (induction cs arbitrary: counter k)
  case (Cons c cs)
  then show ?case
    by (cases k) (simp_all add: Let_def ac_simps)
qed simp

section \<open>What the driver reads\<close>

lemma dropWhile_stop: "t \<noteq> [] \<Longrightarrow> \<not> P (hd t) \<Longrightarrow> dropWhile P (s @ t) = dropWhile P s @ t"
  by (induction s) (cases t, simp_all)+

lemma trim_around:
  assumes "tok \<noteq> []" and "\<not> is_space (hd tok)" and "\<not> is_space (last tok)"
  shows "trim (pre @ tok @ post) = dropWhile is_space pre @ tok @ rev (dropWhile is_space (rev post))"
proof -
  have "dropWhile is_space (pre @ tok @ post) = dropWhile is_space pre @ tok @ post"
    using dropWhile_stop [of "tok @ post" is_space pre] assms(1,2) by simp
  moreover have "dropWhile is_space (rev post @ rev tok @ u) = dropWhile is_space (rev post) @ rev tok @ u" for u
    using dropWhile_stop [of "rev tok @ u" is_space "rev post"] assms(1,3) by (simp add: hd_rev)
  ultimately show ?thesis
    by (simp add: trim_def)
qed

text \<open>A number with two places is one token of the line protocol, and reads as its hundredths.\<close>

lemma dec_digit: "n < 10 \<Longrightarrow> show_nat n = [digit_char n]"
  by (subst show_nat.simps) simp

definition places_text :: "nat \<Rightarrow> string" where
  "places_text n = show_nat (n div 100) @ ''.'' @ show_nat (n mod 100 div 10) @ show_nat (n mod 10)"

lemma places_text_digits:
  "filter is_digit_char (places_text n)
     = show_nat (n div 100) @ [digit_char (n mod 100 div 10), digit_char (n mod 10)]"
  "places_text n = show_nat (n div 100) @ CHR ''.'' # [digit_char (n mod 100 div 10), digit_char (n mod 10)]"
proof -
  have all: "filter is_digit_char (show_nat m) = show_nat m" for m
    by (rule filter_True) (auto dest: show_nat_digits)
  have dot: "\<not> is_digit_char CHR ''.''"
    by code_simp
  show "places_text n = show_nat (n div 100) @ CHR ''.'' # [digit_char (n mod 100 div 10), digit_char (n mod 10)]"
    by (simp add: places_text_def dec_digit)
  then show "filter is_digit_char (places_text n)
     = show_nat (n div 100) @ [digit_char (n mod 100 div 10), digit_char (n mod 10)]"
    by (simp add: all dot)
qed

lemma places_text_read: "read_nat (filter is_digit_char (places_text n)) = n"
proof -
  have "read_nat (show_nat (n div 100) @ [digit_char (n mod 100 div 10), digit_char (n mod 10)])
      = 10 * (10 * (n div 100) + n mod 100 div 10) + n mod 10"
    using read_nat_snoc [of "show_nat (n div 100) @ [digit_char (n mod 100 div 10)]" "digit_char (n mod 10)"]
      read_nat_snoc [of "show_nat (n div 100)" "digit_char (n mod 100 div 10)"]
    by (simp add: digit_val_def)
  also have "\<dots> = n"
  proof -
    have "10 * (n mod 100 div 10) + n mod 10 = n mod 100"
      using mult_div_mod_eq [of 10 "n mod 100"] mod_mod_cancel [of 10 100 n] by simp
    moreover have "10 * (10 * x + y) + z = 100 * x + (10 * y + z)" for x y z :: nat
      by simp
    ultimately show ?thesis
      using mult_div_mod_eq [of 100 n] by (simp only:)
  qed
  finally show ?thesis
    by (simp add: places_text_digits(1))
qed

lemma places_text_value: "decimal_magnitude (places_text n) = of_nat n / 100"
proof -
  let ?tail = "CHR ''.'' # [digit_char (n mod 100 div 10), digit_char (n mod 10)] @ ''.''"
  have "\<forall>c \<in> set (show_nat m). c \<noteq> CHR ''.''" for m
    using show_nat_digits [of "CHR ''.''" m] by (auto simp: is_digit_char_def)
  then have "dropWhile (\<lambda>c. c \<noteq> CHR ''.'') (show_nat m) = []" for m
    by (simp add: dropWhile_eq_Nil_conv)
  then have "dropWhile (\<lambda>c. c \<noteq> CHR ''.'') (show_nat m @ ?tail) = ?tail" for m
    using dropWhile_stop [of ?tail "\<lambda>c. c \<noteq> CHR ''.''" "show_nat m"] by simp
  then have "dropWhile (\<lambda>c. c \<noteq> CHR ''.'') (places_text n @ ''.'') = ?tail"
    by (simp add: places_text_digits(2))
  moreover have "\<not> is_digit_char CHR ''.''"
    by code_simp
  ultimately show ?thesis
    by (simp add: decimal_magnitude_def Let_def places_text_read)
qed

lemma places_text_token:
  "decimal_token (places_text n)" "decimal_token (CHR ''-'' # places_text n)" "hd (places_text n) \<noteq> CHR ''-''"
proof -
  have head: "is_digit_char (hd (places_text n))"
    using show_nat_digits [OF hd_in_set, of "n div 100"] by (simp add: places_text_digits(2))
  have "list_all (\<lambda>c. is_digit_char c \<or> c = CHR ''.'') (show_nat m)" "list_ex is_digit_char (show_nat m)" for m
    using show_nat_digits [OF hd_in_set, of m] hd_in_set [OF show_nat_nonempty, of m]
    by (auto simp: list_all_iff list_ex_iff dest: show_nat_digits)
  moreover have "filter (\<lambda>c. c = CHR ''.'') (show_nat m) = []" for m
    using show_nat_digits [of "CHR ''.''" m] by (auto simp: filter_empty_conv is_digit_char_def)
  moreover have digit: "digit_char d \<noteq> CHR ''.''" if "d < 10" for d
  proof
    assume "digit_char d = CHR ''.''"
    with of_char_digit_char [OF that] have "(of_char CHR ''.'' :: nat) = 48 + d"
      by simp
    then show False
      by simp
  qed
  ultimately have body: "list_all (\<lambda>c. is_digit_char c \<or> c = CHR ''.'') (places_text n)"
      "length (filter (\<lambda>c. c = CHR ''.'') (places_text n)) \<le> 1" "list_ex is_digit_char (places_text n)"
    by (simp_all add: places_text_digits(2))
  show "hd (places_text n) \<noteq> CHR ''-''"
    using head by (auto simp: is_digit_char_def)
  moreover have "hd (places_text n) \<noteq> CHR ''+''"
    using head by (auto simp: is_digit_char_def)
  ultimately show "decimal_token (places_text n)" "decimal_token (CHR ''-'' # places_text n)"
    using body by (simp_all add: decimal_token_def Let_def)
qed

lemma replace_skip: "CHR ''{'' \<notin> set s \<Longrightarrow> replace_all ''{v}'' r (s @ t) = s @ replace_all ''{v}'' r t"
  by (induction s) auto

lemma replace_hole:
  assumes "CHR ''{'' \<notin> set pre" and "CHR ''{'' \<notin> set post"
  shows "replace_all ''{v}'' r (pre @ ''{v}'' @ post) = pre @ r @ post"
  using replace_skip [OF assms(1)] replace_skip [OF assms(2), of r "[]"] by simp

lemma trimmed_end: "rev (dropWhile P (rev s)) = [] \<or> hd (rev (dropWhile P (rev s))) = hd s"
proof -
  have "prefix (rev (dropWhile P (rev s))) s"
    using suffix_dropWhile [of P "rev s"] by (simp add: suffix_to_prefix)
  then obtain zs where "s = rev (dropWhile P (rev s)) @ zs"
    by (auto simp: prefix_def)
  then show ?thesis
    by (metis hd_append2)
qed

definition finite_value :: "f64 \<Rightarrow> bool" where
  "finite_value v \<longleftrightarrow> v = F_NegZero \<or> (\<exists>q. v = F_Fin q)"

lemma parse_emitted:
  assumes "\<forall>c \<in> set pre. \<not> numeral_char c \<and> \<not> sign_char c" and "CHR ''{'' \<notin> set (pre @ post)"
    and "post = [] \<or> \<not> numeral_char (hd post)" and "finite_value v"
  shows "parse_line nearest (trim (format_reading cents (pre @ ''{v}'' @ post) v))
    = Some (nearest (f64_negative v) (of_nat (cents \<bar>f64_val v\<bar>) / 100))"
proof -
  let ?n = "cents \<bar>f64_val v\<bar>" and ?tail = "post @ [CHR 0x0D, CHR 0x0A]"
  define tok where "tok = (if f64_negative v then ''-'' else []) @ places_text ?n"
  have line: "format_reading cents (pre @ ''{v}'' @ post) v = pre @ tok @ ?tail"
    using assms(2,4) replace_hole [of pre post]
    by (auto simp: format_reading_def tok_def two_places_def finite_value_def places_text_def Let_def)
  have digit: "is_digit_char c \<Longrightarrow> \<not> is_space c" for c
    by (auto simp: is_digit_char_def is_space_def)
  have "is_digit_char (hd (places_text ?n))" "is_digit_char (last (places_text ?n))" "places_text ?n \<noteq> []"
    using show_nat_digits [OF hd_in_set, of "?n div 100"] by (simp_all add: places_text_digits(2))
  then have tok: "tok \<noteq> []" "\<not> is_space (hd tok)" "\<not> is_space (last tok)"
    using digit by (auto simp: tok_def is_space_def)
  let ?rest = "rev (dropWhile is_space (rev ?tail))"
  have trimmed: "trim (pre @ tok @ ?tail) = dropWhile is_space pre @ tok @ ?rest"
    by (rule trim_around [OF tok])
  have "\<forall>c \<in> set (dropWhile is_space pre). \<not> numeral_char c \<and> \<not> sign_char c"
    using assms(1) set_dropWhileD by fastforce
  moreover have "?rest = [] \<or> \<not> numeral_char (hd ?rest)"
    using trimmed_end [of is_space ?tail] assms(3)
    by (cases post) (auto simp: numeral_char_def is_digit_char_def)
  moreover have "decimal_token tok" "(hd tok = CHR ''-'') = f64_negative v"
      "decimal_magnitude tok = of_nat ?n / 100"
    using places_text_token [of ?n] places_text_value [of ?n]
    by (auto simp: tok_def decimal_magnitude_def Let_def is_digit_char_def hd_append)
  ultimately have "parse_line nearest (dropWhile is_space pre @ tok @ ?rest)
      = Some (nearest (f64_negative v) (of_nat ?n / 100))"
    using parse_line_first_number [of "dropWhile is_space pre" tok ?rest nearest] by (simp only:)
  then show ?thesis
    unfolding line trimmed .
qed

text \<open>
  C21: The program reads what its virtual instrument shows: however many connections share the instrument
  and in whatever order they ask, the driver reads the line of the \<open>k\<close>-th reading as the value emitted under
  the \<open>k\<close>-th number of the counter, rounded to the two places of the line, its sign kept, whatever text
  without digits, points, signs and braces stands before the number, and whatever text stands after it
  that does not continue it.
\<close>

theorem driver_reads_the_instrument:
  assumes "in_format i = pre @ ''{v}'' @ post"
    and "\<forall>c \<in> set pre. \<not> numeral_char c \<and> \<not> sign_char c" and "CHR ''{'' \<notin> set (pre @ post)"
    and "post = [] \<or> \<not> numeral_char (hd post)"
    and "k < length cs" and "v = emitted nearest i (counter + of_nat (k + 1))" and "finite_value v"
    and "instrument_sessions nearest cents i cs counter ! k = (c, line)"
    and "td_stream d" and "Option.bind (td_poll d) (sur_send e) = None" and "sur_line e = LineRead line"
  shows "c = cs ! k \<and> fst (tcp_read nearest e p d) = Inr \<lparr>rs_point = p,
      rs_value = V_Numeric (nearest (f64_negative v) (of_nat (cents \<bar>f64_val v\<bar>) / 100)),
      rs_raw = line, rs_recorded_at = sur_now e\<rparr>"
proof -
  have line: "c = cs ! k" "line = format_reading cents (pre @ ''{v}'' @ post) v"
    using assms(8) by (simp_all add: assms(1,6) session_lines [OF assms(5)])
  then have "line \<noteq> []"
    by (simp add: format_reading_def)
  moreover have "parse_line nearest (trim line) = Some (nearest (f64_negative v) (of_nat (cents \<bar>f64_val v\<bar>) / 100))"
    unfolding line(2) by (rule parse_emitted [OF assms(2,3,4,7)])
  ultimately show ?thesis
    using assms(9-11) line(1) by (simp add: tcp_read_def tcp_exchange_def)
qed

text \<open>Every reading is a bad one: twenty tolerances off.\<close>

definition demo_instrument :: instrument where
  "demo_instrument = \<lparr>in_nominal = F_Fin 12, in_tolerance = F_Fin (3 / 10), in_bad_every = 1,
     in_format = ''T: {v} NM''\<rparr>"

definition demo_cents :: "rat \<Rightarrow> nat" where
  "demo_cents q = nat \<lfloor>100 * q + 1 / 2\<rfloor>"

lemma demo_emitted: "emitted demo_nearest demo_instrument n = F_Fin 18"
  by (simp add: emitted_def demo_instrument_def is_multiple_of_def f64_mul_def f64_add_def f64_round_def
      f64_negative_def f64_infinite_def is_nan_def demo_nearest_def Let_def)

lemma driver_reads_the_instrument_witness:
  "\<exists>line. instrument_sessions demo_nearest demo_cents demo_instrument [0 :: nat, 1, 0] 7 ! 2 = (0, line)
    \<and> fst (tcp_read demo_nearest \<lparr>sur_now = 5, sur_entered = [], sur_dial = \<lambda>_. Dialled, sur_send = \<lambda>_. None,
        sur_line = LineRead line\<rparr> (PointRef ''torque'') ((tcp_new ''TRQ'')\<lparr>td_stream := True\<rparr>))
      = Inr \<lparr>rs_point = PointRef ''torque'', rs_value = V_Numeric (F_Fin 18), rs_raw = line, rs_recorded_at = 5\<rparr>"
proof -
  obtain c line where line: "instrument_sessions demo_nearest demo_cents demo_instrument [0 :: nat, 1, 0] 7 ! 2 = (c, line)"
    by fastforce
  let ?e = "\<lparr>sur_now = 5, sur_entered = [], sur_dial = \<lambda>_. Dialled, sur_send = \<lambda>_. None, sur_line = LineRead line\<rparr>"
  have "in_format demo_instrument = ''T: '' @ ''{v}'' @ '' NM''"
    "\<forall>c \<in> set ''T: ''. \<not> numeral_char c \<and> \<not> sign_char c" "CHR ''{'' \<notin> set (''T: '' @ '' NM'')"
    "'' NM'' = [] \<or> \<not> numeral_char (hd '' NM'')"
    by (simp_all add: demo_instrument_def) code_simp+
  moreover have "finite_value (F_Fin 18)"
    by (simp add: finite_value_def)
  moreover have "demo_cents 18 = 1800"
    using floor_unique [of 1800 "3601 / 2 :: rat"] by (simp add: demo_cents_def)
  ultimately show ?thesis
    using driver_reads_the_instrument [of demo_instrument "''T: ''" "'' NM''" 2 "[0 :: nat, 1, 0]" "F_Fin 18" demo_nearest 7
        demo_cents c line "(tcp_new ''TRQ'')\<lparr>td_stream := True\<rparr>" ?e "PointRef ''torque''"] line
    by (simp add: demo_emitted tcp_new_def f64_negative_def demo_nearest_def)
qed

end
