(* ===== verification/ConformCore.thy ===== *)
theory ConformCore
  imports RouteSim HashChain JobCard
begin

text \<open>
  The domain model against the program's own unit tests: the \<open>tests\<close> modules of
  \<open>clock.rs\<close>, \<open>config.rs\<close>, \<open>dcp.rs\<close>, \<open>hash.rs\<close>, \<open>id.rs\<close>, \<open>jobcard.rs\<close>, \<open>route.rs\<close> and
  \<open>unit.rs\<close> of \<open>crates/trace-core/src/\<close>.  Each test is a definition with the test's name, and the lemma that
  the model passes it.  What a test draws at random (a fresh identifier) is an argument, and the model passes for
  every value of it; what it asks of a library is a hypothesis that the library does as it documents.
\<close>

text \<open>\<open>unwrap_err\<close> of a validation, displayed; an accepted route displays nothing.\<close>

definition rejection :: "(core_error + unit) option \<Rightarrow> string" where
  "rejection r = (case r of Some (Inl e) \<Rightarrow> core_error_display e | _ \<Rightarrow> [])"

section \<open>Identifiers\<close>

definition newtypes_do_not_interchange :: "externals \<Rightarrow> unit_uid \<Rightarrow> bool" where
  "newtypes_do_not_interchange x u \<longleftrightarrow> newtype_parse UnitUid x (unit_uid_display x u) = Inr u"

definition public_ids_are_26_char_crockford :: "externals \<Rightarrow> public_id \<Rightarrow> bool" where
  "public_ids_are_26_char_crockford x i \<longleftrightarrow>
     (let s = public_id_display x i in length s = 26 \<and> public_id_parse x s = Inr i)"

definition codes_normalise_and_validate :: bool where
  "codes_normalise_and_validate \<longleftrightarrow>
     map_sum id as_str (code_new ''  line-a '') = Inr ''LINE-A''
     \<and> \<not> is_ok (code_new '''') \<and> \<not> is_ok (code_new (replicate 65 CHR ''x''))"

lemma id_tests:
  "ulid_text_parses x \<Longrightarrow> newtypes_do_not_interchange x u"
  "ulid_text_parses x \<Longrightarrow> \<forall>w. length (ulid_text x w) = 26 \<Longrightarrow> public_ids_are_26_char_crockford x i"
  "codes_normalise_and_validate"
proof -
  show "ulid_text_parses x \<Longrightarrow> newtypes_do_not_interchange x u"
    by (cases u) (simp add: newtypes_do_not_interchange_def newtype_parse_def public_id_round_trip del: public_id_parse.simps)
  show "ulid_text_parses x \<Longrightarrow> \<forall>w. length (ulid_text x w) = 26 \<Longrightarrow> public_ids_are_26_char_crockford x i"
    using public_id_round_trip [of x i] by (cases i) (simp add: public_ids_are_26_char_crockford_def Let_def del: public_id_parse.simps)
  show codes_normalise_and_validate
    by code_simp
qed

section \<open>Clocks\<close>

definition test_instant :: "int \<Rightarrow> utc" where
  "test_instant secs = (1760000000 + secs) * nanos_per_sec"

definition aligned_clocks_are_not_skewed :: "externals \<Rightarrow> bool" where
  "aligned_clocks_are_not_skewed x \<longleftrightarrow>
     (let s = stamps_new (test_instant 0) (test_instant 0) in
      \<not> is_skewed_default x s \<and> num_seconds x (skew s) = 0)"

definition skew_is_detected_in_both_directions :: "externals \<Rightarrow> bool" where
  "skew_is_detected_in_both_directions x \<longleftrightarrow>
     is_skewed_default x (stamps_new (test_instant 120) (test_instant 0))
     \<and> is_skewed_default x (stamps_new (test_instant 0) (test_instant 120))"

definition offline_spool_latency_is_not_skew_when_within_threshold :: "externals \<Rightarrow> bool" where
  "offline_spool_latency_is_not_skew_when_within_threshold x \<longleftrightarrow>
     (let s = stamps_new (test_instant 0) (test_instant 10) in
      \<not> is_skewed_default x s \<and> num_seconds x (spool_latency s) = 10)"

definition spool_latency_never_negative :: "externals \<Rightarrow> bool" where
  "spool_latency_never_negative x \<longleftrightarrow>
     (let s = stamps_new (test_instant 50) (test_instant 0) in num_seconds x (spool_latency s) = 0)"

lemma clock_tests:
  assumes "whole_seconds x"
  shows "aligned_clocks_are_not_skewed x" "skew_is_detected_in_both_directions x"
    "offline_spool_latency_is_not_skew_when_within_threshold x" "spool_latency_never_negative x"
  using assms
  by (simp_all add: aligned_clocks_are_not_skewed_def skew_is_detected_in_both_directions_def
      offline_spool_latency_is_not_skew_when_within_threshold_def spool_latency_never_negative_def
      whole_seconds_def is_skewed_default_def is_skewed_def skew_def stamps_new_def test_instant_def
      nanos_per_sec_def trunc_div_def spool_latency_def Let_def DEFAULT_SKEW_THRESHOLD_SECS_def)

section \<open>Data collection points\<close>

text \<open>A decimal literal stands for its value: rounding it to a double crosses none of the limits.\<close>

definition test_torque_dcp :: data_collection_point where
  "test_torque_dcp =
     \<lparr>dcp_id = 1, dcp_name = ''final_torque'', dcp_label = ''Final torque'', dcp_unit = Some ''Nm'',
      dcp_datatype = DT_Numeric,
      dcp_limits = \<lparr>lim_min = Some (F_Fin 10), lim_max = Some (F_Fin 14), lim_nominal = Some (F_Fin 12)\<rparr>,
      dcp_sample_rule = Every, dcp_mandatory = True, dcp_device_id = Some 5\<rparr>"

definition value_inside_limits_passes :: "externals \<Rightarrow> bool" where
  "value_inside_limits_passes x \<longleftrightarrow> evaluate x test_torque_dcp (V_Numeric (F_Fin 12)) = Inr V_Pass"

definition limits_are_inclusive_at_both_bounds :: "externals \<Rightarrow> bool" where
  "limits_are_inclusive_at_both_bounds x \<longleftrightarrow>
     evaluate x test_torque_dcp (V_Numeric (F_Fin 10)) = Inr V_Pass
     \<and> evaluate x test_torque_dcp (V_Numeric (F_Fin 14)) = Inr V_Pass"

definition value_outside_limits_fails :: "externals \<Rightarrow> bool" where
  "value_outside_limits_fails x \<longleftrightarrow>
     evaluate x test_torque_dcp (V_Numeric (F_Fin (999 / 100))) = Inr V_Fail
     \<and> evaluate x test_torque_dcp (V_Numeric (F_Fin (1401 / 100))) = Inr V_Fail"

definition nan_never_passes :: "externals \<Rightarrow> bool" where
  "nan_never_passes x \<longleftrightarrow> evaluate x test_torque_dcp (V_Numeric F_NaN) = Inr V_Fail"

definition one_sided_limits_work :: "externals \<Rightarrow> bool" where
  "one_sided_limits_work x \<longleftrightarrow>
     (let d = test_torque_dcp\<lparr>dcp_limits :=
            \<lparr>lim_min = Some (F_Fin 10), lim_max = None, lim_nominal = None\<rparr>\<rparr>
      in evaluate x d (V_Numeric (F_Fin 1000)) = Inr V_Pass
         \<and> evaluate x d (V_Numeric (F_Fin 9)) = Inr V_Fail)"

definition unbounded_numeric_is_recorded_not_judged :: "externals \<Rightarrow> bool" where
  "unbounded_numeric_is_recorded_not_judged x \<longleftrightarrow>
     (let d = test_torque_dcp\<lparr>dcp_limits := \<lparr>lim_min = None, lim_max = None, lim_nominal = None\<rparr>\<rparr>
      in evaluate x d (V_Numeric (F_Fin (- 500))) = Inr V_Pass)"

definition wrong_datatype_is_an_error_not_a_defect :: "externals \<Rightarrow> bool" where
  "wrong_datatype_is_an_error_not_a_defect x =
     (case evaluate x test_torque_dcp (V_Text ''twelve'') of
        Inl (ValueTypeMismatch _ _) \<Rightarrow> True
      | _ \<Rightarrow> False)"

definition incoherent_limits_are_detectable :: bool where
  "incoherent_limits_are_detectable \<longleftrightarrow>
     \<not> is_coherent \<lparr>lim_min = Some (F_Fin 14), lim_max = Some (F_Fin 10), lim_nominal = None\<rparr>
     \<and> is_coherent (dcp_limits test_torque_dcp)"

definition sample_rules_select_the_right_units :: bool where
  "sample_rules_select_the_right_units \<longleftrightarrow>
     applies_to Every 7 \<and> applies_to FirstOff 0 \<and> \<not> applies_to FirstOff 1
     \<and> applies_to (EveryNth 5) 10 \<and> \<not> applies_to (EveryNth 5) 11"

definition zero_nth_does_not_panic :: bool where
  "zero_nth_does_not_panic \<longleftrightarrow> applies_to (EveryNth 0) 3"

lemma dcp_tests:
  "value_inside_limits_passes x" "limits_are_inclusive_at_both_bounds x" "value_outside_limits_fails x"
  "nan_never_passes x" "one_sided_limits_work x" "unbounded_numeric_is_recorded_not_judged x"
  "wrong_datatype_is_an_error_not_a_defect x" "incoherent_limits_are_detectable"
  "sample_rules_select_the_right_units" "zero_nth_does_not_panic"
  by code_simp+

section \<open>Configuration\<close>

text \<open>\<open>Code::new(..).unwrap()\<close> on a literal that is a code.\<close>

definition test_code :: "string \<Rightarrow> code" where
  "test_code s = (case code_new s of Inr c \<Rightarrow> c | Inl _ \<Rightarrow> Code [])"

definition station_with :: "row_id list \<Rightarrow> station" where
  "station_with ops =
     \<lparr>station_id = 1, station_line_id = 1, station_code = test_code ''ST-01'', station_name = ''Station 1'',
      station_operations = set ops, station_active = True\<rparr>"

definition one_station_can_serve_the_whole_route :: bool where
  "one_station_can_serve_the_whole_route \<longleftrightarrow>
     (let s = station_with [1, 2, 3, 4, 5] in list_all (can_perform s) [1, 2, 3, 4, 5])"

definition station_rejects_operations_it_is_not_equipped_for :: bool where
  "station_rejects_operations_it_is_not_equipped_for \<longleftrightarrow> \<not> can_perform (station_with [1, 2]) 9"

definition one_operation_can_live_on_many_stations :: bool where
  "one_operation_can_live_on_many_stations \<longleftrightarrow>
     (let a = station_with [7]; b = station_with [7] in can_perform a 7 \<and> can_perform b 7)"

definition bom_lookup_by_part_number :: bool where
  "bom_lookup_by_part_number \<longleftrightarrow>
     (let b = \<lparr>bom_id = 1, bom_product_revision_id = 1, bom_revision = test_code ''A'',
            bom_lines = [\<lparr>bl_id = 1, bl_position = ''10'', bl_part_no = test_code ''SCR-M6-20'',
              bl_qty = F_Fin 4, bl_tracking = LotTracked\<rparr>]\<rparr>
      in line_for_part b ''SCR-M6-20'' \<noteq> None \<and> line_for_part b ''WRONG-PART'' = None)"

lemma config_tests:
  "one_station_can_serve_the_whole_route" "station_rejects_operations_it_is_not_equipped_for"
  "one_operation_can_live_on_many_stations" "bom_lookup_by_part_number"
  by code_simp+

section \<open>Job cards\<close>

definition test_card :: "string \<Rightarrow> job_card" where
  "test_card number =
     \<lparr>jc_id = 1, jc_tenant_id = 1, jc_number = test_code number, jc_product_revision_id = 1, jc_qty = 100,
      jc_priority = 0, jc_due_date = None, jc_external_ref = None\<rparr>"

definition local_any_resolves_and_reports_misses :: bool where
  "local_any_resolves_and_reports_misses \<longleftrightarrow>
     (let src = local_new [test_card ''JC-2026-0912''] in
      map_sum id jc_qty (local_resolve src (test_code ''JC-2026-0912'')) = Inr 100
      \<and> (case local_resolve src (test_code ''JC-NOPE'') of Inl (JC_NotFound _) \<Rightarrow> True | _ \<Rightarrow> False))"

definition unimplemented_adapters_say_so_rather_than_pretending :: bool where
  "unimplemented_adapters_say_so_rather_than_pretending \<longleftrightarrow>
     mes_resolve () (test_code ''X'') = Inl (JC_NotImplemented ''MES'')
     \<and> erp_resolve () (test_code ''X'') = Inl (JC_NotImplemented ''ERP'')"

text \<open>The three sources behind the one trait.\<close>

definition sources_are_interchangeable_behind_the_trait :: bool where
  "sources_are_interchangeable_behind_the_trait \<longleftrightarrow>
     map any_name [LocalSource (local_new [test_card ''JC-1'']), MesSource, ErpSource]
       = [''local'', ''mes'', ''erp'']"

lemma jobcard_tests:
  "local_any_resolves_and_reports_misses" "unimplemented_adapters_say_so_rather_than_pretending"
  "sources_are_interchangeable_behind_the_trait"
  by code_simp+

section \<open>Routes\<close>

definition test_op :: "operation_seq \<Rightarrow> operation_seq list \<Rightarrow> route_operation" where
  "test_op sq preds =
     \<lparr>ro_seq = sq, ro_operation_def_id = uint sq, ro_requirement = Required, ro_predecessors = preds,
      ro_gates = [], ro_failure_path = Quarantine\<rparr>"

definition test_route :: "route_operation list \<Rightarrow> route" where
  "test_route ops =
     \<lparr>rt_id = 1, rt_product_revision_id = 1, rt_line_id = 1, rt_revision = ''A'', rt_operations = ops\<rparr>"

definition linear_route_validates :: bool where
  "linear_route_validates \<longleftrightarrow>
     validate (test_route [test_op 10 [], test_op 20 [10], test_op 30 [20]]) = Some (Inr ())"

definition empty_route_is_rejected :: bool where
  "empty_route_is_rejected \<longleftrightarrow> validate (test_route []) \<noteq> Some (Inr ())"

definition duplicate_seq_is_rejected :: bool where
  "duplicate_seq_is_rejected \<longleftrightarrow>
     contains ''duplicate'' (rejection (validate (test_route [test_op 10 [], test_op 10 []])))"

definition dangling_predecessor_is_rejected :: bool where
  "dangling_predecessor_is_rejected \<longleftrightarrow>
     contains ''unknown predecessor'' (rejection (validate (test_route [test_op 10 [], test_op 20 [99]])))"

definition self_reference_is_rejected :: bool where
  "self_reference_is_rejected \<longleftrightarrow>
     contains ''itself'' (rejection (validate (test_route [test_op 10 [10]])))"

definition cycle_is_rejected_at_load_time_not_mid_shift :: bool where
  "cycle_is_rejected_at_load_time_not_mid_shift \<longleftrightarrow>
     (let msg = rejection (validate (test_route
            [test_op 10 [], test_op 20 [10, 40], test_op 30 [20], test_op 40 [30]]))
      in contains ''cycle'' msg \<and> contains ''20'' msg \<and> contains ''30'' msg \<and> contains ''40'' msg)"

definition parallel_branches_are_both_ready_at_once :: bool where
  "parallel_branches_are_both_ready_at_once \<longleftrightarrow>
     (let r = test_route [test_op 10 [], test_op 20 [10], test_op 30 [10], test_op 40 [20, 30]] in
      validate r = Some (Inr ())
      \<and> map ro_seq (ready_operations r {10}) = [20, 30]
      \<and> map ro_seq (ready_operations r {10, 20}) = [30])"

definition test_optional :: "route_operation \<Rightarrow> route_operation" where
  "test_optional op = op\<lparr>ro_requirement := Optional\<rparr>"

definition optional_operation_does_not_block_its_successor :: bool where
  "optional_operation_does_not_block_its_successor \<longleftrightarrow>
     (let r = test_route [test_op 10 [], test_optional (test_op 20 [10]), test_op 30 [20]] in
      validate r = Some (Inr ()) \<and> 30 \<in> set (map ro_seq (ready_operations r {10})))"

definition completion_ignores_skipped_optional_operations :: bool where
  "completion_ignores_skipped_optional_operations \<longleftrightarrow>
     is_complete (test_route [test_op 10 [], test_optional (test_op 20 [10])]) {10}"

definition completion_requires_every_required_operation :: bool where
  "completion_requires_every_required_operation \<longleftrightarrow>
     (let r = test_route [test_op 10 [], test_op 20 [10]] in
      \<not> is_complete r {10} \<and> is_complete r {10, 20})"

definition route_with_no_entry_point_is_rejected :: bool where
  "route_with_no_entry_point_is_rejected \<longleftrightarrow>
     validate (test_route [test_op 10 [20], test_op 20 [10]]) \<noteq> Some (Inr ())"

definition interlock_is_the_only_output_gate :: bool where
  "interlock_is_the_only_output_gate \<longleftrightarrow>
     is_output (InterlockOut 1) \<and> \<not> is_output Identity \<and> \<not> is_output DataCapture"

lemma route_tests:
  "linear_route_validates" "empty_route_is_rejected" "duplicate_seq_is_rejected"
  "dangling_predecessor_is_rejected" "self_reference_is_rejected"
  "cycle_is_rejected_at_load_time_not_mid_shift" "parallel_branches_are_both_ready_at_once"
  "optional_operation_does_not_block_its_successor" "completion_ignores_skipped_optional_operations"
  "completion_requires_every_required_operation" "route_with_no_entry_point_is_rejected"
  "interlock_is_the_only_output_gate"
  by code_simp+

section \<open>Units\<close>

definition test_unit :: "unit_uid \<Rightarrow> unit_state \<Rightarrow> traced_unit" where
  "test_unit uid s =
     \<lparr>u_id = 1, u_uid = uid, u_tenant_id = 1, u_plant_id = 1, u_product_revision_id = 1, u_job_card_id = 1,
      u_serial = ''EX24A0001537'', u_state = s, u_current_operation = None, u_index_in_job = 0\<rparr>"

text \<open>A sequence of moves, each of which must be allowed.\<close>

definition moves :: "externals \<Rightarrow> unit_state list \<Rightarrow> traced_unit \<Rightarrow> core_error + traced_unit" where
  "moves x targets u = fold (\<lambda>s r. and_then r (\<lambda>v. transition_to x v s)) targets (Inr u)"

definition scrapped_is_terminal_and_uid_is_never_reissued :: "externals \<Rightarrow> unit_uid \<Rightarrow> bool" where
  "scrapped_is_terminal_and_uid_is_never_reissued x uid \<longleftrightarrow>
     list_all (\<lambda>target. case transition_to x (test_unit uid Scrapped) target of
         Inl (RetiredUid _) \<Rightarrow> True
       | _ \<Rightarrow> False)
       [Born, Marked, InProcess, Completed, Shipped, Held, Scrapped]
     \<and> is_terminal Scrapped"

definition a_marked_raw_part_can_be_scrapped_before_any_assembly :: "externals \<Rightarrow> unit_uid \<Rightarrow> bool" where
  "a_marked_raw_part_can_be_scrapped_before_any_assembly x uid \<longleftrightarrow>
     map_sum id u_state (transition_to x (test_unit uid Marked) Scrapped) = Inr Scrapped"

definition born_unit_can_be_marked_then_processed :: "externals \<Rightarrow> unit_uid \<Rightarrow> bool" where
  "born_unit_can_be_marked_then_processed x uid \<longleftrightarrow>
     is_ok (moves x [Marked, InProcess, Completed, Shipped] (test_unit uid Born))"

definition shipped_unit_cannot_silently_re_enter_production :: "externals \<Rightarrow> unit_uid \<Rightarrow> bool" where
  "shipped_unit_cannot_silently_re_enter_production x uid \<longleftrightarrow>
     \<not> is_ok (transition_to x (test_unit uid Shipped) InProcess)
     \<and> is_ok (transition_to x (test_unit uid Shipped) Quarantined)"

definition quarantined_unit_can_be_reworked_or_scrapped :: "externals \<Rightarrow> unit_uid \<Rightarrow> unit_uid \<Rightarrow> bool" where
  "quarantined_unit_can_be_reworked_or_scrapped x a b \<longleftrightarrow>
     is_ok (transition_to x (test_unit a Quarantined) Reworking)
     \<and> is_ok (transition_to x (test_unit b Quarantined) Scrapped)"

definition only_working_states_accept_work :: bool where
  "only_working_states_accept_work \<longleftrightarrow>
     accepts_work InProcess \<and> accepts_work Marked \<and> accepts_work Reworking
     \<and> \<not> accepts_work Quarantined \<and> \<not> accepts_work Scrapped \<and> \<not> accepts_work Shipped"

definition test_stamps :: stamps where
  "test_stamps = stamps_new (test_instant 0) (test_instant 0)"

definition event_payload_is_deterministic_and_covers_the_fields_that_matter ::
  "externals \<Rightarrow> event_id \<Rightarrow> bool" where
  "event_payload_is_deterministic_and_covers_the_fields_that_matter x i \<longleftrightarrow>
     (let e = \<lparr>ev_id = i, ev_unit_id = 42, ev_kind = EvOperationCompleted, ev_operation_seq = Some 20,
            ev_station_id = Some 3, ev_operator_id = Some 7, ev_stamps = test_stamps, ev_detail = None,
            ev_chain_seq = 0, ev_prev_hash = GENESIS, ev_row_hash = []\<rparr>;
          p = event_payload x e
      in p = event_payload x e \<and> contains ''unit=42'' p \<and> contains ''op=20'' p \<and> contains ''operator=7'' p)"

text \<open>The measurement's raw payload ends in a carriage return and a newline.\<close>

definition measurement_payload_includes_raw_bytes_and_supersede_link ::
  "externals \<Rightarrow> measurement_id \<Rightarrow> bool" where
  "measurement_payload_includes_raw_bytes_and_supersede_link x i \<longleftrightarrow>
     (let m = \<lparr>ms_id = i, ms_unit_id = 42, ms_dcp_id = 1, ms_operation_seq = 20,
            ms_value = V_Numeric (F_Fin (121 / 10)), ms_verdict = V_Pass, ms_source = Src_Device,
            ms_device_id = Some 5, ms_raw_payload = Some (''T:12.1NM'' @ [CHR 0x0D, CHR 0x0A]),
            ms_operator_id = Some 7, ms_stamps = test_stamps, ms_chain_seq = 1, ms_prev_hash = ''aa'',
            ms_row_hash = [], ms_supersedes = None, ms_supersede_reason = None\<rparr>;
          p = measurement_payload x m
      in contains ''value=12.1'' p \<and> contains ''raw=T:12.1NM'' p)"

lemma unit_tests:
  "scrapped_is_terminal_and_uid_is_never_reissued x uid"
  "a_marked_raw_part_can_be_scrapped_before_any_assembly x uid"
  "born_unit_can_be_marked_then_processed x uid"
  "shipped_unit_cannot_silently_re_enter_production x uid"
  "quarantined_unit_can_be_reworked_or_scrapped x uid uid'"
  "only_working_states_accept_work"
  by code_simp+

lemma event_test: "event_payload_is_deterministic_and_covers_the_fields_that_matter x i"
  by code_simp

text \<open>The payload of a measurement, its value and its raw payload in their places.\<close>

lemma measurement_payload_split:
  "\<exists>a b c. measurement_payload x m = a @ (''value='' @ canonical x (ms_value m)) @ b
     @ (''raw='' @ or_dash (\<lambda>s. s) (ms_raw_payload m)) @ c"
proof -
  have "measurement_payload x m =
    (''unit='' @ show_int (ms_unit_id m) @ ''|dcp='' @ show_int (ms_dcp_id m)
     @ ''|op='' @ show_word (ms_operation_seq m) @ ''|'') @ (''value='' @ canonical x (ms_value m))
     @ (''|verdict='' @ debug_verdict (ms_verdict m) @ ''|source='' @ debug_source (ms_source m)
     @ ''|device='' @ or_dash show_int (ms_device_id m) @ ''|'')
     @ (''raw='' @ or_dash (\<lambda>s. s) (ms_raw_payload m))
     @ (''|recorded='' @ rfc3339 x (recorded_at (ms_stamps m))
     @ ''|supersedes='' @ or_dash (measurement_id_display x) (ms_supersedes m))"
    by (simp add: measurement_payload_def)
  then show ?thesis
    by blast
qed

lemma measurement_covers:
  "contains (''value='' @ canonical x (ms_value m)) (measurement_payload x m)"
  "ms_raw_payload m = Some (raw @ rest) \<Longrightarrow> contains (''raw='' @ raw) (measurement_payload x m)"
proof -
  obtain a b c where p: "measurement_payload x m = a @ (''value='' @ canonical x (ms_value m)) @ b
     @ (''raw='' @ or_dash (\<lambda>s. s) (ms_raw_payload m)) @ c"
    using measurement_payload_split by blast
  show "contains (''value='' @ canonical x (ms_value m)) (measurement_payload x m)"
    unfolding p by (rule contains_middle)
  assume raw: "ms_raw_payload m = Some (raw @ rest)"
  have "contains (''raw='' @ raw) ((a @ (''value='' @ canonical x (ms_value m)) @ b) @ (''raw='' @ raw) @ rest @ c)"
    by (rule contains_middle)
  then show "contains (''raw='' @ raw) (measurement_payload x m)"
    by (simp add: p raw or_dash_def)
qed

lemma measurement_test:
  assumes "dbg_f64 x (F_Fin (121 / 10)) = ''12.1''"
  shows "measurement_payload_includes_raw_bytes_and_supersede_link x i"
proof -
  have "contains ''value=12.1'' (measurement_payload x m)"
    if "ms_value m = V_Numeric (F_Fin (121 / 10))" for m
    using measurement_covers(1) [of x m] assms that by simp
  moreover have "contains ''raw=T:12.1NM'' (measurement_payload x m)"
    if "ms_raw_payload m = Some (''T:12.1NM'' @ rest)" for m rest
    using measurement_covers(2) [of m "''T:12.1NM''" rest x] that by simp
  ultimately show ?thesis
    unfolding measurement_payload_includes_raw_bytes_and_supersede_link_def Let_def
    by (simp del: append_Cons)
qed

section \<open>Hash chains\<close>

text \<open>
  The digest is a parameter: a test that expects tampering to be noticed holds unless the two texts it feeds to
  the digest collide.
\<close>

definition build :: "(string \<Rightarrow> string) \<Rightarrow> string list \<Rightarrow> chain_link list" where
  "build H payloads = foldl (\<lambda>links p. links @ [append_link H (last_option links) p]) [] payloads"

definition test_chain :: "string list" where
  "test_chain = [''born'', ''torque=12.1'', ''tested'']"

definition intact_chain_verifies :: "(string \<Rightarrow> string) \<Rightarrow> bool" where
  "intact_chain_verifies H \<longleftrightarrow>
     (let links = build H test_chain in
      cl_prev_hash (links ! 0) = GENESIS \<and> cl_prev_hash (links ! 1) = cl_row_hash (links ! 0)
      \<and> cl_seq (links ! 2) = 2 \<and> verify H links test_chain = Inr ())"

definition tampering_with_a_value_is_detected :: "(string \<Rightarrow> string) \<Rightarrow> bool" where
  "tampering_with_a_value_is_detected H =
     (case verify H (build H test_chain) (test_chain[1 := ''torque=18.0'']) of
        Inl (HashChainBroken sq _ _) \<Rightarrow> sq = 1
      | _ \<Rightarrow> False)"

text \<open>\<open>remove\<close> and \<open>swap\<close> of a vector.\<close>

definition remove_index :: "nat \<Rightarrow> 'a list \<Rightarrow> 'a list" where
  "remove_index i xs = take i xs @ drop (Suc i) xs"

definition swap_index :: "nat \<Rightarrow> nat \<Rightarrow> 'a list \<Rightarrow> 'a list" where
  "swap_index i j xs = xs[i := xs ! j, j := xs ! i]"

definition deleting_a_row_is_detected :: "(string \<Rightarrow> string) \<Rightarrow> bool" where
  "deleting_a_row_is_detected H \<longleftrightarrow>
     \<not> is_ok (verify H (remove_index 1 (build H test_chain)) (remove_index 1 test_chain))"

definition reordering_is_detected :: "(string \<Rightarrow> string) \<Rightarrow> bool" where
  "reordering_is_detected H \<longleftrightarrow>
     (let payloads = [''a'', ''b'', ''c''] in
      \<not> is_ok (verify H (swap_index 1 2 (build H payloads)) payloads))"

definition length_prefix_prevents_concatenation_collision :: "(string \<Rightarrow> string) \<Rightarrow> bool" where
  "length_prefix_prevents_concatenation_collision H \<longleftrightarrow>
     row_hash H GENESIS ''ab'' \<noteq> row_hash H GENESIS [CHR ''a'', CHR 0x00, CHR ''b'']
     \<and> cl_row_hash (append_link H None ''ab'') \<noteq> cl_row_hash (append_link H None ''abc'')"

definition hash_is_stable_across_runs :: "(string \<Rightarrow> string) \<Rightarrow> bool" where
  "hash_is_stable_across_runs H \<longleftrightarrow> row_hash H GENESIS ''born'' = row_hash H GENESIS ''born''"

lemma hash_tests:
  "intact_chain_verifies H" "hash_is_stable_across_runs H"
proof -
  have "cl_prev_hash (build H test_chain ! 0) = GENESIS"
    "cl_prev_hash (build H test_chain ! 1) = cl_row_hash (build H test_chain ! 0)"
    "cl_seq (build H test_chain ! 2) = 2"
    by (simp_all add: build_def test_chain_def append_link_def numeral_2_eq_2)
  moreover have "verify H (build H test_chain) test_chain = Inr ()"
    using verify_append_all by (simp add: build_def append_all_def)
  ultimately show "intact_chain_verifies H"
    by (simp add: intact_chain_verifies_def Let_def)
  show "hash_is_stable_across_runs H"
    by (simp add: hash_is_stable_across_runs_def)
qed

text \<open>The texts these tests feed to the digest.\<close>

definition test_texts :: "(string \<Rightarrow> string) \<Rightarrow> string set" where
  "test_texts H =
     (let a = H (preimage GENESIS ''a''); born = H (preimage GENESIS ''born'') in
      preimage GENESIS ` {''a'', ''born'', ''ab'', [CHR ''a'', CHR 0x00, CHR ''b''], ''abc''}
      \<union> {preimage a ''b'', preimage born ''torque=12.1'', preimage born ''torque=18.0''})"

lemma distinguished:
  assumes "\<not> collides H A" and "s \<in> A" and "t \<in> A" and "s \<noteq> t"
  shows "H s \<noteq> H t"
  using assms by (auto simp: collides_def)

lemma preimage_last: "p \<noteq> [] \<Longrightarrow> q \<noteq> [] \<Longrightarrow> last p \<noteq> last q \<Longrightarrow> preimage h p \<noteq> preimage h' q"
proof
  assume "preimage h p = preimage h' q" and nonempty: "p \<noteq> []" "q \<noteq> []" and "last p \<noteq> last q"
  moreover have "last (preimage h p) = last p" "last (preimage h' q) = last q"
    using nonempty by (simp_all add: preimage_def)
  ultimately show False
    by simp
qed

lemma hash_detection_tests:
  assumes "\<not> collides H (test_texts H)"
  shows "tampering_with_a_value_is_detected H" "deleting_a_row_is_detected H" "reordering_is_detected H"
    "length_prefix_prevents_concatenation_collision H"
proof -
  note distinct = distinguished [OF assms]
  let ?born = "H (preimage GENESIS ''born'')" and ?a = "H (preimage GENESIS ''a'')"
  have torque: "H (preimage ?born ''torque=18.0'') \<noteq> H (preimage ?born ''torque=12.1'')"
    by (rule distinct) (simp_all add: test_texts_def Let_def preimage_last)
  then show "tampering_with_a_value_is_detected H"
    by (simp add: tampering_with_a_value_is_detected_def build_def test_chain_def append_link_def verify_def
        row_hash_def Let_def)
  have "H (preimage ?born ''torque=12.1'') \<noteq> ?born"
    by (rule distinct) (simp_all add: test_texts_def Let_def preimage_last)
  then show "deleting_a_row_is_detected H"
    by (simp add: deleting_a_row_is_detected_def build_def test_chain_def append_link_def verify_def
        row_hash_def Let_def remove_index_def)
  have "H (preimage ?a ''b'') \<noteq> ?a"
    by (rule distinct) (simp_all add: test_texts_def Let_def preimage_last)
  then show "reordering_is_detected H"
    by (simp add: reordering_is_detected_def build_def append_link_def verify_def row_hash_def Let_def
        swap_index_def numeral_2_eq_2)
  have "H (preimage GENESIS ''ab'') \<noteq> H (preimage GENESIS [CHR ''a'', CHR 0x00, CHR ''b''])"
    by (rule distinct) (simp_all add: test_texts_def Let_def preimage_inject)
  moreover have "H (preimage GENESIS ''ab'') \<noteq> H (preimage GENESIS ''abc'')"
    by (rule distinct) (simp_all add: test_texts_def Let_def preimage_last)
  ultimately show "length_prefix_prevents_concatenation_collision H"
    by (simp add: length_prefix_prevents_concatenation_collision_def append_link_def row_hash_def)
qed

end
