(* ===== verification/ConformEngine.thy ===== *)
theory ConformEngine
  imports ConformCore
begin

text \<open>
  The route engine against the program's own behavioural tests, \<open>crates/trace-core/tests/engine.rs\<close>: its
  fixtures, its harness and its tests, each a definition with the test's name, and the lemmas that the model passes
  them.  Identities drawn at random are arguments; where a test relies on two of them differing, so does the lemma.
\<close>

section \<open>Fixtures\<close>

abbreviation OP_DEF_MARK :: row_id where "OP_DEF_MARK \<equiv> 100"
abbreviation OP_DEF_ASSY :: row_id where "OP_DEF_ASSY \<equiv> 200"
abbreviation OP_DEF_TEST :: row_id where "OP_DEF_TEST \<equiv> 300"
abbreviation SKILL_TORQUE :: row_id where "SKILL_TORQUE \<equiv> 900"
abbreviation DCP_TORQUE :: row_id where "DCP_TORQUE \<equiv> 1"
abbreviation BOM_SCREW :: row_id where "BOM_SCREW \<equiv> 11"

definition fx_revision :: "mark_method \<Rightarrow> char option \<Rightarrow> product_revision" where
  "fx_revision how min_grade =
     \<lparr>rev_id = 1, rev_product_id = 1, rev_revision = test_code ''A'', rev_material = Aluminium,
      rev_mark_method = how, rev_min_mark_grade = min_grade, rev_active = True\<rparr>"

definition fx_operator :: "row_id list \<Rightarrow> operator" where
  "fx_operator certs =
     \<lparr>opr_id = 7, opr_tenant_id = 1, opr_username = ''R.KUMAR'', opr_display_name = ''R. Kumar'',
      opr_certifications = set certs, opr_active = True\<rparr>"

definition fx_op_def :: "row_id \<Rightarrow> string \<Rightarrow> row_id option \<Rightarrow> operation_def" where
  "fx_op_def i name skill =
     \<lparr>od_id = i, od_name = name, od_label = name, od_dcp_ids = [], od_required_skill = skill\<rparr>"

definition fx_torque_dcp :: "bool \<Rightarrow> sample_rule \<Rightarrow> data_collection_point" where
  "fx_torque_dcp mandatory rule = test_torque_dcp\<lparr>dcp_sample_rule := rule, dcp_mandatory := mandatory\<rparr>"

definition fx_route_op ::
  "operation_seq \<Rightarrow> row_id \<Rightarrow> operation_seq list \<Rightarrow> gate list \<Rightarrow> failure_path \<Rightarrow> route_operation" where
  "fx_route_op sq i preds gates failure =
     \<lparr>ro_seq = sq, ro_operation_def_id = i, ro_requirement = Required, ro_predecessors = preds,
      ro_gates = gates, ro_failure_path = failure\<rparr>"

record harness =
  h_unit :: traced_unit
  h_revision :: product_revision
  h_route :: route
  h_station :: station
  h_operator :: "operator option"
  h_completed :: "operation_seq set"
  h_scanned :: "unit_uid option"
  h_scans :: "component_scan list"
  h_captured :: "captured_value list"
  h_dcps :: "data_collection_point list"
  h_verdicts :: "(string, verdict) btree"
  h_mark :: "mark_verification option"
  h_attempt :: u32
  h_op_def :: operation_def

text \<open>A single-operation route whose gates are supplied by the test.\<close>

definition harness_new :: "unit_uid \<Rightarrow> gate list \<Rightarrow> failure_path \<Rightarrow> harness" where
  "harness_new uid gates failure =
     (let u = test_unit uid InProcess in
      \<lparr>h_unit = u, h_revision = fx_revision Label None,
       h_route = test_route [fx_route_op 10 OP_DEF_ASSY [] gates failure],
       h_station = station_with [OP_DEF_ASSY], h_operator = Some (fx_operator [SKILL_TORQUE]),
       h_completed = {}, h_scanned = Some (u_uid u), h_scans = [], h_captured = [], h_dcps = [],
       h_verdicts = [], h_mark = None, h_attempt = 1, h_op_def = fx_op_def OP_DEF_ASSY ''assemble'' None\<rparr>)"

definition harness_advance :: "externals \<Rightarrow> harness \<Rightarrow> advance" where
  "harness_advance x h = try_advance x
     \<lparr>oc_unit = h_unit h, oc_revision = h_revision h, oc_route = h_route h,
      oc_operation = the (operation (h_route h) 10), oc_operation_def = h_op_def h, oc_station = h_station h,
      oc_operator = h_operator h, oc_completed = h_completed h, oc_scanned_identity = h_scanned h,
      oc_component_scans = h_scans h, oc_captured = h_captured h, oc_dcps = h_dcps h,
      oc_test_verdicts = h_verdicts h, oc_mark_verification = h_mark h, oc_attempt = h_attempt h\<rparr>"

fun failure_reasons :: "advance \<Rightarrow> string list" where
  "failure_reasons (Adv_Blocked _ failures _) =
     map (\<lambda>f. gr_gate f @ '': '' @ (case gr_reason f of None \<Rightarrow> [] | Some r \<Rightarrow> r)) failures"
| "failure_reasons (Adv_Completed _ _ _ _) = []"

text \<open>The first reason contains the text; there being none, the test's index panics.\<close>

definition first_reason_says :: "string \<Rightarrow> advance \<Rightarrow> bool" where
  "first_reason_says needle a =
     (case failure_reasons a of [] \<Rightarrow> False | r # _ \<Rightarrow> contains needle r)"

section \<open>Identity and operator\<close>

definition identity_gate_passes_when_the_scan_matches :: "externals \<Rightarrow> unit_uid \<Rightarrow> bool" where
  "identity_gate_passes_when_the_scan_matches x uid \<longleftrightarrow>
     is_completed (harness_advance x (harness_new uid [Identity] Quarantine))"

definition identity_gate_blocks_when_nothing_was_scanned :: "externals \<Rightarrow> unit_uid \<Rightarrow> bool" where
  "identity_gate_blocks_when_nothing_was_scanned x uid \<longleftrightarrow>
     (let a = harness_advance x ((harness_new uid [Identity] Quarantine)\<lparr>h_scanned := None\<rparr>) in
      \<not> is_completed a \<and> first_reason_says ''no unit identity'' a)"

definition identity_gate_blocks_when_a_different_unit_was_scanned ::
  "externals \<Rightarrow> unit_uid \<Rightarrow> unit_uid \<Rightarrow> bool" where
  "identity_gate_blocks_when_a_different_unit_was_scanned x uid stray \<longleftrightarrow>
     \<not> is_completed (harness_advance x ((harness_new uid [Identity] Quarantine)\<lparr>h_scanned := Some stray\<rparr>))"

definition operator_gate_blocks_when_nobody_is_logged_in :: "externals \<Rightarrow> unit_uid \<Rightarrow> bool" where
  "operator_gate_blocks_when_nobody_is_logged_in x uid \<longleftrightarrow>
     first_reason_says ''no operator''
       (harness_advance x ((harness_new uid [OperatorAuth] Quarantine)\<lparr>h_operator := None\<rparr>))"

definition operator_gate_blocks_a_deactivated_account :: "externals \<Rightarrow> unit_uid \<Rightarrow> bool" where
  "operator_gate_blocks_a_deactivated_account x uid \<longleftrightarrow>
     first_reason_says ''deactivated''
       (harness_advance x ((harness_new uid [OperatorAuth] Quarantine)
          \<lparr>h_operator := Some ((fx_operator [SKILL_TORQUE])\<lparr>opr_active := False\<rparr>)\<rparr>))"

definition operator_gate_enforces_skill_certification :: "externals \<Rightarrow> unit_uid \<Rightarrow> bool" where
  "operator_gate_enforces_skill_certification x uid \<longleftrightarrow>
     (let h = (harness_new uid [OperatorAuth] Quarantine)
            \<lparr>h_op_def := fx_op_def OP_DEF_ASSY ''torque'' (Some SKILL_TORQUE)\<rparr>
      in first_reason_says ''not certified'' (harness_advance x (h\<lparr>h_operator := Some (fx_operator [])\<rparr>))
         \<and> is_completed (harness_advance x (h\<lparr>h_operator := Some (fx_operator [SKILL_TORQUE])\<rparr>)))"

lemma identity_tests:
  "identity_gate_passes_when_the_scan_matches x uid"
  "stray \<noteq> uid \<Longrightarrow> identity_gate_blocks_when_a_different_unit_was_scanned x uid stray"
  by (simp_all add: identity_gate_passes_when_the_scan_matches_def
      identity_gate_blocks_when_a_different_unit_was_scanned_def harness_advance_def harness_new_def Let_def
      try_advance_completed entry_gates_hold_def test_route_def fx_route_op_def operation_def test_unit_def)

lemma operator_tests:
  "identity_gate_blocks_when_nothing_was_scanned x uid"
  "operator_gate_blocks_when_nobody_is_logged_in x uid" "operator_gate_blocks_a_deactivated_account x uid"
  "operator_gate_enforces_skill_certification x uid"
  by code_simp+

section \<open>Components\<close>

definition fx_scan :: "string \<Rightarrow> row_id option \<Rightarrow> component_scan" where
  "fx_scan part on_bom = \<lparr>sc_part_no = test_code part, sc_bom_line_id = on_bom, sc_raw = part\<rparr>"

definition component_verify_passes_when_every_bom_line_is_scanned :: "externals \<Rightarrow> unit_uid \<Rightarrow> bool" where
  "component_verify_passes_when_every_bom_line_is_scanned x uid \<longleftrightarrow>
     is_completed (harness_advance x ((harness_new uid [ComponentVerify [BOM_SCREW]] Quarantine)
       \<lparr>h_scans := [fx_scan ''SCR-M6-20'' (Some BOM_SCREW)]\<rparr>))"

definition component_verify_blocks_a_missing_component :: "externals \<Rightarrow> unit_uid \<Rightarrow> bool" where
  "component_verify_blocks_a_missing_component x uid \<longleftrightarrow>
     first_reason_says ''not verified''
       (harness_advance x (harness_new uid [ComponentVerify [BOM_SCREW]] Quarantine))"

definition wrong_part_is_a_hard_stop_not_a_warning :: "externals \<Rightarrow> unit_uid \<Rightarrow> bool" where
  "wrong_part_is_a_hard_stop_not_a_warning x uid \<longleftrightarrow>
     (let a = harness_advance x ((harness_new uid [ComponentVerify [BOM_SCREW]] Quarantine)
            \<lparr>h_scans := [fx_scan ''SCR-M6-20'' (Some BOM_SCREW), fx_scan ''SCR-M8-30'' None]\<rparr>)
      in \<not> is_completed a \<and> first_reason_says ''not on the BOM'' a)"

lemma component_tests:
  "component_verify_passes_when_every_bom_line_is_scanned x uid"
  "component_verify_blocks_a_missing_component x uid" "wrong_part_is_a_hard_stop_not_a_warning x uid"
  by code_simp+

section \<open>Captured data and tests\<close>

definition fx_reading :: "rat \<Rightarrow> verdict \<Rightarrow> captured_value" where
  "fx_reading q v = \<lparr>cv_dcp_id = DCP_TORQUE, cv_value = V_Numeric (F_Fin q), cv_verdict = v\<rparr>"

definition fx_capture :: "unit_uid \<Rightarrow> bool \<Rightarrow> captured_value list \<Rightarrow> harness" where
  "fx_capture uid mandatory readings = (harness_new uid [DataCapture] Quarantine)
     \<lparr>h_dcps := [fx_torque_dcp mandatory Every], h_captured := readings\<rparr>"

definition data_capture_passes_when_readings_are_in_limits :: "externals \<Rightarrow> unit_uid \<Rightarrow> bool" where
  "data_capture_passes_when_readings_are_in_limits x uid \<longleftrightarrow>
     is_completed (harness_advance x (fx_capture uid True [fx_reading 12 V_Pass]))"

definition data_capture_blocks_a_missing_mandatory_reading :: "externals \<Rightarrow> unit_uid \<Rightarrow> bool" where
  "data_capture_blocks_a_missing_mandatory_reading x uid \<longleftrightarrow>
     first_reason_says ''not captured'' (harness_advance x (fx_capture uid True []))"

definition data_capture_blocks_an_out_of_limits_reading :: "externals \<Rightarrow> unit_uid \<Rightarrow> bool" where
  "data_capture_blocks_an_out_of_limits_reading x uid \<longleftrightarrow>
     first_reason_says ''outside limits'' (harness_advance x (fx_capture uid True [fx_reading 18 V_Fail]))"

definition optional_reading_may_be_absent :: "externals \<Rightarrow> unit_uid \<Rightarrow> bool" where
  "optional_reading_may_be_absent x uid \<longleftrightarrow> is_completed (harness_advance x (fx_capture uid False []))"

definition sampling_rule_excuses_units_it_does_not_apply_to :: "externals \<Rightarrow> unit_uid \<Rightarrow> bool" where
  "sampling_rule_excuses_units_it_does_not_apply_to x uid \<longleftrightarrow>
     (let h = (harness_new uid [DataCapture] Quarantine)\<lparr>h_dcps := [fx_torque_dcp True FirstOff]\<rparr> in
      \<not> is_completed (harness_advance x (h\<lparr>h_unit := (h_unit h)\<lparr>u_index_in_job := 0\<rparr>\<rparr>))
      \<and> is_completed (harness_advance x (h\<lparr>h_unit := (h_unit h)\<lparr>u_index_in_job := 5\<rparr>\<rparr>)))"

definition test_gate_requires_a_recorded_pass :: "externals \<Rightarrow> unit_uid \<Rightarrow> bool" where
  "test_gate_requires_a_recorded_pass x uid \<longleftrightarrow>
     (let h = harness_new uid [TestPass ''EOL''] Quarantine;
          failed = h\<lparr>h_verdicts := bt_insert ''EOL'' V_Fail (h_verdicts h)\<rparr>;
          passed = failed\<lparr>h_verdicts := bt_insert ''EOL'' V_Pass (h_verdicts failed)\<rparr>
      in first_reason_says ''no verdict'' (harness_advance x h)
         \<and> first_reason_says ''failed'' (harness_advance x failed)
         \<and> is_completed (harness_advance x passed))"

lemma capture_tests:
  "data_capture_passes_when_readings_are_in_limits x uid" "data_capture_blocks_a_missing_mandatory_reading x uid"
  "optional_reading_may_be_absent x uid" "sampling_rule_excuses_units_it_does_not_apply_to x uid"
  "test_gate_requires_a_recorded_pass x uid"
  by code_simp+

text \<open>The reason of a reading out of limits, whatever the reading prints as.\<close>

lemma outside_limits_reason:
  assumes "applies_to (dcp_sample_rule d) i" and "bt_get captured (dcp_id d) = Some c" and "cv_verdict c = V_Fail"
  shows "\<exists>a b. dcp_problem x captured i d = Some (a @ ''outside limits'' @ b)"
proof -
  have "dcp_problem x captured i d = Some ((dcp_name d @ '' = '' @ canonical x (cv_value c) @ '' is '')
      @ ''outside limits'' @ ('' '' @ debug_option (dbg_f64 x) (lim_min (dcp_limits d)) @ ''..''
      @ debug_option (dbg_f64 x) (lim_max (dcp_limits d))))"
    using assms by (simp add: dcp_problem_def)
  then show ?thesis
    by blast
qed

lemma out_of_limits_test: "data_capture_blocks_an_out_of_limits_reading x uid"
proof -
  let ?h = "fx_capture uid True [fx_reading 18 V_Fail]"
  let ?captured = "bt_collect (map (\<lambda>c. (cv_dcp_id c, c)) (h_captured ?h))"
  have "bt_get ?captured (dcp_id (fx_torque_dcp True Every)) = Some (fx_reading 18 V_Fail)"
    "applies_to (dcp_sample_rule (fx_torque_dcp True Every)) (u_index_in_job (h_unit ?h))"
    "cv_verdict (fx_reading 18 V_Fail) = V_Fail"
    by (simp_all add: fx_capture_def fx_reading_def fx_torque_dcp_def test_torque_dcp_def bt_collect_def bt_get_def)
  then obtain a b where problem: "dcp_problem x ?captured (u_index_in_job (h_unit ?h)) (fx_torque_dcp True Every)
      = Some (a @ ''outside limits'' @ b)"
    using outside_limits_reason by blast
  then have "failure_reasons (harness_advance x ?h)
      = [(''DATA_CAPTURE: '' @ a) @ ''outside limits'' @ b]"
    by (simp add: harness_advance_def try_advance_def operation_def gate_data_capture_def fx_capture_def
        harness_new_def test_route_def fx_route_op_def fail_def List.map_filter_def Let_def)
  then show ?thesis
    unfolding data_capture_blocks_an_out_of_limits_reading_def first_reason_says_def
    by (simp only: list.case contains_middle)
qed

section \<open>Marks\<close>

definition fx_marked :: "unit_uid \<Rightarrow> mark_verification option \<Rightarrow> harness" where
  "fx_marked uid m = (harness_new uid [MarkVerified] Quarantine)\<lparr>h_mark := m\<rparr>"

definition fx_read :: "externals \<Rightarrow> unit_uid \<Rightarrow> char option \<Rightarrow> mark_verification option" where
  "fx_read x uid grade = Some \<lparr>mv_decoded = unit_uid_display x uid, mv_grade = grade\<rparr>"

definition mark_gate_requires_a_read_back :: "externals \<Rightarrow> unit_uid \<Rightarrow> bool" where
  "mark_gate_requires_a_read_back x uid \<longleftrightarrow>
     first_reason_says ''not read back'' (harness_advance x (fx_marked uid None))"

definition mark_gate_passes_when_the_read_back_matches :: "externals \<Rightarrow> unit_uid \<Rightarrow> bool" where
  "mark_gate_passes_when_the_read_back_matches x uid \<longleftrightarrow>
     is_completed (harness_advance x (fx_marked uid (fx_read x uid None)))"

definition a_readable_mark_carrying_the_wrong_identity_never_advances ::
  "externals \<Rightarrow> unit_uid \<Rightarrow> unit_uid \<Rightarrow> bool" where
  "a_readable_mark_carrying_the_wrong_identity_never_advances x uid stray \<longleftrightarrow>
     (let a = harness_advance x (fx_marked uid (fx_read x stray None)) in
      \<not> is_completed a \<and> first_reason_says ''but this unit is'' a)"

definition fx_graded :: "externals \<Rightarrow> unit_uid \<Rightarrow> char option \<Rightarrow> harness" where
  "fx_graded x uid grade =
     (fx_marked uid (fx_read x uid grade))\<lparr>h_revision := fx_revision LaserDpm (Some CHR ''C'')\<rparr>"

definition mark_grade_below_the_revision_minimum_is_rejected :: "externals \<Rightarrow> unit_uid \<Rightarrow> bool" where
  "mark_grade_below_the_revision_minimum_is_rejected x uid \<longleftrightarrow>
     first_reason_says ''below the minimum'' (harness_advance x (fx_graded x uid (Some CHR ''D'')))
     \<and> is_completed (harness_advance x (fx_graded x uid (Some CHR ''B'')))"

definition revision_requiring_a_grade_rejects_a_reader_that_cannot_grade ::
  "externals \<Rightarrow> unit_uid \<Rightarrow> bool" where
  "revision_requiring_a_grade_rejects_a_reader_that_cannot_grade x uid \<longleftrightarrow>
     first_reason_says ''reported none'' (harness_advance x (fx_graded x uid None))"

definition unmarked_revision_is_not_gated_on_a_mark :: "externals \<Rightarrow> unit_uid \<Rightarrow> bool" where
  "unmarked_revision_is_not_gated_on_a_mark x uid \<longleftrightarrow>
     is_completed (harness_advance x
       ((harness_new uid [MarkVerified] Quarantine)\<lparr>h_revision := fx_revision NoMark None\<rparr>))"

lemma marked_advance:
  "harness_advance x (fx_marked uid m) = (let g = gate_mark_verified x ''MARK_VERIFIED''
      \<lparr>oc_unit = test_unit uid InProcess, oc_revision = fx_revision Label None,
       oc_route = test_route [fx_route_op 10 200 [] [MarkVerified] Quarantine],
       oc_operation = fx_route_op 10 200 [] [MarkVerified] Quarantine,
       oc_operation_def = fx_op_def 200 ''assemble'' None, oc_station = station_with [200],
       oc_operator = Some (fx_operator [900]), oc_completed = {}, oc_scanned_identity = Some uid,
       oc_component_scans = [], oc_captured = [], oc_dcps = [], oc_test_verdicts = [],
       oc_mark_verification = m, oc_attempt = 1\<rparr>
     in if gr_passed g then Adv_Completed [g] [] [] True else Adv_Blocked [g] [g] DQuarantine)"
  by (simp add: harness_advance_def fx_marked_def harness_new_def test_unit_def try_advance_def operation_def
      test_route_def fx_route_op_def Let_def ready_operations_def is_complete_def)

lemma mark_tests:
  "mark_gate_requires_a_read_back x uid" "unmarked_revision_is_not_gated_on_a_mark x uid"
  by code_simp+

lemma mark_reads:
  "mark_gate_passes_when_the_read_back_matches x uid"
  "unit_uid_display x stray \<noteq> unit_uid_display x uid \<Longrightarrow>
     a_readable_mark_carrying_the_wrong_identity_never_advances x uid stray"
proof -
  show "mark_gate_passes_when_the_read_back_matches x uid"
    by (simp add: mark_gate_passes_when_the_read_back_matches_def marked_advance Let_def fx_read_def
        gate_mark_verified_def fx_revision_def test_unit_def)
  assume stray: "unit_uid_display x stray \<noteq> unit_uid_display x uid"
  let ?a = "harness_advance x (fx_marked uid (fx_read x stray None))"
  have blocked: "\<not> is_completed ?a" and reasons: "failure_reasons ?a =
      [(''MARK_VERIFIED: mark decoded as '' @ unit_uid_display x stray @ '' '') @ ''but this unit is''
        @ '' '' @ unit_uid_display x uid]"
    using stray by (simp_all add: marked_advance Let_def fx_read_def gate_mark_verified_def fx_revision_def
        test_unit_def fail_def pass_def)
  have "first_reason_says ''but this unit is'' ?a"
    unfolding first_reason_says_def reasons by (simp only: list.case contains_middle)
  with blocked show "a_readable_mark_carrying_the_wrong_identity_never_advances x uid stray"
    by (simp add: a_readable_mark_carrying_the_wrong_identity_never_advances_def)
qed

lemma graded_advance:
  "harness_advance x (fx_graded x uid grade) =
     (case grade of
        None \<Rightarrow> let g = fail ''MARK_VERIFIED'' ''revision requires grade C but the reader reported none''
          in Adv_Blocked [g] [g] DQuarantine
      | Some a \<Rightarrow>
          if a > CHR ''C''
          then let g = fail ''MARK_VERIFIED'' (''mark graded '' @ [a] @ '', below the minimum C for this revision'')
            in Adv_Blocked [g] [g] DQuarantine
          else Adv_Completed [pass ''MARK_VERIFIED''] [] [] True)"
  by (cases grade)
    (simp_all add: harness_advance_def fx_graded_def fx_marked_def harness_new_def test_unit_def try_advance_def
      operation_def test_route_def fx_route_op_def Let_def ready_operations_def is_complete_def fx_read_def
      gate_mark_verified_def fx_revision_def)

lemma grade_tests:
  "mark_grade_below_the_revision_minimum_is_rejected x uid"
  "revision_requiring_a_grade_rejects_a_reader_that_cannot_grade x uid"
proof -
  show "mark_grade_below_the_revision_minimum_is_rejected x uid"
    unfolding mark_grade_below_the_revision_minimum_is_rejected_def graded_advance by code_simp
  show "revision_requiring_a_grade_rejects_a_reader_that_cannot_grade x uid"
    unfolding revision_requiring_a_grade_rejects_a_reader_that_cannot_grade_def graded_advance by code_simp
qed

section \<open>The interlock\<close>

definition interlock_fires_only_after_every_other_gate_is_green :: "externals \<Rightarrow> unit_uid \<Rightarrow> bool" where
  "interlock_fires_only_after_every_other_gate_is_green x uid \<longleftrightarrow>
     (let h = (harness_new uid [Identity, DataCapture, InterlockOut 42] Quarantine)
            \<lparr>h_dcps := [fx_torque_dcp True Every]\<rparr>
      in (case harness_advance x h of
            Adv_Blocked evaluated _ _ \<Rightarrow> ''INTERLOCK_OUT'' \<notin> set (map gr_gate evaluated)
          | Adv_Completed _ _ _ _ \<Rightarrow> False)
         \<and> (case harness_advance x (h\<lparr>h_captured := [fx_reading 12 V_Pass]\<rparr>) of
            Adv_Completed _ effects _ _ \<Rightarrow> effects = [ReleaseInterlock 42]
          | Adv_Blocked _ _ _ \<Rightarrow> False))"

lemma interlock_test: "interlock_fires_only_after_every_other_gate_is_green x uid"
  by (simp add: interlock_fires_only_after_every_other_gate_is_green_def harness_advance_def harness_new_def
      try_advance_def operation_def test_route_def fx_route_op_def Let_def gate_identity_def test_unit_def
      gate_data_capture_def fx_torque_dcp_def test_torque_dcp_def fx_reading_def dcp_problem_def
      bt_collect_def bt_get_def List.map_filter_def pass_def fail_def)

section \<open>Failure paths\<close>

text \<open>The disposition a blocked attempt is given.\<close>

fun blocked_disposition :: "advance \<Rightarrow> disposition option" where
  "blocked_disposition (Adv_Blocked _ _ d) = Some d"
| "blocked_disposition (Adv_Completed _ _ _ _) = None"

definition fx_unscanned :: "unit_uid \<Rightarrow> failure_path \<Rightarrow> harness" where
  "fx_unscanned uid failure = (harness_new uid [Identity] failure)\<lparr>h_scanned := None\<rparr>"

definition retry_counts_down_then_quarantines :: "externals \<Rightarrow> unit_uid \<Rightarrow> bool" where
  "retry_counts_down_then_quarantines x uid \<longleftrightarrow>
     (let h = fx_unscanned uid (Retry 3) in
      list_all (\<lambda>(attempt, remaining).
          blocked_disposition (harness_advance x (h\<lparr>h_attempt := attempt\<rparr>)) = Some (DRetry remaining))
        [(1, 2), (2, 1)]
      \<and> blocked_disposition (harness_advance x (h\<lparr>h_attempt := 3\<rparr>)) = Some DQuarantine)"

definition rework_path_returns_the_unit_and_voids_the_invalidated_work :: "externals \<Rightarrow> unit_uid \<Rightarrow> bool" where
  "rework_path_returns_the_unit_and_voids_the_invalidated_work x uid =
     (case blocked_disposition (harness_advance x (fx_unscanned uid (Rework 10 [10, 20]))) of
        None \<Rightarrow> False
      | Some d \<Rightarrow> d = DRework 10 [10, 20]
          \<and> (case apply_disposition x (test_unit uid InProcess) d of
               Inl _ \<Rightarrow> False
             | Inr u \<Rightarrow> u_state u = Reworking \<and> u_current_operation u = Some 10))"

definition scrap_path_retires_the_unit_permanently :: "externals \<Rightarrow> unit_uid \<Rightarrow> bool" where
  "scrap_path_retires_the_unit_permanently x uid =
     (case blocked_disposition (harness_advance x (fx_unscanned uid Scrap)) of
        None \<Rightarrow> False
      | Some d \<Rightarrow>
          (case apply_disposition x (test_unit uid InProcess) d of
             Inl _ \<Rightarrow> False
           | Inr u \<Rightarrow> u_state u = Scrapped \<and> \<not> is_ok (apply_disposition x u DQuarantine)))"

lemma failure_path_tests:
  "retry_counts_down_then_quarantines x uid" "rework_path_returns_the_unit_and_voids_the_invalidated_work x uid"
  "scrap_path_retires_the_unit_permanently x uid"
  by code_simp+

section \<open>Station topology\<close>

text \<open>The sequence number of the operation a station resolves.\<close>

definition resolved_seq ::
  "route \<Rightarrow> unit_uid \<Rightarrow> station \<Rightarrow> operation_seq set \<Rightarrow> core_error + operation_seq" where
  "resolved_seq r uid st completed = map_sum id ro_seq (resolve_operation r (test_unit uid InProcess) st completed)"

definition fx_plain_op :: "operation_seq \<Rightarrow> row_id \<Rightarrow> operation_seq list \<Rightarrow> route_operation" where
  "fx_plain_op sq i preds = fx_route_op sq i preds [] Quarantine"

definition a_single_station_can_run_an_entire_route :: "unit_uid \<Rightarrow> bool" where
  "a_single_station_can_run_an_entire_route uid \<longleftrightarrow>
     (let r = test_route [fx_plain_op 10 OP_DEF_MARK [], fx_plain_op 20 OP_DEF_ASSY [10],
            fx_plain_op 30 OP_DEF_TEST [20]];
          st = station_with [OP_DEF_MARK, OP_DEF_ASSY, OP_DEF_TEST]
      in validate r = Some (Inr ())
         \<and> fold (\<lambda>expected (good, completed).
               case resolved_seq r uid st completed of
                 Inl _ \<Rightarrow> (False, completed)
               | Inr sq \<Rightarrow> (good \<and> sq = expected, insert sq completed))
             [10, 20, 30] (True, {}) = (True, {30, 20, 10})
         \<and> is_complete r {30, 20, 10})"

definition one_operation_duplicated_across_parallel_stations :: "unit_uid \<Rightarrow> bool" where
  "one_operation_duplicated_across_parallel_stations uid \<longleftrightarrow>
     (let r = test_route [fx_plain_op 10 OP_DEF_ASSY []] in
      list_all (\<lambda>(i, name).
          resolved_seq r uid ((station_with [OP_DEF_ASSY])\<lparr>station_id := i, station_code := test_code name\<rparr>) {}
            = Inr 10)
        [(1, ''ST-01''), (2, ''ST-02''), (3, ''ST-03'')])"

definition a_station_not_equipped_for_the_next_operation_is_told_so :: "unit_uid \<Rightarrow> bool" where
  "a_station_not_equipped_for_the_next_operation_is_told_so uid =
     (case resolved_seq (test_route [fx_plain_op 10 OP_DEF_TEST []]) uid (station_with [OP_DEF_ASSY]) {} of
        Inl e \<Rightarrow> contains ''ST-01'' (core_error_display e)
      | Inr _ \<Rightarrow> False)"

definition a_retired_station_accepts_no_new_work :: "unit_uid \<Rightarrow> bool" where
  "a_retired_station_accepts_no_new_work uid \<longleftrightarrow>
     \<not> is_ok (resolved_seq (test_route [fx_plain_op 10 OP_DEF_ASSY []]) uid
       ((station_with [OP_DEF_ASSY])\<lparr>station_active := False\<rparr>) {})"

definition a_scrapped_unit_is_never_offered_work :: "unit_uid \<Rightarrow> bool" where
  "a_scrapped_unit_is_never_offered_work uid \<longleftrightarrow>
     \<not> is_ok (resolve_operation (test_route [fx_plain_op 10 OP_DEF_ASSY []]) (test_unit uid Scrapped)
       (station_with [OP_DEF_ASSY]) {})"

definition parallel_branches_are_both_offered_then_the_join_opens :: "unit_uid \<Rightarrow> bool" where
  "parallel_branches_are_both_offered_then_the_join_opens uid \<longleftrightarrow>
     (let r = test_route [fx_plain_op 10 OP_DEF_MARK [], fx_plain_op 20 OP_DEF_ASSY [10],
            fx_plain_op 30 OP_DEF_TEST [10], fx_plain_op 40 OP_DEF_MARK [20, 30]]
      in validate r = Some (Inr ())
         \<and> resolved_seq r uid (station_with [OP_DEF_ASSY]) {10} = Inr 20
         \<and> resolved_seq r uid (station_with [OP_DEF_TEST]) {10} = Inr 30
         \<and> \<not> is_ok (resolved_seq r uid (station_with [OP_DEF_MARK]) {10, 20})
         \<and> resolved_seq r uid (station_with [OP_DEF_MARK]) {10, 20, 30} = Inr 40)"

lemma topology_tests:
  "a_single_station_can_run_an_entire_route uid" "one_operation_duplicated_across_parallel_stations uid"
  "a_station_not_equipped_for_the_next_operation_is_told_so uid" "a_retired_station_accepts_no_new_work uid"
  "a_scrapped_unit_is_never_offered_work uid" "parallel_branches_are_both_offered_then_the_join_opens uid"
  by code_simp+

section \<open>End to end\<close>

text \<open>A route of five operations under every gate, walked from birth to completion.\<close>

definition gates_by_seq :: "(operation_seq \<times> row_id \<times> gate list) list" where
  "gates_by_seq =
     [(10, OP_DEF_MARK, [Identity, MarkVerified]),
      (20, OP_DEF_ASSY, [Identity, OperatorAuth, Precondition, ComponentVerify [BOM_SCREW]]),
      (30, OP_DEF_ASSY, [Precondition, DataCapture]),
      (40, OP_DEF_TEST, [Precondition, TestPass ''EOL'']),
      (50, OP_DEF_TEST, [Precondition, InterlockOut 42])]"

definition five_route :: route where
  "five_route = test_route (map (\<lambda>(i, sq, k, gates).
       fx_route_op sq k (if i = 0 then [] else [fst (gates_by_seq ! (i - 1))]) gates Quarantine)
     (List.enumerate 0 gates_by_seq))"

definition five_context ::
  "externals \<Rightarrow> traced_unit \<Rightarrow> operation_seq set \<Rightarrow> route_operation \<Rightarrow> row_id \<Rightarrow> operation_context" where
  "five_context x u completed op k =
     \<lparr>oc_unit = u, oc_revision = fx_revision Label None, oc_route = five_route, oc_operation = op,
      oc_operation_def = fx_op_def k ''op'' None,
      oc_station = station_with [OP_DEF_MARK, OP_DEF_ASSY, OP_DEF_TEST],
      oc_operator = Some (fx_operator [SKILL_TORQUE]), oc_completed = completed,
      oc_scanned_identity = Some (u_uid u), oc_component_scans = [fx_scan ''SCR-M6-20'' (Some BOM_SCREW)],
      oc_captured = [fx_reading 12 V_Pass], oc_dcps = [fx_torque_dcp True Every],
      oc_test_verdicts = bt_insert ''EOL'' V_Pass [],
      oc_mark_verification = fx_read x (u_uid u) None, oc_attempt = 1\<rparr>"

text \<open>One turn of the loop; \<open>None\<close> is a panic of the test.\<close>

definition five_turn ::
  "externals \<Rightarrow> operation_seq \<times> row_id \<times> gate list \<Rightarrow> traced_unit \<times> operation_seq set \<times> effect list
     \<Rightarrow> (traced_unit \<times> operation_seq set \<times> effect list) option" where
  "five_turn x item state =
     (let (sq, k, _) = item; (u, completed, released) = state in
      case resolve_operation five_route u (station_with [OP_DEF_MARK, OP_DEF_ASSY, OP_DEF_TEST]) completed of
        Inl _ \<Rightarrow> None
      | Inr op \<Rightarrow>
          if ro_seq op \<noteq> sq then None
          else (case try_advance x (five_context x u completed op k) of
              Adv_Blocked _ _ _ \<Rightarrow> None
            | Adv_Completed _ effects _ route_complete \<Rightarrow>
                (case (if route_complete then transition_to x u Completed else Inr u) of
                   Inl _ \<Rightarrow> None
                 | Inr u' \<Rightarrow> Some (u', insert sq completed, released @ effects))))"

definition a_unit_runs_a_five_operation_route_with_every_gate_type :: "externals \<Rightarrow> unit_uid \<Rightarrow> bool" where
  "a_unit_runs_a_five_operation_route_with_every_gate_type x uid =
     (validate five_route = Some (Inr ())
      \<and> (case transition_to x (test_unit uid Born) InProcess of
           Inl _ \<Rightarrow> False
         | Inr u \<Rightarrow>
             (case fold (\<lambda>item state. Option.bind state (five_turn x item)) gates_by_seq (Some (u, {}, [])) of
                None \<Rightarrow> False
              | Some (u', completed, released) \<Rightarrow>
                  u_state u' = Completed \<and> is_complete five_route completed
                  \<and> released = [ReleaseInterlock 42])))"

definition tracking_modes_are_all_representable :: bool where
  "tracking_modes_are_all_representable \<longleftrightarrow> length [Serialised, LotTracked, NonTracked] = 3"

text \<open>The operations of the route, and which of them the only station resolves after the first \<open>k\<close>.\<close>

lemma five_resolves:
  "resolve_operation five_route (test_unit uid InProcess) (station_with [100, 200, 300]) {}
     = Inr (rt_operations five_route ! 0)"
  "resolve_operation five_route (test_unit uid InProcess) (station_with [100, 200, 300]) {10}
     = Inr (rt_operations five_route ! 1)"
  "resolve_operation five_route (test_unit uid InProcess) (station_with [100, 200, 300]) {20, 10}
     = Inr (rt_operations five_route ! 2)"
  "resolve_operation five_route (test_unit uid InProcess) (station_with [100, 200, 300]) {30, 20, 10}
     = Inr (rt_operations five_route ! 3)"
  "resolve_operation five_route (test_unit uid InProcess) (station_with [100, 200, 300]) {40, 30, 20, 10}
     = Inr (rt_operations five_route ! 4)"
  by code_simp+

lemma five_operations:
  "rt_operations five_route ! 0 = fx_route_op 10 100 [] [Identity, MarkVerified] Quarantine"
  "rt_operations five_route ! 1 = fx_route_op 20 200 [10]
     [Identity, OperatorAuth, Precondition, ComponentVerify [11]] Quarantine"
  "rt_operations five_route ! 2 = fx_route_op 30 200 [20] [Precondition, DataCapture] Quarantine"
  "rt_operations five_route ! 3 = fx_route_op 40 300 [30] [Precondition, TestPass ''EOL''] Quarantine"
  "rt_operations five_route ! 4 = fx_route_op 50 300 [40] [Precondition, InterlockOut 42] Quarantine"
  by code_simp+

text \<open>Every gate of the route holds once the operations before its own are done.\<close>

lemma five_gates:
  assumes "u_uid u = uid" and "u_index_in_job u = 0" and "set (ro_predecessors op) \<subseteq> completed"
    and "set (ro_gates op) \<subseteq> {Identity, OperatorAuth, Precondition, ComponentVerify [11], DataCapture,
      TestPass ''EOL'', MarkVerified, InterlockOut 42}"
  shows "entry_gates_hold x (five_context x u completed op k)"
proof -
  let ?ctx = "five_context x u completed op k"
  have "dcp_satisfied ?ctx (fx_torque_dcp True Every)"
    by (simp add: dcp_satisfied_def last_captured_def five_context_def fx_torque_dcp_def test_torque_dcp_def
        fx_reading_def)
  then have "gate_holds x ?ctx g"
    if "g \<in> {Identity, OperatorAuth, Precondition, ComponentVerify [11], DataCapture, TestPass ''EOL'',
      MarkVerified, InterlockOut 42}" for g
    using that assms(3)
    by (auto simp: five_context_def fx_operator_def fx_op_def_def fx_scan_def bt_get_def fx_read_def
        grade_ok_def fx_revision_def)
  then show ?thesis
    using assms(4) by (auto simp: entry_gates_hold_def five_context_def)
qed

lemma five_advance:
  assumes "u_index_in_job u = 0" and "set (ro_predecessors op) \<subseteq> completed"
    and "set (ro_gates op) \<subseteq> {Identity, OperatorAuth, Precondition, ComponentVerify [11], DataCapture,
      TestPass ''EOL'', MarkVerified, InterlockOut 42}"
  shows "\<exists>gates ready. try_advance x (five_context x u completed op k)
    = Adv_Completed gates (fst (emit_outputs (filter is_output (ro_gates op)))) ready
        (is_complete five_route (insert (ro_seq op) completed))"
  using failures_empty_iff [of x "five_context x u completed op k"] five_gates [OF refl assms, of x k]
  by (simp add: try_advance_def Let_def five_context_def split: prod.splits)

lemma five_turn_advances:
  assumes "resolve_operation five_route (test_unit uid InProcess) (station_with [100, 200, 300]) completed = Inr op"
    and "op = fx_route_op sq i preds gates Quarantine" and "set preds \<subseteq> completed"
    and "set gates \<subseteq> {Identity, OperatorAuth, Precondition, ComponentVerify [11], DataCapture,
      TestPass ''EOL'', MarkVerified, InterlockOut 42}"
  shows "five_turn x (sq, k, g) (test_unit uid InProcess, completed, released)
    = Some (test_unit uid (if is_complete five_route (insert sq completed) then Completed else InProcess),
        insert sq completed, released @ fst (emit_outputs (filter is_output gates)))"
proof -
  obtain results ready where "try_advance x (five_context x (test_unit uid InProcess) completed op k)
    = Adv_Completed results (fst (emit_outputs (filter is_output gates))) ready
        (is_complete five_route (insert sq completed))"
    using five_advance [of "test_unit uid InProcess" op completed x k] assms(3,4)
    by (auto simp: test_unit_def fx_route_op_def assms(2))
  then show ?thesis
    using assms(1) by (simp add: five_turn_def assms(2) fx_route_op_def transition_to_def test_unit_def)
qed

lemma five_complete:
  "\<not> is_complete five_route {10}" "\<not> is_complete five_route {20, 10}" "\<not> is_complete five_route {30, 20, 10}"
  "\<not> is_complete five_route {40, 30, 20, 10}" "is_complete five_route {50, 40, 30, 20, 10}"
  by code_simp+

lemma five_turns:
  "five_turn x (gates_by_seq ! 0) (test_unit uid InProcess, {}, []) = Some (test_unit uid InProcess, {10}, [])"
  "five_turn x (gates_by_seq ! 1) (test_unit uid InProcess, {10}, []) = Some (test_unit uid InProcess, {20, 10}, [])"
  "five_turn x (gates_by_seq ! 2) (test_unit uid InProcess, {20, 10}, [])
     = Some (test_unit uid InProcess, {30, 20, 10}, [])"
  "five_turn x (gates_by_seq ! 3) (test_unit uid InProcess, {30, 20, 10}, [])
     = Some (test_unit uid InProcess, {40, 30, 20, 10}, [])"
  "five_turn x (gates_by_seq ! 4) (test_unit uid InProcess, {40, 30, 20, 10}, [])
     = Some (test_unit uid Completed, {50, 40, 30, 20, 10}, [ReleaseInterlock 42])"
  by (simp_all add: gates_by_seq_def five_complete five_turn_advances [OF five_resolves(1) five_operations(1)]
      five_turn_advances [OF five_resolves(2) five_operations(2)]
      five_turn_advances [OF five_resolves(3) five_operations(3)]
      five_turn_advances [OF five_resolves(4) five_operations(4)]
      five_turn_advances [OF five_resolves(5) five_operations(5)])

lemma end_to_end_test: "a_unit_runs_a_five_operation_route_with_every_gate_type x uid"
proof -
  obtain a b c d e where items: "gates_by_seq = [a, b, c, d, e]"
    by (simp add: gates_by_seq_def)
  have "gates_by_seq ! 0 = a" "gates_by_seq ! 1 = b" "gates_by_seq ! 2 = c" "gates_by_seq ! 3 = d"
    "gates_by_seq ! 4 = e"
    by (simp_all add: items)
  note turns = five_turns [where x = x and uid = uid, unfolded this]
  have "fold (\<lambda>item state. Option.bind state (five_turn x item)) gates_by_seq
      (Some (test_unit uid InProcess, {}, []))
    = Some (test_unit uid Completed, {50, 40, 30, 20, 10}, [ReleaseInterlock 42])"
    by (simp only: items fold_simps turns Option.bind.bind_lunit)
  moreover have "validate five_route = Some (Inr ())"
    by code_simp
  ultimately show ?thesis
    by (simp add: a_unit_runs_a_five_operation_route_with_every_gate_type_def transition_to_def test_unit_def
        five_complete)
qed

lemma tracking_test: "tracking_modes_are_all_representable"
  by code_simp

end
