(* ===== verification/ConformTrust.thy ===== *)
theory ConformTrust
  imports ConformCore Billing
begin

text \<open>
  Signatures and licences against the program's own unit tests: the \<open>tests\<close> modules of
  \<open>crates/trace-sign/src/lib.rs\<close>, \<open>crates/trace-license/src/clockguard.rs\<close> and \<open>entitlement.rs\<close>.  Each test is a
  definition with the test's name; its arguments are the packages it runs on, the keys it generates and the instant
  it starts at, and the lemmas say under which documented behaviour of the packages the model passes it.
\<close>

section \<open>Signatures\<close>

record test_doc =
  doc_tier :: string
  doc_seats :: u32
  doc_node :: string

text \<open>The derived serialisation of the tests' document.\<close>

definition doc_to_value :: "test_doc \<Rightarrow> string + json" where
  "doc_to_value d = Inr (JObject [(''tier'', JString (doc_tier d)),
     (''seats'', JNumber (show_word (doc_seats d))), (''node'', JString (doc_node d))])"

definition the_doc :: test_doc where
  "the_doc = \<lparr>doc_tier = ''PROFESSIONAL'', doc_seats = 12, doc_node = ''edge-01''\<rparr>"

definition forged_doc :: test_doc where
  "forged_doc = \<lparr>doc_tier = ''ENTERPRISE'', doc_seats = 9999, doc_node = ''edge-01''\<rparr>"

text \<open>What a test does with the envelope it unwraps.\<close>

definition with_signed ::
  "sign_lib \<Rightarrow> ('d \<Rightarrow> string + json) \<Rightarrow> issuer \<Rightarrow> 'd \<Rightarrow> (envelope \<Rightarrow> bool) \<Rightarrow> bool" where
  "with_signed L to_value iss d P = (case sign L to_value iss d of Inl _ \<Rightarrow> False | Inr env \<Rightarrow> P env)"

definition sign_then_verify_round_trips :: "sign_lib \<Rightarrow> (string \<Rightarrow> string + test_doc) \<Rightarrow> issuer \<Rightarrow> bool" where
  "sign_then_verify_round_trips L from_slice signer =
     with_signed L doc_to_value signer the_doc (\<lambda>env.
       trusted_verify L from_slice (verifier L signer) env = Inr the_doc)"

definition a_different_key_does_not_verify ::
  "sign_lib \<Rightarrow> (string \<Rightarrow> string + test_doc) \<Rightarrow> issuer \<Rightarrow> issuer \<Rightarrow> bool" where
  "a_different_key_does_not_verify L from_slice signer attacker =
     with_signed L doc_to_value signer the_doc (\<lambda>env.
       trusted_verify L from_slice (verifier L attacker) env = Inl BadSignature)"

definition tampering_with_the_payload_is_caught ::
  "sign_lib \<Rightarrow> (string \<Rightarrow> string + test_doc) \<Rightarrow> issuer \<Rightarrow> bool" where
  "tampering_with_the_payload_is_caught L from_slice signer =
     with_signed L doc_to_value signer the_doc (\<lambda>env.
       case canonical_json L doc_to_value forged_doc of
         Inl _ \<Rightarrow> False
       | Inr forged \<Rightarrow>
           trusted_verify L from_slice (verifier L signer) (env\<lparr>env_payload_b64 := b64_encode L forged\<rparr>)
             = Inl BadSignature)"

text \<open>\<open>raw[0] ^= 0xff\<close>.\<close>

definition flip_first :: "string \<Rightarrow> string" where
  "flip_first s = char_of (255 - (of_char (hd s) :: nat)) # tl s"

definition tampering_with_the_signature_is_caught ::
  "sign_lib \<Rightarrow> (string \<Rightarrow> string + test_doc) \<Rightarrow> issuer \<Rightarrow> bool" where
  "tampering_with_the_signature_is_caught L from_slice signer =
     with_signed L doc_to_value signer the_doc (\<lambda>env.
       case b64_decode L (env_signature_b64 env) of
         Inl _ \<Rightarrow> False
       | Inr raw \<Rightarrow> \<not> is_ok (trusted_verify L from_slice (verifier L signer)
           (env\<lparr>env_signature_b64 := b64_encode L (flip_first raw)\<rparr>)))"

definition canonical_json_sorts_keys_so_field_order_cannot_break_a_signature :: "sign_lib \<Rightarrow> bool" where
  "canonical_json_sorts_keys_so_field_order_cannot_break_a_signature L \<longleftrightarrow>
     (let a = JObject [(''b'', JNumber ''2''), (''a'', JNumber ''1'')];
          b = JObject [(''a'', JNumber ''1''), (''b'', JNumber ''2'')]
      in canonical_json L Inr a = canonical_json L Inr b
         \<and> canonical_json L Inr a =
             Inr (''{'' @ CHR 0x22 # ''a'' @ CHR 0x22 # '':1,'' @ CHR 0x22 # ''b'' @ CHR 0x22 # '':2}''))"

definition canonical_json_is_recursive :: "sign_lib \<Rightarrow> bool" where
  "canonical_json_is_recursive L \<longleftrightarrow>
     (let quoted = \<lambda>s. CHR 0x22 # s @ [CHR 0x22];
          v = JObject [(''z'', JObject [(''y'', JNumber ''1''),
                (''x'', JArray [JObject [(''b'', JNumber ''1''), (''a'', JNumber ''2'')]])]),
              (''a'', JNumber ''3'')]
      in canonical_json L Inr v = Inr (''{'' @ quoted ''a'' @ '':3,'' @ quoted ''z'' @ '':{'' @ quoted ''x''
           @ '':[{'' @ quoted ''a'' @ '':2,'' @ quoted ''b'' @ '':1}],'' @ quoted ''y'' @ '':1}}''))"

definition unsupported_algorithm_is_rejected_rather_than_ignored ::
  "sign_lib \<Rightarrow> (string \<Rightarrow> string + test_doc) \<Rightarrow> issuer \<Rightarrow> bool" where
  "unsupported_algorithm_is_rejected_rather_than_ignored L from_slice signer =
     with_signed L doc_to_value signer the_doc (\<lambda>env.
       case trusted_verify L from_slice (verifier L signer) (env\<lparr>env_alg := ''none''\<rparr>) of
         Inl (UnsupportedAlgorithm _) \<Rightarrow> True
       | _ \<Rightarrow> False)"

definition public_key_round_trips_through_hex ::
  "sign_lib \<Rightarrow> (string \<Rightarrow> string + test_doc) \<Rightarrow> issuer \<Rightarrow> bool" where
  "public_key_round_trips_through_hex L from_slice signer =
     (case trusted_from_hex L (public_key_hex L signer) of
        Inl _ \<Rightarrow> False
      | Inr v \<Rightarrow> trusted_to_hex L v = public_key_hex L signer
          \<and> with_signed L doc_to_value signer the_doc (\<lambda>env.
              trusted_verify L from_slice v env = Inr the_doc \<and> env_key_id env = key_id L v))"

definition peek_does_not_imply_trust :: "sign_lib \<Rightarrow> (string \<Rightarrow> string + json) \<Rightarrow> issuer \<Rightarrow> bool" where
  "peek_does_not_imply_trust L from_json signer =
     with_signed L doc_to_value signer the_doc (\<lambda>env.
       case peek_unverified L from_json env of
         Inl _ \<Rightarrow> False
       | Inr seen \<Rightarrow> str_field seen ''tier'' = Some ''PROFESSIONAL'')"

text \<open>The bytes that are signed for a document of the tests.\<close>

definition doc_text :: "sign_lib \<Rightarrow> test_doc \<Rightarrow> string" where
  "doc_text L d = write_canonical L (projr (doc_to_value d))"

lemma with_signed_doc:
  "with_signed L doc_to_value (Issuer seed) d P =
     P \<lparr>env_alg = ALG_ED25519, env_payload_b64 = b64_encode L (doc_text L d),
        env_signature_b64 = b64_encode L (ed_sign L seed (doc_text L d)),
        env_key_id = short_key_id L (ed_public L seed)\<rparr>"
  by (simp add: with_signed_def canonical_json_def doc_to_value_def doc_text_def del: write_canonical.simps)

text \<open>What the hex encoder and the key type document of the public key of a seed.\<close>

definition key_laws :: "sign_lib \<Rightarrow> bool" where
  "key_laws L \<longleftrightarrow> (\<forall>s. hex_decode L (trim (hex_encode L s)) = Inr s)
     \<and> (\<forall>seed. length (ed_public L seed) = 32 \<and> ed_point L (ed_public L seed) = Inr (ed_public L seed))"

lemma key_from_hex: "key_laws L \<Longrightarrow> trusted_from_hex L (public_key_hex L iss) = Inr (verifier L iss)"
  by (cases iss) (simp add: key_laws_def trusted_from_hex_def trusted_from_bytes_def)

lemma sign_tests:
  assumes "sign_laws L" and "serde_laws L doc_to_value from_slice"
  shows "sign_then_verify_round_trips L from_slice signer"
    "key_laws L \<Longrightarrow> public_key_round_trips_through_hex L from_slice signer"
    "unsupported_algorithm_is_rejected_rather_than_ignored L from_slice signer"
proof -
  obtain seed where signer: "signer = Issuer seed"
    by (cases signer)
  obtain env where env: "sign L doc_to_value signer the_doc = Inr env"
    by (simp add: signer canonical_json_def doc_to_value_def)
  have trusted_to_hex: "trusted_to_hex L (verifier L signer) = public_key_hex L signer"
    by (simp add: signer)
  note good = signed_verifies [OF assms env]
  then show "sign_then_verify_round_trips L from_slice signer"
    by (simp add: sign_then_verify_round_trips_def with_signed_def env)
  show "public_key_round_trips_through_hex L from_slice signer" if "key_laws L"
    using good key_from_hex [OF that, of signer] trusted_to_hex
    by (simp add: public_key_round_trips_through_hex_def with_signed_def env)
  show "unsupported_algorithm_is_rejected_rather_than_ignored L from_slice signer"
    by (simp add: unsupported_algorithm_is_rejected_rather_than_ignored_def signer with_signed_doc
        trusted_verify_def ALG_ED25519_def)
qed

text \<open>
  The forgeries of the tests are caught unless the scheme accepts them: a signature of one text under another key,
  for another text, or with a byte changed.
\<close>

lemma forgery_tests:
  assumes "sign_laws L"
  shows "\<not> ed_verify L (ed_public L attacker) (doc_text L the_doc) (ed_sign L seed (doc_text L the_doc)) \<Longrightarrow>
      a_different_key_does_not_verify L from_slice (Issuer seed) (Issuer attacker)"
    "\<not> ed_verify L (ed_public L seed) (doc_text L forged_doc) (ed_sign L seed (doc_text L the_doc)) \<Longrightarrow>
      tampering_with_the_payload_is_caught L from_slice (Issuer seed)"
    "\<not> ed_verify L (ed_public L seed) (doc_text L the_doc) (flip_first (ed_sign L seed (doc_text L the_doc))) \<Longrightarrow>
      tampering_with_the_signature_is_caught L from_slice (Issuer seed)"
proof -
  note laws = assms [unfolded sign_laws_def]
  have "length (flip_first (ed_sign L seed m)) = 64" for m
    using laws by (simp add: flip_first_def)
  then show "\<not> ed_verify L (ed_public L seed) (doc_text L the_doc) (flip_first (ed_sign L seed (doc_text L the_doc))) \<Longrightarrow>
      tampering_with_the_signature_is_caught L from_slice (Issuer seed)"
    using laws by (simp add: tampering_with_the_signature_is_caught_def with_signed_doc trusted_verify_def decode_b64_def)
  show "\<not> ed_verify L (ed_public L attacker) (doc_text L the_doc) (ed_sign L seed (doc_text L the_doc)) \<Longrightarrow>
      a_different_key_does_not_verify L from_slice (Issuer seed) (Issuer attacker)"
    using laws by (simp add: a_different_key_does_not_verify_def with_signed_doc trusted_verify_def decode_b64_def)
  have "canonical_json L doc_to_value forged_doc = Inr (doc_text L forged_doc)"
    by (simp add: canonical_json_def doc_text_def doc_to_value_def del: write_canonical.simps)
  then show "\<not> ed_verify L (ed_public L seed) (doc_text L forged_doc) (ed_sign L seed (doc_text L the_doc)) \<Longrightarrow>
      tampering_with_the_payload_is_caught L from_slice (Issuer seed)"
    using laws by (simp add: tampering_with_the_payload_is_caught_def with_signed_doc trusted_verify_def decode_b64_def)
qed

text \<open>What the JSON encoder documents of plain keys and of numbers.\<close>

definition plain_scalars :: "sign_lib \<Rightarrow> bool" where
  "plain_scalars L \<longleftrightarrow>
     (\<forall>c \<in> set ''abxyz''. json_text L (JString [c]) = [CHR 0x22, c, CHR 0x22]) \<and> (\<forall>n. json_text L (JNumber n) = n)"

lemma canonical_tests:
  assumes "plain_scalars L"
  shows "canonical_json_sorts_keys_so_field_order_cannot_break_a_signature L" "canonical_json_is_recursive L"
proof -
  have scalar: "json_text L (JString ''a'') = [CHR 0x22, CHR ''a'', CHR 0x22]"
    "json_text L (JString ''b'') = [CHR 0x22, CHR ''b'', CHR 0x22]"
    "json_text L (JString ''x'') = [CHR 0x22, CHR ''x'', CHR 0x22]"
    "json_text L (JString ''y'') = [CHR 0x22, CHR ''y'', CHR 0x22]"
    "json_text L (JString ''z'') = [CHR 0x22, CHR ''z'', CHR 0x22]" "json_text L (JNumber n) = n" for n
    using assms by (simp_all add: plain_scalars_def)
  have order: "CHR ''a'' < CHR ''b''" "CHR ''a'' < CHR ''z''" "CHR ''x'' < CHR ''y''"
    "\<not> CHR ''b'' < CHR ''a''" "\<not> CHR ''z'' < CHR ''a''" "\<not> CHR ''y'' < CHR ''x''"
    by code_simp+
  show "canonical_json_sorts_keys_so_field_order_cannot_break_a_signature L" "canonical_json_is_recursive L"
    by (simp_all add: canonical_json_sorts_keys_so_field_order_cannot_break_a_signature_def
        canonical_json_is_recursive_def canonical_json_def scalar order)
qed

lemma peek_test:
  assumes "sign_laws L" and "\<And>d. from_json (doc_text L d) = doc_to_value d"
  shows "peek_does_not_imply_trust L from_json signer"
  using assms by (cases signer)
    (simp add: peek_does_not_imply_trust_def with_signed_doc peek_unverified_def decode_b64_def sign_laws_def
      doc_to_value_def str_field_def the_doc_def)

section \<open>The clock guard\<close>

definition time_moving_forward_is_trusted_and_advances_the_mark :: "externals \<Rightarrow> bool" where
  "time_moving_forward_is_trusted_and_advances_the_mark x =
     (case observe x (guard_new (test_instant 0)) (test_instant 3600) of
        ((used, v), g) \<Rightarrow> used = test_instant 3600 \<and> is_trusted v \<and> high_water g = test_instant 3600)"

definition small_backward_correction_is_tolerated :: "externals \<Rightarrow> bool" where
  "small_backward_correction_is_tolerated x =
     (case observe x (guard_new (test_instant 1000)) (test_instant 940) of
        ((used, v), g) \<Rightarrow> used = test_instant 940 \<and> is_trusted v \<and> high_water g = test_instant 1000)"

definition winding_the_clock_back_a_year_does_not_buy_licence_validity :: "externals \<Rightarrow> bool" where
  "winding_the_clock_back_a_year_does_not_buy_licence_validity x =
     (case observe x (bump (guard_new (test_instant 0)) (test_instant 31536000)) (test_instant 0) of
        ((used, v), g) \<Rightarrow> used = test_instant 31536000 \<and> v = WoundBack 31536000)"

definition a_wound_back_clock_still_yields_a_usable_instant :: "externals \<Rightarrow> bool" where
  "a_wound_back_clock_still_yields_a_usable_instant x =
     (case observe x (guard_new (test_instant 10000)) (test_instant 0) of
        ((used, _), _) \<Rightarrow> test_instant 10000 \<le> used)"

lemma clockguard_tests:
  assumes "whole_seconds x"
  shows "time_moving_forward_is_trusted_and_advances_the_mark x" "small_backward_correction_is_tolerated x"
    "winding_the_clock_back_a_year_does_not_buy_licence_validity x"
    "a_wound_back_clock_still_yields_a_usable_instant x"
  using assms
  by (simp_all add: time_moving_forward_is_trusted_and_advances_the_mark_def
      small_backward_correction_is_tolerated_def winding_the_clock_back_a_year_does_not_buy_licence_validity_def
      a_wound_back_clock_still_yields_a_usable_instant_def whole_seconds_def observe_def guard_new_def bump_def
      test_instant_def nanos_per_sec_def trunc_div_def DEFAULT_TOLERANCE_SECS_def is_trusted_def)

section \<open>Entitlements\<close>

text \<open>The packages a licence test runs on.\<close>

record licence_packages =
  lp_lib :: sign_lib
  lp_to_value :: "entitlement \<Rightarrow> string + json"
  lp_from_slice :: "string \<Rightarrow> string + entitlement"
  lp_calendar :: calendar

definition licence_packages_ok :: "utc \<Rightarrow> licence_packages \<Rightarrow> bool" where
  "licence_packages_ok last_instant P \<longleftrightarrow> sign_laws (lp_lib P)
     \<and> serde_laws (lp_lib P) (lp_to_value P) (lp_from_slice P)
     \<and> (\<forall>en. is_ok (lp_to_value P en)) \<and> calendar_laws last_instant (lp_calendar P)"

definition test_ent :: "utc \<Rightarrow> int \<Rightarrow> u32 \<Rightarrow> string option \<Rightarrow> entitlement" where
  "test_ent now expires_in_days grace_days node =
     \<lparr>en_schema = SCHEMA_VERSION, en_license_id = ''01J000000000000000000000AA'', en_tenant_code = ''ACME'',
      en_node_id = node, en_tier = Professional,
      en_limits = \<lparr>max_stations = 12, max_plants = 1, max_users = 50\<rparr>,
      en_features = {DeviceDrivers, RemoteDiagnostics}, en_issued_at = now - 30 * nanos_per_day,
      en_not_before = now - 30 * nanos_per_day, en_expires_at = now + expires_in_days * nanos_per_day,
      en_grace_days = grace_days, en_customer_name = ''Acme Pumps Pvt Ltd''\<rparr>"

text \<open>Signing an entitlement, and what the box answers that checks it with the verifier of a key.\<close>

definition checked ::
  "licence_packages \<Rightarrow> issuer \<Rightarrow> issuer \<Rightarrow> entitlement \<Rightarrow> string \<Rightarrow> utc
     \<Rightarrow> ((license_error + license_status) option \<Rightarrow> bool) \<Rightarrow> bool" where
  "checked P signer trusted en node now answer =
     with_signed (lp_lib P) (lp_to_value P) signer en (\<lambda>env.
       answer (license_verify (lp_lib P) (lp_from_slice P) (lp_calendar P) env
         (verifier (lp_lib P) trusted) node now))"

text \<open>The test unwraps the status, or the error.\<close>

fun granted :: "(license_status \<Rightarrow> bool) \<Rightarrow> (license_error + license_status) option \<Rightarrow> bool" where
  "granted Q (Some (Inr st)) = Q st"
| "granted Q _ = False"

fun refused :: "(license_error \<Rightarrow> bool) \<Rightarrow> (license_error + license_status) option \<Rightarrow> bool" where
  "refused Q (Some (Inl e)) = Q e"
| "refused Q _ = False"

definition a_valid_licence_grants_everything_in_its_tier :: "licence_packages \<Rightarrow> issuer \<Rightarrow> utc \<Rightarrow> bool" where
  "a_valid_licence_grants_everything_in_its_tier P iss now =
     checked P iss iss (test_ent now 30 30 (Some ''box-1'')) ''box-1'' now (granted (\<lambda>st.
       ls_enforcement st = Full \<and> has_feature st DeviceDrivers \<and> \<not> has_feature st CloudSync
       \<and> status_max_stations st = Some 12 \<and> \<not> should_warn (ls_enforcement st)))"

definition expiry_enters_grace_and_production_is_untouched :: "licence_packages \<Rightarrow> issuer \<Rightarrow> utc \<Rightarrow> bool" where
  "expiry_enters_grace_and_production_is_untouched P iss now =
     checked P iss iss (test_ent now (- 5) 30 (Some ''box-1'')) ''box-1'' now (granted (\<lambda>st.
       ls_enforcement st = Grace \<and> allows_production (ls_enforcement st)
       \<and> allows_configuration_change (ls_enforcement st) \<and> should_warn (ls_enforcement st)
       \<and> contains ''Production is unaffected'' (ls_summary st)))"

definition past_grace_restricts_configuration_but_never_production ::
  "licence_packages \<Rightarrow> issuer \<Rightarrow> utc \<Rightarrow> bool" where
  "past_grace_restricts_configuration_but_never_production P iss now =
     checked P iss iss (test_ent now (- 60) 30 (Some ''box-1'')) ''box-1'' now (granted (\<lambda>st.
       ls_enforcement st = Restricted \<and> allows_production (ls_enforcement st)
       \<and> \<not> allows_configuration_change (ls_enforcement st) \<and> \<not> allows_cloud_sync (ls_enforcement st)))"

definition an_unlicensed_box_still_runs_the_line :: bool where
  "an_unlicensed_box_still_runs_the_line \<longleftrightarrow>
     ls_enforcement unlicensed = Restricted \<and> allows_production (ls_enforcement unlicensed)
     \<and> \<not> has_feature unlicensed DeviceDrivers"

definition every_enforcement_level_allows_production :: bool where
  "every_enforcement_level_allows_production \<longleftrightarrow> list_all allows_production [Full, Grace, Restricted]"

definition a_licence_for_another_box_is_rejected :: "licence_packages \<Rightarrow> issuer \<Rightarrow> utc \<Rightarrow> bool" where
  "a_licence_for_another_box_is_rejected P iss now =
     checked P iss iss (test_ent now 30 30 (Some ''box-1'')) ''box-2'' now
       (refused (\<lambda>e. case e of WrongNode _ _ \<Rightarrow> True | _ \<Rightarrow> False))"

definition an_unlocked_licence_runs_on_any_box :: "licence_packages \<Rightarrow> issuer \<Rightarrow> utc \<Rightarrow> bool" where
  "an_unlocked_licence_runs_on_any_box P iss now =
     checked P iss iss (test_ent now 30 30 None) ''any-box'' now (granted (\<lambda>_. True))"

definition a_forged_licence_is_rejected :: "licence_packages \<Rightarrow> issuer \<Rightarrow> issuer \<Rightarrow> utc \<Rightarrow> bool" where
  "a_forged_licence_is_rejected P iss attacker now =
     checked P attacker iss (test_ent now 3650 30 (Some ''box-1'')) ''box-1'' now
       (refused (\<lambda>e. case e of LicSignature _ \<Rightarrow> True | _ \<Rightarrow> False))"

definition a_newer_schema_is_refused_rather_than_partially_understood ::
  "licence_packages \<Rightarrow> issuer \<Rightarrow> utc \<Rightarrow> bool" where
  "a_newer_schema_is_refused_rather_than_partially_understood P iss now =
     checked P iss iss ((test_ent now 30 30 (Some ''box-1''))\<lparr>en_schema := SCHEMA_VERSION + 1\<rparr>) ''box-1'' now
       (refused (\<lambda>e. case e of UnsupportedSchema _ _ \<Rightarrow> True | _ \<Rightarrow> False))"

definition a_future_dated_licence_is_not_yet_in_force :: "licence_packages \<Rightarrow> issuer \<Rightarrow> utc \<Rightarrow> bool" where
  "a_future_dated_licence_is_not_yet_in_force P iss now =
     checked P iss iss ((test_ent now 60 30 (Some ''box-1''))\<lparr>en_not_before := now + 10 * nanos_per_day\<rparr>)
       ''box-1'' now (granted (\<lambda>st. ls_enforcement st = Restricted \<and> allows_production (ls_enforcement st)))"

definition node_id_does_not_leak_the_raw_fingerprint :: "sign_lib \<Rightarrow> bool" where
  "node_id_does_not_leak_the_raw_fingerprint L \<longleftrightarrow>
     (let i = node_id_from_fingerprint L ''SERIAL-ABC-123:MAC-00:11:22'' in
      length i = 16 \<and> \<not> contains ''SERIAL'' i
      \<and> i = node_id_from_fingerprint L ''SERIAL-ABC-123:MAC-00:11:22'')"

lemma checked_own:
  assumes "licence_packages_ok last_instant P"
  shows "checked P iss iss en node now answer = answer
    (if en_schema en > SCHEMA_VERSION then Some (Inl (UnsupportedSchema (en_schema en) SCHEMA_VERSION))
     else if en_node_id en = None \<or> en_node_id en = Some node
     then map_option Inr (license_evaluate (lp_calendar P) en now)
     else Some (Inl (WrongNode (the (en_node_id en)) node)))"
proof -
  obtain v where v: "lp_to_value P en = Inr v"
    using assms unfolding licence_packages_ok_def is_ok_iff by blast
  obtain env where env: "sign (lp_lib P) (lp_to_value P) iss en = Inr env"
    by (cases iss) (simp add: v canonical_json_def)
  have "trusted_verify (lp_lib P) (lp_from_slice P) (verifier (lp_lib P) iss) env = Inr en"
    using signed_verifies [OF _ _ env] assms by (simp add: licence_packages_ok_def)
  then show ?thesis
    by (auto simp: checked_def with_signed_def env license_verify_def split: option.splits)
qed

text \<open>The evaluation of an entitlement whose grace period the calendar represents.\<close>

lemma evaluated:
  assumes "licence_packages_ok last_instant P"
    and "en_expires_at en + uint (en_grace_days en) * nanos_per_day \<le> last_instant"
  shows "\<exists>st. license_evaluate (lp_calendar P) en now = Some st \<and> ls_entitlement st = Some en
    \<and> ls_enforcement st = level_at en now
    \<and> (level_at en now = Grace \<longrightarrow> contains ''Production is unaffected'' (ls_summary st))"
proof -
  let ?cal = "lp_calendar P" and ?until = "en_expires_at en + uint (en_grace_days en) * nanos_per_day"
  have laws: "calendar_laws last_instant ?cal"
    using assms(1) by (simp add: licence_packages_ok_def)
  then obtain st where st: "license_evaluate ?cal en now = Some st" "ls_entitlement st = Some en"
      "ls_enforcement st = level_at en now"
    using license_evaluate_cases [OF laws, of en now] assms(2) by (auto split: option.splits)
  have "contains ''Production is unaffected'' (ls_summary st)" if "level_at en now = Grace"
  proof -
    have "cal_add_days ?cal (en_expires_at en) (uint (en_grace_days en)) = Some ?until"
      using laws assms(2) by (simp add: calendar_laws_def)
    moreover have "\<not> now < en_not_before en" "\<not> now \<le> en_expires_at en" "now \<le> ?until"
      using that by (auto simp: level_at_def split: if_splits)
    ultimately have "ls_summary st = (''Licence expired on '' @ cal_date ?cal (en_expires_at en)
        @ ''. Grace period ends '' @ cal_date ?cal ?until @ ''. '') @ ''Production is unaffected'' @ ''.''"
      using st(1) by (auto simp: license_evaluate_def)
    then show ?thesis
      by (simp only: contains_middle)
  qed
  with st show ?thesis
    by blast
qed

lemma entitlement_tests:
  assumes "licence_packages_ok last_instant P" and "now + 4000 * nanos_per_day \<le> last_instant"
  shows "a_valid_licence_grants_everything_in_its_tier P iss now"
    "expiry_enters_grace_and_production_is_untouched P iss now"
    "past_grace_restricts_configuration_but_never_production P iss now"
    "a_licence_for_another_box_is_rejected P iss now" "an_unlocked_licence_runs_on_any_box P iss now"
    "a_newer_schema_is_refused_rather_than_partially_understood P iss now"
    "a_future_dated_licence_is_not_yet_in_force P iss now"
proof -
  have level: "\<exists>st. license_evaluate (lp_calendar P) en now = Some st \<and> ls_entitlement st = Some en
      \<and> ls_enforcement st = level_at en now
      \<and> (level_at en now = Grace \<longrightarrow> contains ''Production is unaffected'' (ls_summary st))"
    if "en_expires_at en \<le> now + 100 * nanos_per_day" "en_grace_days en = 30" for en
    using evaluated [OF assms(1), of en now] assms(2) that by (simp add: nanos_per_day_def nanos_per_sec_def)
  note defs = test_ent_def level_at_def nanos_per_day_def nanos_per_sec_def SCHEMA_VERSION_def has_feature_def
    status_max_stations_def should_warn_def allows_production_def allows_configuration_change_def
    allows_cloud_sync_def
  show "a_valid_licence_grants_everything_in_its_tier P iss now"
    using level [of "test_ent now 30 30 (Some ''box-1'')"]
    by (auto simp: a_valid_licence_grants_everything_in_its_tier_def checked_own [OF assms(1)] defs)
  show "expiry_enters_grace_and_production_is_untouched P iss now"
    using level [of "test_ent now (- 5) 30 (Some ''box-1'')"]
    by (auto simp: expiry_enters_grace_and_production_is_untouched_def checked_own [OF assms(1)] defs)
  show "past_grace_restricts_configuration_but_never_production P iss now"
    using level [of "test_ent now (- 60) 30 (Some ''box-1'')"]
    by (auto simp: past_grace_restricts_configuration_but_never_production_def checked_own [OF assms(1)] defs)
  show "an_unlocked_licence_runs_on_any_box P iss now"
    using level [of "test_ent now 30 30 None"]
    by (auto simp: an_unlocked_licence_runs_on_any_box_def checked_own [OF assms(1)] defs)
  show "a_future_dated_licence_is_not_yet_in_force P iss now"
    using level [of "(test_ent now 60 30 (Some ''box-1''))\<lparr>en_not_before := now + 10 * nanos_per_day\<rparr>"]
    by (auto simp: a_future_dated_licence_is_not_yet_in_force_def checked_own [OF assms(1)] defs)
  show "a_licence_for_another_box_is_rejected P iss now"
    "a_newer_schema_is_refused_rather_than_partially_understood P iss now"
    by (simp_all add: a_licence_for_another_box_is_rejected_def
        a_newer_schema_is_refused_rather_than_partially_understood_def checked_own [OF assms(1)] defs)
qed

lemma unlicensed_tests: "an_unlicensed_box_still_runs_the_line" "every_enforcement_level_allows_production"
  by code_simp+

lemma forged_licence_test:
  assumes "licence_packages_ok last_instant P" and "lp_to_value P (test_ent now 3650 30 (Some ''box-1'')) = Inr v"
    and "\<not> ed_verify (lp_lib P) (ed_public (lp_lib P) seed) (write_canonical (lp_lib P) v)
      (ed_sign (lp_lib P) attacker (write_canonical (lp_lib P) v))"
  shows "a_forged_licence_is_rejected P (Issuer seed) (Issuer attacker) now"
  using assms
  by (simp add: a_forged_licence_is_rejected_def checked_def with_signed_def canonical_json_def
      license_verify_def trusted_verify_def decode_b64_def licence_packages_ok_def sign_laws_def
      del: write_canonical.simps)

lemma contains_set: "contains needle hay \<Longrightarrow> set needle \<subseteq> set hay"
proof (induction hay)
  case (Cons c cs)
  then show ?case
    using set_take_subset [of "length needle" "c # cs"] by auto
qed simp

lemma node_id_test:
  assumes "hex_laws L" and "\<And>s. length (hex_encode L s) = 2 * length s" and "\<And>s. length (sha256 L s) = 32"
  shows "node_id_does_not_leak_the_raw_fingerprint L"
proof -
  let ?i = "node_id_from_fingerprint L ''SERIAL-ABC-123:MAC-00:11:22''"
  have "CHR ''S'' \<notin> set ?i"
    using assms(1) by (fastforce simp: node_id_from_fingerprint_def hex_laws_def list_all_iff is_digit_char_def)
  then have "\<not> contains ''SERIAL'' ?i"
    using contains_set by fastforce
  then show ?thesis
    using assms(2,3) by (simp add: node_id_does_not_leak_the_raw_fingerprint_def Let_def
        node_id_from_fingerprint_def)
qed

end
