(* ===== verification/ConformBilling.thy ===== *)
theory ConformBilling
  imports ConformTrust StripeApi
begin

text \<open>
  The billing control plane against the program's own unit tests: the \<open>tests\<close> modules of \<open>catalog.rs\<close>,
  \<open>issue.rs\<close>, \<open>webhook.rs\<close> and \<open>client.rs\<close> of \<open>crates/trace-billing/src/\<close>.
\<close>

section \<open>The catalogue\<close>

definition the_example_catalog_resolves_each_tier :: bool where
  "the_example_catalog_resolves_each_tier \<longleftrightarrow>
     map_sum id pl_tier (plan_for_price example_catalog ''price_starter_monthly'') = Inr Starter
     \<and> map_sum id pl_tier (plan_for_price example_catalog ''price_enterprise_monthly'') = Inr Enterprise
     \<and> length (catalog_all example_catalog) = 3"

definition an_unmapped_price_is_an_error_not_a_silent_downgrade :: bool where
  "an_unmapped_price_is_an_error_not_a_silent_downgrade =
     (case plan_for_price example_catalog ''price_created_in_dashboard_last_week'' of
        Inl (UnknownPrice _) \<Rightarrow> True
      | _ \<Rightarrow> False)"

definition tiers_are_ordered_so_upgrades_are_comparable :: bool where
  "tiers_are_ordered_so_upgrades_are_comparable \<longleftrightarrow> Starter < Professional \<and> Professional < Enterprise"

definition laser_marking_is_modelled_even_though_it_is_deferred :: bool where
  "laser_marking_is_modelled_even_though_it_is_deferred =
     (case plan_for_price example_catalog ''price_enterprise_monthly'' of
        Inr ent \<Rightarrow> LaserMarking \<in> set (pl_features ent)
      | Inl _ \<Rightarrow> False)"

lemma catalog_tests:
  "the_example_catalog_resolves_each_tier" "an_unmapped_price_is_an_error_not_a_silent_downgrade"
  "tiers_are_ordered_so_upgrades_are_comparable" "laser_marking_is_modelled_even_though_it_is_deferred"
  by code_simp+

section \<open>Issuing\<close>

definition test_req :: "subscription_status \<Rightarrow> utc \<Rightarrow> string \<Rightarrow> issue_request" where
  "test_req status period_end price =
     \<lparr>rq_subscription = \<lparr>subscription_id = ''sub_123'', customer_id = ''cus_123'', price_id = price,
        sub_status = status, current_period_end = period_end, cancel_at_period_end = False\<rparr>,
      rq_tenant_code = ''ACME'', rq_customer_name = ''Acme Pumps Pvt Ltd'', rq_node_id = Some ''box-1'',
      rq_license_id = ''01J000000000000000000000AA''\<rparr>"

definition test_issuer :: "issuer \<Rightarrow> entitlement_issuer" where
  "test_issuer signer = \<lparr>ei_issuer = signer, ei_catalog = example_catalog\<rparr>"

text \<open>Issue, read the public key from its text, and ask the box.\<close>

definition issued_answer ::
  "licence_packages \<Rightarrow> billing_lib \<Rightarrow> issuer \<Rightarrow> issue_request \<Rightarrow> utc \<Rightarrow> string \<Rightarrow> utc
     \<Rightarrow> ((license_error + license_status) option \<Rightarrow> bool) \<Rightarrow> bool" where
  "issued_answer P B signer req now node later answer =
     (case issue (lp_lib P) B (lp_to_value P) (test_issuer signer) req now of
        Some (Inr env) \<Rightarrow>
          (case trusted_from_hex (lp_lib P) (issuer_public_key_hex (lp_lib P) (test_issuer signer)) of
             Inl _ \<Rightarrow> False
           | Inr key \<Rightarrow> answer (license_verify (lp_lib P) (lp_from_slice P) (lp_calendar P) env key node later))
      | _ \<Rightarrow> False)"

abbreviation days :: "int \<Rightarrow> duration" where
  "days n \<equiv> n * nanos_per_day"

definition an_active_subscription_yields_a_full_licence_the_edge_box_accepts ::
  "licence_packages \<Rightarrow> billing_lib \<Rightarrow> issuer \<Rightarrow> utc \<Rightarrow> bool" where
  "an_active_subscription_yields_a_full_licence_the_edge_box_accepts P B signer now =
     issued_answer P B signer (test_req Active (now + days 30) ''price_professional_monthly'') now ''box-1'' now
       (granted (\<lambda>st. ls_enforcement st = Full \<and> map_option en_tier (ls_entitlement st) = Some Professional
         \<and> has_feature st DeviceDrivers \<and> status_max_stations st = Some 15))"

definition a_past_due_subscription_still_grants_the_full_period ::
  "licence_packages \<Rightarrow> billing_lib \<Rightarrow> issuer \<Rightarrow> utc \<Rightarrow> bool" where
  "a_past_due_subscription_still_grants_the_full_period P B signer now =
     issued_answer P B signer (test_req PastDue (now + days 10) ''price_starter_monthly'') now ''box-1'' now
       (granted (\<lambda>st. ls_enforcement st = Full))"

definition a_cancelled_subscription_expires_now_and_enters_grace ::
  "licence_packages \<Rightarrow> billing_lib \<Rightarrow> issuer \<Rightarrow> utc \<Rightarrow> bool" where
  "a_cancelled_subscription_expires_now_and_enters_grace P B signer now =
     issued_answer P B signer (test_req Canceled (now + days 30) ''price_starter_monthly'') now ''box-1''
       (now + nanos_per_sec)
       (granted (\<lambda>st. ls_enforcement st = Grace \<and> allows_production (ls_enforcement st)))"

definition a_cancelled_subscription_never_extends_past_what_was_paid_for ::
  "licence_packages \<Rightarrow> billing_lib \<Rightarrow> issuer \<Rightarrow> utc \<Rightarrow> bool" where
  "a_cancelled_subscription_never_extends_past_what_was_paid_for P B signer now =
     issued_answer P B signer (test_req Canceled (now + days 30) ''price_starter_monthly'') now ''box-1'' now
       (granted (\<lambda>st. case ls_entitlement st of None \<Rightarrow> False | Some en \<Rightarrow> en_expires_at en \<le> now))"

definition long_after_cancellation_configuration_locks_but_production_does_not ::
  "licence_packages \<Rightarrow> billing_lib \<Rightarrow> issuer \<Rightarrow> utc \<Rightarrow> bool" where
  "long_after_cancellation_configuration_locks_but_production_does_not P B signer now =
     issued_answer P B signer (test_req Unpaid now ''price_starter_monthly'') now ''box-1'' (now + days 100)
       (granted (\<lambda>st. ls_enforcement st = Restricted \<and> \<not> allows_configuration_change (ls_enforcement st)
         \<and> allows_production (ls_enforcement st)))"

definition an_entitlement_is_locked_to_the_box_it_was_issued_for ::
  "licence_packages \<Rightarrow> billing_lib \<Rightarrow> issuer \<Rightarrow> utc \<Rightarrow> bool" where
  "an_entitlement_is_locked_to_the_box_it_was_issued_for P B signer now =
     issued_answer P B signer (test_req Active (now + days 30) ''price_starter_monthly'') now ''some-other-box'' now
       (refused (\<lambda>_. True))"

definition an_unmapped_price_refuses_to_issue :: "licence_packages \<Rightarrow> billing_lib \<Rightarrow> issuer \<Rightarrow> utc \<Rightarrow> bool" where
  "an_unmapped_price_refuses_to_issue P B signer now =
     (case issue (lp_lib P) B (lp_to_value P) (test_issuer signer)
         (test_req Active (now + days 30) ''price_unknown'') now of
        Some (Inl (UnknownPrice _)) \<Rightarrow> True
      | _ \<Rightarrow> False)"

definition a_slightly_slow_box_clock_still_accepts_a_fresh_licence ::
  "licence_packages \<Rightarrow> billing_lib \<Rightarrow> issuer \<Rightarrow> utc \<Rightarrow> bool" where
  "a_slightly_slow_box_clock_still_accepts_a_fresh_licence P B signer now =
     issued_answer P B signer (test_req Active (now + days 30) ''price_starter_monthly'') now ''box-1''
       (now - 6 * 3600 * nanos_per_sec) (granted (\<lambda>st. ls_enforcement st = Full))"

definition entitlement_statuses_map_as_documented :: bool where
  "entitlement_statuses_map_as_documented \<longleftrightarrow>
     is_entitled Active \<and> is_entitled Trialing \<and> is_entitled PastDue \<and> \<not> is_entitled Canceled
     \<and> \<not> is_entitled Unpaid \<and> \<not> is_entitled Paused \<and> \<not> is_entitled Incomplete"

lemma issued_checked:
  assumes "licence_packages_ok last_instant P" and "key_laws (lp_lib P)" and "day_laws B"
    and "bl_day_before B now = Some start" and "plan_for_price example_catalog (price_id (rq_subscription req)) = Inr plan"
  shows "issued_answer P B signer req now node later answer
    = checked P signer signer (entitlement_for plan req (now - nanos_per_day) now) node later answer"
proof -
  have "start = now - nanos_per_day"
    using assms(3,4) by (simp add: day_laws_def)
  moreover obtain v where "lp_to_value P (entitlement_for plan req (now - nanos_per_day) now) = Inr v"
    using assms(1) unfolding licence_packages_ok_def is_ok_iff by blast
  ultimately show ?thesis
    using assms(4,5) key_from_hex [OF assms(2), of signer]
    by (cases signer) (simp add: issued_answer_def issue_def test_issuer_def checked_def with_signed_def
        canonical_json_def issuer_public_key_hex_def)
qed

lemma example_prices:
  "plan_for_price example_catalog ''price_starter_monthly'' = Inr (example_plans ! 0)"
  "plan_for_price example_catalog ''price_professional_monthly'' = Inr (example_plans ! 1)"
  "plan_for_price example_catalog ''price_unknown'' = Inl (UnknownPrice ''price_unknown'')"
  by code_simp+

text \<open>What the box answers for a licence the example issuer issued for its subscription.\<close>

lemma issued_status:
  assumes "licence_packages_ok last_instant P" and "key_laws (lp_lib P)" and "day_laws B"
    and "bl_day_before B now = Some start" and "plan_for_price example_catalog price = Inr plan"
    and "expiry_for (rq_subscription (test_req status period_end price)) now + days (uint (pl_grace_days plan)) \<le> last_instant"
  shows "\<exists>st. ls_entitlement st = Some (entitlement_for plan (test_req status period_end price) (now - nanos_per_day) now)
    \<and> ls_enforcement st
      = level_at (entitlement_for plan (test_req status period_end price) (now - nanos_per_day) now) later
    \<and> (\<forall>Q. issued_answer P B signer (test_req status period_end price) now ''box-1'' later (granted Q) = Q st)"
proof -
  let ?req = "test_req status period_end price"
  let ?en = "entitlement_for plan ?req (now - nanos_per_day) now"
  have "en_expires_at ?en + uint (en_grace_days ?en) * nanos_per_day \<le> last_instant"
    using assms(6) by (simp add: entitlement_for_def)
  from evaluated [OF assms(1) this, of later] obtain st where st: "license_evaluate (lp_calendar P) ?en later = Some st"
      "ls_entitlement st = Some ?en" "ls_enforcement st = level_at ?en later"
    by blast
  have en: "en_schema ?en = SCHEMA_VERSION" "en_node_id ?en = Some ''box-1''"
    by (simp_all add: entitlement_for_def test_req_def)
  have "issued_answer P B signer ?req now ''box-1'' later (granted Q) = Q st" for Q
    using issued_checked [OF assms(1-4), of ?req plan signer "''box-1''" later "granted Q"] assms(5) st(1) en
    by (simp add: checked_own [OF assms(1)] test_req_def)
  then show ?thesis
    using st by blast
qed

lemma issued_grants:
  assumes "licence_packages_ok last_instant P" and "key_laws (lp_lib P)" and "day_laws B"
    and "bl_day_before B now = Some start" and "plan_for_price example_catalog price = Inr plan"
    and "expiry_for (rq_subscription (test_req status period_end price)) now + days (uint (pl_grace_days plan)) \<le> last_instant"
    and "\<And>st. ls_entitlement st = Some (entitlement_for plan (test_req status period_end price) (now - nanos_per_day) now)
      \<Longrightarrow> ls_enforcement st = level_at (entitlement_for plan (test_req status period_end price) (now - nanos_per_day) now) later
      \<Longrightarrow> Q st"
  shows "issued_answer P B signer (test_req status period_end price) now ''box-1'' later (granted Q)"
  using issued_status [OF assms(1-6), of later signer] assms(7) by metis

lemma issued_levels:
  assumes "period_end = now + days n"
  shows "is_entitled status \<Longrightarrow> now - nanos_per_day \<le> later \<Longrightarrow> later \<le> period_end \<Longrightarrow>
      level_at (entitlement_for plan (test_req status period_end price) (now - nanos_per_day) now) later = Full"
    "\<not> is_entitled status \<Longrightarrow> 0 \<le> n \<Longrightarrow> now < later \<Longrightarrow>
      level_at (entitlement_for plan (test_req status period_end price) (now - nanos_per_day) now) later
        = (if later \<le> now + days (uint (pl_grace_days plan)) then Grace else Restricted)"
  using assms
  by (simp_all add: level_at_def entitlement_for_def test_req_def expiry_for_def nanos_per_day_def nanos_per_sec_def)

lemma issue_tests:
  assumes "licence_packages_ok last_instant P" and "key_laws (lp_lib P)" and "day_laws B"
    and "bl_day_before B now = Some start" and "now + days 100 \<le> last_instant"
  shows "an_active_subscription_yields_a_full_licence_the_edge_box_accepts P B signer now"
    "a_past_due_subscription_still_grants_the_full_period P B signer now"
    "a_cancelled_subscription_expires_now_and_enters_grace P B signer now"
    "a_cancelled_subscription_never_extends_past_what_was_paid_for P B signer now"
    "long_after_cancellation_configuration_locks_but_production_does_not P B signer now"
    "a_slightly_slow_box_clock_still_accepts_a_fresh_licence P B signer now"
proof -
  note grants = issued_grants [OF assms(1-4)]
  have plans: "pl_grace_days (example_plans ! 0) = 30" "pl_grace_days (example_plans ! Suc 0) = 30"
    "pl_tier (example_plans ! Suc 0) = Professional" "DeviceDrivers \<in> set (pl_features (example_plans ! Suc 0))"
    "max_stations (pl_limits (example_plans ! Suc 0)) = 15"
    by (simp_all add: example_plans_def)
  have expiry: "expiry_for (rq_subscription (test_req status (now + days n) price)) now
      = (if is_entitled status then now + days n else now)" if "0 \<le> n" for status n price
    using that by (simp add: expiry_for_def test_req_def nanos_per_day_def nanos_per_sec_def)
  have soon: "now + days 30 + days 30 \<le> last_instant" "now + days 10 + days 30 \<le> last_instant"
      "now + days 30 \<le> last_instant" "0 < nanos_per_sec" "nanos_per_sec < days 30" "0 < nanos_per_day"
      "6 * 3600 * nanos_per_sec < nanos_per_day"
    using assms(5) by (simp_all add: nanos_per_day_def nanos_per_sec_def)
  have paid: "is_entitled Active" "is_entitled PastDue" "\<not> is_entitled Canceled" "\<not> is_entitled Unpaid"
    by (simp_all add: is_entitled_def)
  note levels = issued_levels [OF refl]
  show "an_active_subscription_yields_a_full_licence_the_edge_box_accepts P B signer now"
    unfolding an_active_subscription_yields_a_full_licence_the_edge_box_accepts_def
    by (rule grants [OF example_prices(2)])
      (use soon in \<open>simp_all add: expiry plans paid levels has_feature_def status_max_stations_def,
        simp_all add: entitlement_for_def plans\<close>)
  show "a_past_due_subscription_still_grants_the_full_period P B signer now"
    unfolding a_past_due_subscription_still_grants_the_full_period_def
    by (rule grants [OF example_prices(1)]) (use soon in \<open>simp_all add: expiry plans paid levels\<close>)
  show "a_cancelled_subscription_expires_now_and_enters_grace P B signer now"
    unfolding a_cancelled_subscription_expires_now_and_enters_grace_def
    by (rule grants [OF example_prices(1)])
      (use soon in \<open>simp_all add: expiry plans paid levels allows_production_def\<close>)
  show "a_cancelled_subscription_never_extends_past_what_was_paid_for P B signer now"
    unfolding a_cancelled_subscription_never_extends_past_what_was_paid_for_def
    by (rule grants [OF example_prices(1)])
      (use soon in \<open>simp_all add: expiry plans paid, simp_all add: entitlement_for_def expiry paid\<close>)
  show "a_slightly_slow_box_clock_still_accepts_a_fresh_licence P B signer now"
    unfolding a_slightly_slow_box_clock_still_accepts_a_fresh_licence_def
    by (rule grants [OF example_prices(1)]) (use soon in \<open>simp_all add: expiry plans paid levels\<close>)
  have "now = now + days 0"
    by simp
  then have "issued_answer P B signer (test_req Unpaid (now + days 0) ''price_starter_monthly'') now ''box-1'' (now + days 100)
      (granted (\<lambda>st. ls_enforcement st = Restricted \<and> \<not> allows_configuration_change (ls_enforcement st)
         \<and> allows_production (ls_enforcement st)))"
    by (intro grants [OF example_prices(1)])
      (use soon in \<open>simp_all add: expiry plans paid levels allows_production_def allows_configuration_change_def
        del: mult_zero_left add_0_right\<close>)
  then show "long_after_cancellation_configuration_locks_but_production_does_not P B signer now"
    by (simp add: long_after_cancellation_configuration_locks_but_production_does_not_def)
qed

lemma issue_refusal_tests:
  assumes "licence_packages_ok last_instant P" and "key_laws (lp_lib P)" and "day_laws B"
    and "bl_day_before B now = Some start"
  shows "an_entitlement_is_locked_to_the_box_it_was_issued_for P B signer now"
    "an_unmapped_price_refuses_to_issue P B signer now" "entitlement_statuses_map_as_documented"
proof -
  show "an_entitlement_is_locked_to_the_box_it_was_issued_for P B signer now"
    using issued_checked [OF assms, of "test_req Active (now + days 30) ''price_starter_monthly''"
        "example_plans ! 0"] example_prices(1)
    by (simp add: an_entitlement_is_locked_to_the_box_it_was_issued_for_def checked_own [OF assms(1)]
        test_req_def entitlement_for_def)
  show "an_unmapped_price_refuses_to_issue P B signer now"
    using example_prices(3)
    by (simp add: an_unmapped_price_refuses_to_issue_def issue_def test_issuer_def test_req_def)
  show "entitlement_statuses_map_as_documented"
    by code_simp
qed

section \<open>Webhooks\<close>

definition quoted :: "string \<Rightarrow> string" where
  "quoted s = CHR 0x22 # s @ [CHR 0x22]"

text \<open>The body of the tests' event, for the subscription it names.\<close>

definition event_body :: "string \<Rightarrow> string" where
  "event_body sub = ''{'' @ quoted ''id'' @ '':'' @ quoted ''evt_1'' @ '','' @ quoted ''type'' @ '':''
     @ quoted ''customer.subscription.updated'' @ '','' @ quoted ''created'' @ '':1614556800,''
     @ quoted ''data'' @ '':{'' @ quoted ''object'' @ '':{'' @ quoted ''object'' @ '':'' @ quoted ''subscription''
     @ '','' @ quoted ''id'' @ '':'' @ quoted sub @ '','' @ quoted ''status'' @ '':'' @ quoted ''active'' @ ''}}}''"

abbreviation BODY :: string where "BODY \<equiv> event_body ''sub_123''"

text \<open>What reading the body as an event gives.\<close>

definition body_event :: "string \<Rightarrow> stripe_event" where
  "body_event sub = \<lparr>ev_id = ''evt_1'', event_type = ''customer.subscription.updated'', ev_created = 1614556800,
     ev_object = JObject [(''object'', JString ''subscription''), (''id'', JString sub), (''status'', JString ''active'')]\<rparr>"

abbreviation T0 :: int where "T0 \<equiv> 1614556800"

definition at_second :: "int \<Rightarrow> utc" where
  "at_second s = s * nanos_per_sec"

definition a_valid_signature_verifies_and_parses :: "sign_lib \<Rightarrow> billing_lib \<Rightarrow> bool" where
  "a_valid_signature_verifies_and_parses L B =
     (let v = webhook_new ''whsec_test'' in
      case webhook_verify L B v BODY (sign_for_test L B v BODY (of_int T0)) (at_second T0) of
        Inl _ \<Rightarrow> False
      | Inr ev \<Rightarrow> ev_id ev = ''evt_1'' \<and> event_type ev = ''customer.subscription.updated''
          \<and> event_subscription_id ev = Some ''sub_123'')"

definition is_signature_error :: "billing_error + stripe_event \<Rightarrow> bool" where
  "is_signature_error r = (case r of Inl (WebhookSignature _) \<Rightarrow> True | _ \<Rightarrow> False)"

definition a_forged_signature_is_rejected :: "sign_lib \<Rightarrow> billing_lib \<Rightarrow> bool" where
  "a_forged_signature_is_rejected L B \<longleftrightarrow>
     is_signature_error (webhook_verify L B (webhook_new ''whsec_real'') BODY
       (sign_for_test L B (webhook_new ''whsec_guess'') BODY (of_int T0)) (at_second T0))"

definition a_tampered_body_is_rejected :: "sign_lib \<Rightarrow> billing_lib \<Rightarrow> bool" where
  "a_tampered_body_is_rejected L B \<longleftrightarrow>
     (let v = webhook_new ''whsec_test'' in
      \<not> is_ok (webhook_verify L B v (event_body ''sub_EVIL'') (sign_for_test L B v BODY (of_int T0)) (at_second T0)))"

definition an_old_webhook_is_rejected_as_a_replay :: "sign_lib \<Rightarrow> billing_lib \<Rightarrow> bool" where
  "an_old_webhook_is_rejected_as_a_replay L B =
     (let v = webhook_new ''whsec_test'' in
      case webhook_verify L B v BODY (sign_for_test L B v BODY (of_int T0)) (at_second (T0 + 3600)) of
        Inl (WebhookReplay _ _) \<Rightarrow> True
      | _ \<Rightarrow> False)"

definition a_future_dated_webhook_is_also_rejected :: "sign_lib \<Rightarrow> billing_lib \<Rightarrow> bool" where
  "a_future_dated_webhook_is_also_rejected L B \<longleftrightarrow>
     (let v = webhook_new ''whsec_test'' in
      \<not> is_ok (webhook_verify L B v BODY (sign_for_test L B v BODY (of_int (T0 + 3600))) (at_second T0)))"

text \<open>What follows \<open>v1=\<close> in a signed header is the digest.\<close>

definition rotation_works_because_all_v1_signatures_are_checked :: "sign_lib \<Rightarrow> billing_lib \<Rightarrow> bool" where
  "rotation_works_because_all_v1_signatures_are_checked L B \<longleftrightarrow>
     (let old = webhook_new ''whsec_old''; new = webhook_new ''whsec_new'';
          combined = ''t='' @ show_int T0 @ '',v1='' @ webhook_compute L B old (of_int T0) BODY
            @ '',v1='' @ webhook_compute L B new (of_int T0) BODY
      in is_ok (webhook_verify L B old BODY combined (at_second T0))
         \<and> is_ok (webhook_verify L B new BODY combined (at_second T0)))"

definition a_header_with_no_v1_is_rejected :: "sign_lib \<Rightarrow> billing_lib \<Rightarrow> bool" where
  "a_header_with_no_v1_is_rejected L B \<longleftrightarrow>
     is_signature_error (webhook_verify L B (webhook_new ''whsec_test'') BODY ''t=1614556800,v0=deadbeef''
       (at_second T0))"

definition a_malformed_header_is_rejected :: "sign_lib \<Rightarrow> billing_lib \<Rightarrow> bool" where
  "a_malformed_header_is_rejected L B \<longleftrightarrow>
     list_all (\<lambda>header. \<not> is_ok (webhook_verify L B (webhook_new ''whsec_test'') BODY header (at_second T0)))
       ['''', ''garbage'', ''v1=abc'', ''t=notanumber,v1=abc'']"

definition the_secret_never_appears_in_debug_output :: bool where
  "the_secret_never_appears_in_debug_output \<longleftrightarrow>
     (let rendered = webhook_debug (webhook_new ''whsec_super_secret_value'') in
      \<not> contains ''super_secret'' rendered \<and> contains ''redacted'' rendered)"

definition only_entitlement_relevant_events_trigger_reissue :: bool where
  "only_entitlement_relevant_events_trigger_reissue \<longleftrightarrow>
     (let make = \<lambda>ty. \<lparr>ev_id = ''evt'', event_type = ty, ev_created = 0, ev_object = JObject []\<rparr> in
      affects_entitlement (make ''customer.subscription.updated'')
      \<and> affects_entitlement (make ''invoice.payment_failed'')
      \<and> \<not> affects_entitlement (make ''customer.created'') \<and> \<not> affects_entitlement (make ''charge.refunded''))"

text \<open>What \<open>chrono\<close> documents of the timestamp of a whole second.\<close>

definition timestamp_laws :: "billing_lib \<Rightarrow> bool" where
  "timestamp_laws B \<longleftrightarrow> (\<forall>s. 0 \<le> s \<longrightarrow> s < 2 ^ 40 \<longrightarrow> bl_timestamp B (at_second s) = of_int s)"

lemma small_sint: "0 \<le> s \<Longrightarrow> s < 2 ^ 40 \<Longrightarrow> sint (of_int s :: i64) = s"
  by (simp add: signed_of_int signed_take_bit_int_eq_self)

lemma verified_at:
  assumes "hex_laws L" and "timestamp_laws B" and "0 \<le> s" and "s < 2 ^ 40" and "0 \<le> t" and "t < 2 ^ 40"
  shows "webhook_verify L B (webhook_new k) body (sign_for_test L B (webhook_new k) body (of_int t)) (at_second s)
    = (if \<bar>s - t\<bar> \<le> 300 then case bl_event B body of Inl e \<Rightarrow> Inl (BillParse e) | Inr ev \<Rightarrow> Inr ev
       else Inl (WebhookReplay (of_int s - of_int t) 300))"
proof -
  have now: "bl_timestamp B (at_second s) = of_int s"
    using assms by (simp add: timestamp_laws_def)
  have tol: "wv_tolerance (webhook_new k) = 300"
    by (simp add: webhook_new_def DEFAULT_WEBHOOK_TOLERANCE_def)
  have "2 ^ 40 < (2 ^ 62 :: int)"
    by simp
  then show ?thesis
    using webhook_round_trip [OF assms(1) refl, where now = "at_second s" and B = B and ts = "of_int t"
        and v = "webhook_new k"] assms(3-6)
    by (simp add: now tol small_sint del: of_int_power)
qed

lemma webhook_tests:
  assumes "hex_laws L" and "timestamp_laws B" and "bl_event B BODY = Inr (body_event ''sub_123'')"
  shows "a_valid_signature_verifies_and_parses L B" "an_old_webhook_is_rejected_as_a_replay L B"
    "a_future_dated_webhook_is_also_rejected L B"
proof -
  note verified = verified_at [OF assms(1,2)]
  have "event_subscription_id (body_event ''sub_123'') = Some ''sub_123''"
    by code_simp
  then show "a_valid_signature_verifies_and_parses L B"
    using verified [of T0 T0 "''whsec_test''" BODY] assms(3)
    by (simp add: a_valid_signature_verifies_and_parses_def body_event_def)
  show "an_old_webhook_is_rejected_as_a_replay L B"
    using verified [of "T0 + 3600" T0 "''whsec_test''" BODY]
    by (simp add: an_old_webhook_is_rejected_as_a_replay_def)
  show "a_future_dated_webhook_is_also_rejected L B"
    using verified [of T0 "T0 + 3600" "''whsec_test''" BODY]
    by (simp add: a_future_dated_webhook_is_also_rejected_def)
qed

text \<open>A signature made under another secret, or for another body, is refused unless the digests collide.\<close>

lemma mismatched_signature:
  assumes "hex_laws L" and "timestamp_laws B"
    and "webhook_compute L B (webhook_new k) (of_int T0) body \<noteq> webhook_compute L B (webhook_new k') (of_int T0) body'"
  shows "is_signature_error (webhook_verify L B (webhook_new k) body
    (sign_for_test L B (webhook_new k') body' (of_int T0)) (at_second T0))"
proof -
  have "bl_timestamp B (at_second T0) = of_int T0"
    using assms(2) by (simp add: timestamp_laws_def)
  then have "\<not> sint (wrapping_abs (bl_timestamp B (at_second T0) - of_int T0)) > sint (wv_tolerance (webhook_new k))"
    by (simp add: wrapping_abs_def webhook_new_def DEFAULT_WEBHOOK_TOLERANCE_def)
  then show ?thesis
    using assms(3) by (auto simp: is_signature_error_def webhook_verify_def signed_header_parts [OF assms(1)] Let_def)
qed

lemma webhook_forgery_tests:
  assumes "hex_laws L" and "timestamp_laws B"
  shows "webhook_compute L B (webhook_new ''whsec_real'') (of_int T0) BODY
      \<noteq> webhook_compute L B (webhook_new ''whsec_guess'') (of_int T0) BODY \<Longrightarrow> a_forged_signature_is_rejected L B"
    "webhook_compute L B (webhook_new ''whsec_test'') (of_int T0) (event_body ''sub_EVIL'')
      \<noteq> webhook_compute L B (webhook_new ''whsec_test'') (of_int T0) BODY \<Longrightarrow> a_tampered_body_is_rejected L B"
proof -
  have "is_signature_error r \<Longrightarrow> \<not> is_ok r" for r
    by (cases r) (simp_all add: is_signature_error_def)
  then show "webhook_compute L B (webhook_new ''whsec_test'') (of_int T0) (event_body ''sub_EVIL'')
      \<noteq> webhook_compute L B (webhook_new ''whsec_test'') (of_int T0) BODY \<Longrightarrow> a_tampered_body_is_rejected L B"
    unfolding a_tampered_body_is_rejected_def Let_def using mismatched_signature [OF assms] by blast
  show "webhook_compute L B (webhook_new ''whsec_real'') (of_int T0) BODY
      \<noteq> webhook_compute L B (webhook_new ''whsec_guess'') (of_int T0) BODY \<Longrightarrow> a_forged_signature_is_rejected L B"
    unfolding a_forged_signature_is_rejected_def by (rule mismatched_signature [OF assms])
qed

lemma rotated_header:
  assumes "hex_laws L"
  shows "header_parse (''t='' @ show_int (sint ts) @ '',v1='' @ webhook_compute L B v ts b
      @ '',v1='' @ webhook_compute L B w ts b)
    = Inr \<lparr>sh_timestamp = ts, sh_v1 = [webhook_compute L B v ts b, webhook_compute L B w ts b]\<rparr>"
proof -
  let ?t = "''t='' @ show_int (sint ts)"
  let ?d = "\<lambda>w. webhook_compute L B w ts b"
  have d: "CHR '','' \<notin> set (?d w)" "\<forall>c \<in> set (?d w). \<not> is_space c" for w
    using plain_text [of "?d w"] assms by (simp_all add: hex_laws_def webhook_compute_def)
  have "split_on CHR '','' (?t @ '','' @ (''v1='' @ ?d v) @ '','' @ (''v1='' @ ?d w))
      = [?t, ''v1='' @ ?d v, ''v1='' @ ?d w]"
    using split_on_append [of "CHR '',''" ?t "(''v1='' @ ?d v) @ '','' @ (''v1='' @ ?d w)"]
      split_on_append [of "CHR '',''" "''v1='' @ ?d v" "''v1='' @ ?d w"]
      split_on_none [of "CHR '',''" "''v1='' @ ?d w"] show_int_plain [of "sint ts"] d(1) by simp
  moreover have "trim ?t = ?t" "trim (''v1='' @ ?d w) = ''v1='' @ ?d w" for w
    using show_int_plain [of "sint ts"] d(2) by (intro trim_no_space; auto simp: is_space_def)+
  ultimately show ?thesis
    by (simp add: header_parse_def)
qed

lemma rotated_verifies:
  assumes "hex_laws L" and "bl_timestamp B now = ts" and "bl_event B body = Inr ev" and "k = j \<or> k = j'"
  shows "webhook_verify L B (webhook_new k) body (''t='' @ show_int (sint ts)
      @ '',v1='' @ webhook_compute L B (webhook_new j) ts body
      @ '',v1='' @ webhook_compute L B (webhook_new j') ts body) now = Inr ev"
proof -
  have "\<not> sint (wv_tolerance (webhook_new k)) < sint (wrapping_abs 0)"
    by (simp add: wrapping_abs_def webhook_new_def DEFAULT_WEBHOOK_TOLERANCE_def)
  then show ?thesis
    unfolding webhook_verify_def rotated_header [OF assms(1)] using assms(2-4) by auto
qed

lemma rotation_test:
  assumes "hex_laws L" and "timestamp_laws B" and "bl_event B BODY = Inr ev"
  shows "rotation_works_because_all_v1_signatures_are_checked L B"
proof -
  have now: "bl_timestamp B (at_second T0) = of_int T0"
    using assms(2) unfolding timestamp_laws_def by simp
  have t: "show_int T0 = show_int (sint (of_int T0 :: i64))"
    by (subst small_sint) simp_all
  show ?thesis
    unfolding rotation_works_because_all_v1_signatures_are_checked_def Let_def t
    by (simp only: rotated_verifies [OF assms(1) now assms(3)] is_ok_simps simp_thms)
qed

lemma malformed_headers:
  "header_parse ''t=1614556800,v0=deadbeef'' = Inl (WebhookSignature ''header carries no v1 signature'')"
  "header_parse [] = Inl (WebhookSignature ''header has no valid t= timestamp'')"
  "header_parse ''garbage'' = Inl (WebhookSignature ''header has no valid t= timestamp'')"
  "header_parse ''v1=abc'' = Inl (WebhookSignature ''header has no valid t= timestamp'')"
  "header_parse ''t=notanumber,v1=abc'' = Inl (WebhookSignature ''header has no valid t= timestamp'')"
proof -
  have "header_parts (split_on CHR '','' ''t=1614556800,v0=deadbeef'') (None, []) = (parse_i64 ''1614556800'', [])"
    "header_parts (split_on CHR '','' ''t=notanumber,v1=abc'') (None, []) = (parse_i64 ''notanumber'', [''abc''])"
    by (simp_all add: trim_def is_space_def)
  moreover have "parse_i64 ''1614556800'' \<noteq> None" "parse_i64 ''notanumber'' = None"
    by (simp_all add: parse_i64_def is_digit_char_def read_nat_def digit_val_def)
  ultimately show
    "header_parse ''t=1614556800,v0=deadbeef'' = Inl (WebhookSignature ''header carries no v1 signature'')"
    "header_parse ''t=notanumber,v1=abc'' = Inl (WebhookSignature ''header has no valid t= timestamp'')"
    by (auto simp: header_parse_def)
qed code_simp+

lemma webhook_header_tests: "a_header_with_no_v1_is_rejected L B" "a_malformed_header_is_rejected L B"
  by (simp_all add: a_header_with_no_v1_is_rejected_def a_malformed_header_is_rejected_def webhook_verify_def
      is_signature_error_def malformed_headers)

lemma webhook_plain_tests:
  "the_secret_never_appears_in_debug_output" "only_entitlement_relevant_events_trigger_reissue"
  by code_simp+

section \<open>The Stripe client\<close>

definition stripe_statuses_map_to_our_model :: bool where
  "stripe_statuses_map_to_our_model \<longleftrightarrow> parse_status ''active'' = Active \<and> parse_status ''past_due'' = PastDue
     \<and> parse_status ''canceled'' = Canceled"

definition an_unknown_status_is_treated_as_least_entitled :: bool where
  "an_unknown_status_is_treated_as_least_entitled \<longleftrightarrow>
     (let s = parse_status ''some_future_status'' in s = Incomplete \<and> \<not> is_entitled s)"

definition a_subscription_payload_reduces_to_the_facts_we_need :: "billing_lib \<Rightarrow> utc \<Rightarrow> bool" where
  "a_subscription_payload_reduces_to_the_facts_we_need B now =
     (case into_state B now \<lparr>raw_id = ''sub_123'', raw_customer = ''cus_456'', raw_status = ''active'',
         raw_period_end = 1760000000, raw_cancel_at_period_end = False,
         raw_prices = [''price_professional_monthly'']\<rparr> of
        Inl _ \<Rightarrow> False
      | Inr s \<Rightarrow> subscription_id s = ''sub_123'' \<and> customer_id s = ''cus_456''
          \<and> price_id s = ''price_professional_monthly'' \<and> sub_status s = Active)"

definition a_subscription_with_no_line_items_is_an_error :: "billing_lib \<Rightarrow> utc \<Rightarrow> bool" where
  "a_subscription_with_no_line_items_is_an_error B now \<longleftrightarrow>
     \<not> is_ok (into_state B now \<lparr>raw_id = ''sub_1'', raw_customer = ''cus_1'', raw_status = ''active'',
       raw_period_end = 1760000000, raw_cancel_at_period_end = False, raw_prices = []\<rparr>)"

definition the_secret_key_never_appears_in_debug_output :: bool where
  "the_secret_key_never_appears_in_debug_output =
     (case client_new (Inr ()) ''sk_test_51ABCsupersecret'' of
        Inl _ \<Rightarrow> False
      | Inr c \<Rightarrow> \<not> contains ''supersecret'' (client_debug c) \<and> contains ''redacted'' (client_debug c))"

lemma client_tests:
  "stripe_statuses_map_to_our_model" "an_unknown_status_is_treated_as_least_entitled"
  "a_subscription_payload_reduces_to_the_facts_we_need B now" "a_subscription_with_no_line_items_is_an_error B now"
  "the_secret_key_never_appears_in_debug_output"
  by code_simp+

end
