(* ===== verification/ConformUpdate.thy ===== *)
theory ConformUpdate
  imports ConformTrust Sources
begin

text \<open>
  The updater against the program's own unit tests: the \<open>tests\<close> modules of \<open>manifest.rs\<close>, \<open>health.rs\<close> and
  \<open>source.rs\<close> of \<open>crates/trace-updater/src/\<close>.
\<close>

section \<open>Manifests\<close>

record 'v update_packages =
  pk_lib :: sign_lib
  pk_semver :: "'v semver_lib"
  pk_to_value :: "manifest \<Rightarrow> string + json"
  pk_from_slice :: "string \<Rightarrow> string + manifest"

text \<open>
  What the packages document: the laws of signing and serialising, the digest's length, and that plain releases
  are ordered by their three numbers.
\<close>

definition dotted :: "nat \<Rightarrow> nat \<Rightarrow> nat \<Rightarrow> string" where
  "dotted a b c = show_nat a @ ''.'' @ show_nat b @ ''.'' @ show_nat c"

definition orders_releases :: "('v::linorder) semver_lib \<Rightarrow> (nat \<Rightarrow> nat \<Rightarrow> nat \<Rightarrow> 'v) \<Rightarrow> bool" where
  "orders_releases V rel \<longleftrightarrow> (\<forall>a b c. sv_parse V (dotted a b c) = Inr (rel a b c))
     \<and> (\<forall>a b c a' b' c'. rel a b c < rel a' b' c' \<longleftrightarrow> a < a' \<or> a = a' \<and> (b < b' \<or> b = b' \<and> c < c'))"

definition update_packages_ok :: "('v::linorder) update_packages \<Rightarrow> bool" where
  "update_packages_ok P \<longleftrightarrow> sign_laws (pk_lib P) \<and> serde_laws (pk_lib P) (pk_to_value P) (pk_from_slice P)
     \<and> (\<forall>m. is_ok (pk_to_value P m)) \<and> hex_laws (pk_lib P)
     \<and> (\<forall>s. length (hex_encode (pk_lib P) (sha256 (pk_lib P) s)) = 64)"

text \<open>The digest of some bytes, as lower-case hexadecimal.\<close>

definition sha256_hex_of :: "sign_lib \<Rightarrow> string \<Rightarrow> string" where
  "sha256_hex_of L bytes = hex_encode L (sha256 L bytes)"

definition test_artifact :: "sign_lib \<Rightarrow> string \<Rightarrow> artifact" where
  "test_artifact L body = \<lparr>ar_name = ''trace-edge'', ar_sha256 = sha256_hex_of L body,
     ar_size = of_nat (length body), ar_path = ''trace-edge'', ar_delta_from = None\<rparr>"

definition test_manifest :: "sign_lib \<Rightarrow> utc \<Rightarrow> string \<Rightarrow> manifest" where
  "test_manifest L now version =
     \<lparr>mf_schema = MANIFEST_SCHEMA_VERSION, mf_version = version, mf_released_at = now, mf_notes = ''test release'',
      mf_artifacts = [test_artifact L ''binary bytes''], mf_min_installed_version = None, mf_rollback = False,
      mf_cohorts = [], mf_health_deadline_secs = 120\<rparr>"

text \<open>\<open>Version::parse(..).unwrap()\<close>.\<close>

definition ver :: "'v semver_lib \<Rightarrow> string \<Rightarrow> 'v" where
  "ver V s = projr (sv_parse V s)"

text \<open>Signing a manifest and verifying it with the verifier of a key.\<close>

definition manifest_checked ::
  "'v update_packages \<Rightarrow> issuer \<Rightarrow> issuer \<Rightarrow> manifest \<Rightarrow> (update_error + manifest \<Rightarrow> bool) \<Rightarrow> bool" where
  "manifest_checked P signer trusted m answer =
     with_signed (pk_lib P) (pk_to_value P) signer m (\<lambda>env.
       answer (manifest_verify (pk_lib P) (pk_semver P) (pk_from_slice P) env (verifier (pk_lib P) trusted)))"

definition a_signed_manifest_verifies :: "'v update_packages \<Rightarrow> issuer \<Rightarrow> utc \<Rightarrow> bool" where
  "a_signed_manifest_verifies P iss now =
     manifest_checked P iss iss (test_manifest (pk_lib P) now ''1.2.0'')
       (\<lambda>r. map_sum id mf_version r = Inr ''1.2.0'')"

definition a_manifest_signed_by_anyone_else_is_rejected_before_any_download ::
  "'v update_packages \<Rightarrow> issuer \<Rightarrow> issuer \<Rightarrow> utc \<Rightarrow> bool" where
  "a_manifest_signed_by_anyone_else_is_rejected_before_any_download P ours attacker now =
     manifest_checked P attacker ours (test_manifest (pk_lib P) now ''9.9.9'')
       (\<lambda>r. case r of Inl (UpSignature _) \<Rightarrow> True | _ \<Rightarrow> False)"

definition swapped_digest :: "sign_lib \<Rightarrow> utc \<Rightarrow> manifest" where
  "swapped_digest L now = (test_manifest L now ''1.2.0'')\<lparr>mf_artifacts :=
     [(test_artifact L ''binary bytes'')\<lparr>ar_sha256 := sha256_hex_of L ''malicious payload''\<rparr>]\<rparr>"

definition tampering_with_an_artifact_digest_breaks_the_signature ::
  "'v update_packages \<Rightarrow> issuer \<Rightarrow> utc \<Rightarrow> bool" where
  "tampering_with_an_artifact_digest_breaks_the_signature P iss now =
     with_signed (pk_lib P) (pk_to_value P) iss (test_manifest (pk_lib P) now ''1.2.0'') (\<lambda>env.
       case canonical_json (pk_lib P) (pk_to_value P) (swapped_digest (pk_lib P) now) of
         Inl _ \<Rightarrow> False
       | Inr forged \<Rightarrow> \<not> is_ok (manifest_verify (pk_lib P) (pk_semver P) (pk_from_slice P)
           (env\<lparr>env_payload_b64 := b64_encode (pk_lib P) forged\<rparr>) (verifier (pk_lib P) iss)))"

definition a_malformed_digest_is_caught_early_with_a_clear_message ::
  "'v update_packages \<Rightarrow> issuer \<Rightarrow> utc \<Rightarrow> bool" where
  "a_malformed_digest_is_caught_early_with_a_clear_message P iss now =
     manifest_checked P iss iss ((test_manifest (pk_lib P) now ''1.2.0'')\<lparr>mf_artifacts :=
         [(test_artifact (pk_lib P) ''binary bytes'')\<lparr>ar_sha256 := ''not-a-digest''\<rparr>]\<rparr>)
       (\<lambda>r. case r of Inl e \<Rightarrow> contains ''malformed sha256'' (update_error_display e) | Inr _ \<Rightarrow> False)"

definition an_empty_release_is_rejected :: "'v update_packages \<Rightarrow> issuer \<Rightarrow> utc \<Rightarrow> bool" where
  "an_empty_release_is_rejected P iss now =
     manifest_checked P iss iss ((test_manifest (pk_lib P) now ''1.2.0'')\<lparr>mf_artifacts := []\<rparr>)
       (\<lambda>r. \<not> is_ok r)"

definition a_newer_schema_is_refused :: "'v update_packages \<Rightarrow> issuer \<Rightarrow> utc \<Rightarrow> bool" where
  "a_newer_schema_is_refused P iss now =
     manifest_checked P iss iss
       ((test_manifest (pk_lib P) now ''1.3.0'')\<lparr>mf_schema := MANIFEST_SCHEMA_VERSION + 1\<rparr>) (\<lambda>r. \<not> is_ok r)"

definition a_newer_release_installs :: "('v::linorder) update_packages \<Rightarrow> utc \<Rightarrow> bool" where
  "a_newer_release_installs P now \<longleftrightarrow>
     (let V = pk_semver P in
      decide V (test_manifest (pk_lib P) now ''1.3.0'') (ver V ''1.2.0'') ''default'' = Inr (Install (ver V ''1.3.0'')))"

definition the_same_version_is_a_no_op :: "('v::linorder) update_packages \<Rightarrow> utc \<Rightarrow> bool" where
  "the_same_version_is_a_no_op P now \<longleftrightarrow>
     (let V = pk_semver P in
      decide V (test_manifest (pk_lib P) now ''1.2.0'') (ver V ''1.2.0'') ''default'' = Inr UpToDate)"

definition a_replayed_old_manifest_cannot_walk_the_box_backwards :: "('v::linorder) update_packages \<Rightarrow> utc \<Rightarrow> bool" where
  "a_replayed_old_manifest_cannot_walk_the_box_backwards P now =
     (let V = pk_semver P in
      case decide V (test_manifest (pk_lib P) now ''1.0.0'') (ver V ''1.2.0'') ''default'' of
        Inl (DowngradeRefused _ _) \<Rightarrow> True
      | _ \<Rightarrow> False)"

definition a_deliberate_rollback_is_allowed :: "('v::linorder) update_packages \<Rightarrow> utc \<Rightarrow> bool" where
  "a_deliberate_rollback_is_allowed P now \<longleftrightarrow>
     (let V = pk_semver P in
      decide V ((test_manifest (pk_lib P) now ''1.0.0'')\<lparr>mf_rollback := True\<rparr>) (ver V ''1.2.0'') ''default''
        = Inr (Install (ver V ''1.0.0'')))"

definition a_required_intermediate_release_is_enforced :: "('v::linorder) update_packages \<Rightarrow> utc \<Rightarrow> bool" where
  "a_required_intermediate_release_is_enforced P now =
     (let V = pk_semver P;
          m = (test_manifest (pk_lib P) now ''3.0.0'')\<lparr>mf_min_installed_version := Some ''2.0.0''\<rparr>
      in (case decide V m (ver V ''1.5.0'') ''default'' of Inl (UpgradePathRequired _ _ _) \<Rightarrow> True | _ \<Rightarrow> False)
         \<and> is_ok (decide V m (ver V ''2.1.0'') ''default''))"

definition staged_rollout_holds_boxes_outside_the_cohort :: "('v::linorder) update_packages \<Rightarrow> utc \<Rightarrow> bool" where
  "staged_rollout_holds_boxes_outside_the_cohort P now =
     (let V = pk_semver P; m = (test_manifest (pk_lib P) now ''1.3.0'')\<lparr>mf_cohorts := [''canary'']\<rparr> in
      (case decide V m (ver V ''1.2.0'') ''default'' of Inr (NotInCohort _) \<Rightarrow> True | _ \<Rightarrow> False)
      \<and> (case decide V m (ver V ''1.2.0'') ''canary'' of Inr (Install _) \<Rightarrow> True | _ \<Rightarrow> False))"

definition an_empty_cohort_list_means_everyone :: "('v::linorder) update_packages \<Rightarrow> utc \<Rightarrow> bool" where
  "an_empty_cohort_list_means_everyone P now =
     (let V = pk_semver P in
      case decide V (test_manifest (pk_lib P) now ''1.3.0'') (ver V ''1.2.0'') ''anything'' of
        Inr (Install _) \<Rightarrow> True
      | _ \<Rightarrow> False)"

text \<open>What verifying a manifest checks after its signature.\<close>

lemma manifest_checked_own:
  assumes "update_packages_ok P"
  shows "manifest_checked P iss iss m answer = answer
    (if mf_schema m > MANIFEST_SCHEMA_VERSION
     then Inl (UpMalformed (''manifest schema '' @ show_word (mf_schema m)
       @ '' is newer than this build supports ('' @ show_word MANIFEST_SCHEMA_VERSION @ '')''))
     else if mf_artifacts m = [] then Inl (UpMalformed ''manifest lists no artifacts'')
     else and_then (check_digests (mf_artifacts m)) (\<lambda>_. and_then (parsed_version (pk_semver P) m) (\<lambda>_. Inr m)))"
proof -
  obtain v where v: "pk_to_value P m = Inr v"
    using assms unfolding update_packages_ok_def is_ok_iff by blast
  obtain env where env: "sign (pk_lib P) (pk_to_value P) iss m = Inr env"
    by (cases iss) (simp add: v canonical_json_def)
  have "trusted_verify (pk_lib P) (pk_from_slice P) (verifier (pk_lib P) iss) env = Inr m"
    using signed_verifies [OF _ _ env] assms by (simp add: update_packages_ok_def)
  then show ?thesis
    by (simp add: manifest_checked_def with_signed_def env manifest_verify_def)
qed

lemma releases:
  "''1.0.0'' = dotted 1 0 0" "''1.2.0'' = dotted 1 2 0" "''1.3.0'' = dotted 1 3 0" "''1.5.0'' = dotted 1 5 0"
  "''2.0.0'' = dotted 2 0 0" "''2.1.0'' = dotted 2 1 0" "''3.0.0'' = dotted 3 0 0" "''9.9.9'' = dotted 9 9 9"
  by code_simp+

lemma digest_ok:
  assumes "update_packages_ok P"
  shows "check_digests [test_artifact (pk_lib P) body] = Inr ()"
proof -
  have "list_all is_ascii_hexdigit (sha256_hex_of (pk_lib P) body)"
    using assms by (fastforce simp: update_packages_ok_def hex_laws_def list_all_iff is_digit_char_def
        is_ascii_hexdigit_def sha256_hex_of_def)
  then show ?thesis
    using assms by (simp add: test_artifact_def update_packages_ok_def sha256_hex_of_def)
qed

lemma manifest_tests:
  assumes "update_packages_ok P" and "orders_releases (pk_semver P) rel"
  shows "a_signed_manifest_verifies P iss now" "a_malformed_digest_is_caught_early_with_a_clear_message P iss now"
    "an_empty_release_is_rejected P iss now" "a_newer_schema_is_refused P iss now"
proof -
  note own = manifest_checked_own [OF assms(1)]
  have "sv_parse (pk_semver P) ''1.2.0'' = Inr (rel 1 2 0)"
    using assms(2) unfolding orders_releases_def releases by blast
  then show "a_signed_manifest_verifies P iss now"
    using digest_ok [OF assms(1), of "''binary bytes''"]
    by (simp add: a_signed_manifest_verifies_def own test_manifest_def parsed_version_def del: check_digests.simps)
  have "contains ''malformed sha256'' (update_error_display
      (UpMalformed (''artifact trace-edge has a malformed sha256 digest'')))"
    by code_simp
  then show "a_malformed_digest_is_caught_early_with_a_clear_message P iss now"
    by (simp add: a_malformed_digest_is_caught_early_with_a_clear_message_def own test_manifest_def test_artifact_def)
  show "an_empty_release_is_rejected P iss now" "a_newer_schema_is_refused P iss now"
    by (simp_all add: an_empty_release_is_rejected_def a_newer_schema_is_refused_def own test_manifest_def
        MANIFEST_SCHEMA_VERSION_def)
qed

lemma manifest_forgery_tests:
  assumes "update_packages_ok P"
  shows "pk_to_value P (test_manifest (pk_lib P) now ''9.9.9'') = Inr v \<Longrightarrow>
      \<not> ed_verify (pk_lib P) (ed_public (pk_lib P) seed) (write_canonical (pk_lib P) v)
        (ed_sign (pk_lib P) attacker (write_canonical (pk_lib P) v)) \<Longrightarrow>
      a_manifest_signed_by_anyone_else_is_rejected_before_any_download P (Issuer seed) (Issuer attacker) now"
    "pk_to_value P (test_manifest (pk_lib P) now ''1.2.0'') = Inr v \<Longrightarrow>
      pk_to_value P (swapped_digest (pk_lib P) now) = Inr w \<Longrightarrow>
      \<not> ed_verify (pk_lib P) (ed_public (pk_lib P) seed) (write_canonical (pk_lib P) w)
        (ed_sign (pk_lib P) seed (write_canonical (pk_lib P) v)) \<Longrightarrow>
      tampering_with_an_artifact_digest_breaks_the_signature P (Issuer seed) now"
  using assms
  by (simp_all add: a_manifest_signed_by_anyone_else_is_rejected_before_any_download_def manifest_checked_def
      tampering_with_an_artifact_digest_breaks_the_signature_def with_signed_def canonical_json_def manifest_verify_def
      trusted_verify_def decode_b64_def update_packages_ok_def sign_laws_def del: write_canonical.simps)

lemma decision_tests:
  assumes "orders_releases (pk_semver P) rel"
  shows "a_newer_release_installs P now" "the_same_version_is_a_no_op P now"
    "a_replayed_old_manifest_cannot_walk_the_box_backwards P now" "a_deliberate_rollback_is_allowed P now"
    "a_required_intermediate_release_is_enforced P now" "staged_rollout_holds_boxes_outside_the_cohort P now"
    "an_empty_cohort_list_means_everyone P now"
proof -
  have parsed: "sv_parse (pk_semver P) ''1.0.0'' = Inr (rel 1 0 0)" "sv_parse (pk_semver P) ''1.2.0'' = Inr (rel 1 2 0)"
    "sv_parse (pk_semver P) ''1.3.0'' = Inr (rel 1 3 0)" "sv_parse (pk_semver P) ''1.5.0'' = Inr (rel 1 5 0)"
    "sv_parse (pk_semver P) ''2.0.0'' = Inr (rel 2 0 0)" "sv_parse (pk_semver P) ''2.1.0'' = Inr (rel 2 1 0)"
    "sv_parse (pk_semver P) ''3.0.0'' = Inr (rel 3 0 0)"
    using assms unfolding orders_releases_def releases by blast+
  have order: "rel a b c < rel a' b' c' \<longleftrightarrow> a < a' \<or> a = a' \<and> (b < b' \<or> b = b' \<and> c < c')" for a b c a' b' c'
    using assms unfolding orders_releases_def by blast
  have differ: "rel a b c = rel a' b' c' \<longleftrightarrow> a = a' \<and> b = b' \<and> c = c'" for a b c a' b' c'
    using order [of a b c a' b' c'] order [of a' b' c' a b c] by (metis linorder_neqE_nat less_irrefl)
  note defs = decide_def parsed_version_def test_manifest_def ver_def parsed order differ Let_def
  show "a_newer_release_installs P now" "the_same_version_is_a_no_op P now"
    "a_replayed_old_manifest_cannot_walk_the_box_backwards P now" "a_deliberate_rollback_is_allowed P now"
    by (simp_all add: a_newer_release_installs_def the_same_version_is_a_no_op_def a_deliberate_rollback_is_allowed_def
        a_replayed_old_manifest_cannot_walk_the_box_backwards_def defs)
  show "a_required_intermediate_release_is_enforced P now" "staged_rollout_holds_boxes_outside_the_cohort P now"
    "an_empty_cohort_list_means_everyone P now"
    by (simp_all add: a_required_intermediate_release_is_enforced_def an_empty_cohort_list_means_everyone_def
        staged_rollout_holds_boxes_outside_the_cohort_def defs)
qed

section \<open>The health gate\<close>

text \<open>The probe of the tests: it counts its calls and answers from the threshold on.\<close>

definition healthy_after :: "nat \<Rightarrow> nat \<Rightarrow> health_report" where
  "healthy_after threshold k =
     (let n = k + 1 in
      if threshold \<le> n then healthy_report else unhealthy_report (''starting up, attempt '' @ show_nat n))"

definition a_service_that_takes_a_moment_to_start_still_passes :: "(nat \<Rightarrow> nat) \<Rightarrow> bool" where
  "a_service_that_takes_a_moment_to_start_still_passes elapsed \<longleftrightarrow>
     (case wait_until_healthy elapsed (healthy_after 2) 30 of None \<Rightarrow> False | Some report \<Rightarrow> hr_healthy report)"

text \<open>The threshold is the largest \<open>u32\<close>: the clock is paused, and only the sleeps advance it.\<close>

definition a_service_that_never_starts_fails_at_the_deadline :: "(nat \<Rightarrow> nat) \<Rightarrow> bool" where
  "a_service_that_never_starts_fails_at_the_deadline elapsed \<longleftrightarrow>
     (case wait_until_healthy elapsed (healthy_after (2 ^ 32 - 1)) 10 of
        None \<Rightarrow> False
      | Some report \<Rightarrow> \<not> hr_healthy report \<and> contains ''still unhealthy after 10s'' (hr_detail report))"

definition always_healthy_passes_immediately :: bool where
  "always_healthy_passes_immediately \<longleftrightarrow> hr_healthy (always_healthy 0)"

text \<open>
  What the wait reports when it fails.
\<close>

lemma poll_healthy_detail:
  assumes "poll_healthy elapsed check deadline k l = Some r" and "\<not> hr_healthy r"
  shows "\<exists>rest. hr_detail r = ''still unhealthy after '' @ show_word deadline @ ''s: '' @ rest"
proof -
  have "\<not> hr_healthy r \<longrightarrow> (\<exists>rest. hr_detail r = ''still unhealthy after '' @ show_word deadline @ ''s: '' @ rest)"
    by (rule poll_healthy.raw_induct [OF _ assms(1)]) (auto simp: unhealthy_report_def split: if_splits)
  then show ?thesis
    using assms(2) by blast
qed

lemma health_tests:
  assumes "\<And>j. elapsed j + 2000 \<le> elapsed (Suc j)"
  shows "elapsed 1 < 30000 \<Longrightarrow> a_service_that_takes_a_moment_to_start_still_passes elapsed"
    "a_service_that_never_starts_fails_at_the_deadline elapsed" "always_healthy_passes_immediately"
proof -
  note returns = poll_healthy_returns [of elapsed _ _ 0, OF assms]
  assume "elapsed 1 < 30000"
  then have "\<exists>j. hr_healthy (healthy_after 2 j) \<and> elapsed j < unat (30 :: u64) * 1000"
    by (intro exI [of _ 1]) (simp add: healthy_after_def healthy_report_def)
  then show "a_service_that_takes_a_moment_to_start_still_passes elapsed"
    using returns [of "healthy_after 2" 30 "unhealthy_report ''health probe never ran''"]
    by (auto simp: a_service_that_takes_a_moment_to_start_still_passes_def wait_until_healthy_def)
next
  let ?check = "healthy_after (2 ^ 32 - 1)"
  have le: "2000 * j \<le> elapsed j" for j
    by (induction j) (use assms in \<open>auto intro: order_trans [OF _ assms]\<close>)
  obtain r where r: "wait_until_healthy elapsed ?check 10 = Some r"
      "hr_healthy r \<longleftrightarrow> (\<exists>j. hr_healthy (?check j) \<and> elapsed j < unat (10 :: u64) * 1000)"
    using poll_healthy_returns [where elapsed = elapsed and check = ?check and deadline = 10 and k = 0
        and l = "unhealthy_report ''health probe never ran''", OF assms]
    unfolding wait_until_healthy_def by auto
  have "\<not> hr_healthy (?check j)" if "elapsed j < 10000" for j
  proof -
    have "j < 5"
      using le [of j] that by linarith
    then show ?thesis
      by (simp add: healthy_after_def unhealthy_report_def)
  qed
  then have sick: "\<not> hr_healthy r"
    using r(2) by auto
  then obtain rest where detail: "hr_detail r = ''still unhealthy after '' @ show_word (10 :: u64) @ ''s: '' @ rest"
    using poll_healthy_detail r(1) unfolding wait_until_healthy_def by blast
  have "show_word (10 :: u64) = ''10''"
    by code_simp
  then have "hr_detail r = [] @ ''still unhealthy after 10s'' @ '': '' @ rest"
    using detail by simp
  then have "contains ''still unhealthy after 10s'' (hr_detail r)"
    by (simp only: contains_middle)
  with sick r(1) show "a_service_that_never_starts_fails_at_the_deadline elapsed"
    by (simp add: a_service_that_never_starts_fails_at_the_deadline_def)
next
  show "always_healthy_passes_immediately"
    by code_simp
qed

section \<open>Sources\<close>

text \<open>\<open>fs\<close> is the file system the temporary directory \<open>dir\<close> was made in.\<close>

definition test_art :: "sign_lib \<Rightarrow> string \<Rightarrow> artifact" where
  "test_art L p = \<lparr>ar_name = ''x'', ar_sha256 = sha256_hex_of L [], ar_size = 0, ar_path = p, ar_delta_from = None\<rparr>"

definition a_directory_bundle_reads_its_artifacts :: "sign_lib \<Rightarrow> fs \<Rightarrow> path \<Rightarrow> bool" where
  "a_directory_bundle_reads_its_artifacts L fs dir \<longleftrightarrow>
     (let stick = fs(dir @ [''trace-edge''] \<mapsto> File ''binary''); src = source_new dir in
      directory_artifact stick src (test_art L ''trace-edge'') = Inr ''binary''
      \<and> contains ''directory'' (directory_describe src))"

definition a_path_escaping_the_bundle_is_refused :: "sign_lib \<Rightarrow> fs \<Rightarrow> path \<Rightarrow> bool" where
  "a_path_escaping_the_bundle_is_refused L fs dir =
     list_all (\<lambda>evil. case directory_artifact fs (source_new dir) (test_art L evil) of
         Inl e \<Rightarrow> contains ''escapes the bundle root'' (update_error_display e)
       | Inr _ \<Rightarrow> False)
       [''../../../etc/passwd'', ''/etc/passwd'', ''sub/../../escape'']"

definition nested_paths_inside_the_bundle_are_fine :: "sign_lib \<Rightarrow> fs \<Rightarrow> path \<Rightarrow> bool" where
  "nested_paths_inside_the_bundle_are_fine L fs dir \<longleftrightarrow>
     (let stick = fs(dir @ [''bin''] \<mapsto> Dir, dir @ [''bin'', ''tool''] \<mapsto> File ''ok'') in
      directory_artifact stick (source_new dir) (test_art L ''bin/tool'') = Inr ''ok'')"

definition a_missing_manifest_reports_the_path :: "envelope_json \<Rightarrow> fs \<Rightarrow> path \<Rightarrow> bool" where
  "a_missing_manifest_reports_the_path parse fs dir =
     (case directory_manifest parse fs (source_new dir) of
        Inl e \<Rightarrow> contains ''manifest.json'' (update_error_display e)
      | Inr _ \<Rightarrow> False)"

text \<open>A path of real directories: no step of it climbs and none is a link.\<close>

definition real_path :: "fs \<Rightarrow> path \<Rightarrow> path \<Rightarrow> bool" where
  "real_path fs base p \<longleftrightarrow> ''..'' \<notin> set p
     \<and> (\<forall>q t. prefix q p \<longrightarrow> q \<noteq> [] \<longrightarrow> fs (base @ q) \<noteq> Some (Link t))"

lemma real_path_Cons:
  "real_path fs base (c # p) \<longleftrightarrow> c \<noteq> ''..'' \<and> (\<forall>t. fs (base @ [c]) \<noteq> Some (Link t)) \<and> real_path fs (base @ [c]) p"
proof -
  have "(\<forall>q t. prefix q (c # p) \<longrightarrow> q \<noteq> [] \<longrightarrow> fs (base @ q) \<noteq> Some (Link t)) \<longleftrightarrow>
      (\<forall>t. fs (base @ [c]) \<noteq> Some (Link t)) \<and> (\<forall>q t. prefix q p \<longrightarrow> q \<noteq> [] \<longrightarrow> fs (base @ c # q) \<noteq> Some (Link t))"
    by (auto simp: prefix_Cons)
  then show ?thesis
    by (auto simp: real_path_def)
qed

lemma resolve_real: "real_path fs base p \<Longrightarrow> resolve_links fs n base p = Inr (base @ p)"
proof (induction p arbitrary: base)
  case (Cons c p)
  then show ?case
    by (cases "fs (base @ [c])") (auto simp: real_path_Cons split: node.splits)
qed simp

lemma real_path_snoc:
  "real_path fs base (p @ q) \<longleftrightarrow> real_path fs base p \<and> real_path fs (base @ p) q"
  by (induction p arbitrary: base) (simp_all add: real_path_Cons, simp add: real_path_def)

text \<open>Writing below a directory leaves the way to it as it was.\<close>

lemma real_path_update:
  assumes "real_path fs base p" and "\<not> prefix q (base @ p)"
  shows "real_path (fs(q := nd)) base p"
  using assms by (auto simp: real_path_def prefix_def)

lemma fetched:
  assumes "real_path fs [] (dir @ components p)" and "\<not> is_absolute p" and "fs (dir @ components p) = Some (File b)"
  shows "directory_artifact fs (source_new dir) (test_art L p) = Inr b"
proof -
  have up: "''..'' \<notin> set (components p)"
    using assms(1) by (simp add: real_path_def)
  then have "source_resolve (source_new dir) p = Inr (dir @ components p)"
    using assms(2) walk_inside [OF up] by (auto simp: source_resolve_def path_join_def source_new_def list_ex_iff)
  then show ?thesis
    using resolve_real [OF assms(1)] assms(3)
    by (simp add: directory_artifact_def test_art_def read_file_def)
qed

lemma test_paths:
  "components ''trace-edge'' = [''trace-edge'']" "components ''bin/tool'' = [''bin'', ''tool'']"
  "components ''manifest.json'' = [''manifest.json'']"
  "\<not> is_absolute ''trace-edge''" "\<not> is_absolute ''bin/tool''" "\<not> is_absolute ''manifest.json''"
  by code_simp+

lemma source_tests:
  assumes "real_path fs [] dir"
  shows "a_directory_bundle_reads_its_artifacts L fs dir" "nested_paths_inside_the_bundle_are_fine L fs dir"
    "a_path_escaping_the_bundle_is_refused L fs dir"
    "fs (dir @ [''manifest.json'']) = None \<Longrightarrow> a_missing_manifest_reports_the_path parse fs dir"
proof -
  have below: "\<not> prefix (dir @ c # q) dir" for c q
    using prefix_length_le by fastforce
  have below2: "\<not> prefix (dir @ [''bin'', ''tool'']) (dir @ [''bin''])"
    by simp
  let ?edge = "fs(dir @ [''trace-edge''] \<mapsto> File ''binary'')"
  have "real_path ?edge [] (dir @ [''trace-edge''])"
    using real_path_update [OF assms, of "dir @ [''trace-edge'']"] below
    by (simp add: real_path_snoc real_path_Cons) (simp add: real_path_def)
  then have "directory_artifact ?edge (source_new dir) (test_art L ''trace-edge'') = Inr ''binary''"
    by (intro fetched) (simp_all add: test_paths)
  moreover have "contains ''directory'' ([] @ ''directory'' @ '' '' @ show_path dir)"
    by (rule contains_middle)
  ultimately show "a_directory_bundle_reads_its_artifacts L fs dir"
    by (simp add: a_directory_bundle_reads_its_artifacts_def Let_def directory_describe_def source_new_def)
  let ?bin = "fs(dir @ [''bin''] \<mapsto> Dir, dir @ [''bin'', ''tool''] \<mapsto> File ''ok'')"
  have "real_path ?bin [] dir"
    using assms below by (intro real_path_update) simp_all
  then have "real_path ?bin [] (dir @ [''bin'', ''tool''])"
    by (simp add: real_path_snoc real_path_Cons) (simp add: real_path_def)
  then show "nested_paths_inside_the_bundle_are_fine L fs dir"
    unfolding nested_paths_inside_the_bundle_are_fine_def Let_def
    by (intro fetched) (simp_all add: test_paths)
  have "source_resolve (source_new dir) evil
      = Inl (UpMalformed ((''artifact path '' @ evil @ '' '') @ ''escapes the bundle root'' @ []))"
    if "evil \<in> {''../../../etc/passwd'', ''/etc/passwd'', ''sub/../../escape''}" for evil
  proof -
    have "is_absolute evil \<or> list_ex (\<lambda>c. c = ''..'') (components evil)"
      using that by (elim insertE emptyE; simp only:) code_simp+
    then show ?thesis
      by (simp add: source_resolve_def)
  qed
  moreover have "contains ''escapes the bundle root'' (''malformed manifest: '' @ a @ ''escapes the bundle root'' @ [])" for a
    using contains_middle [of "''escapes the bundle root''" "''malformed manifest: '' @ a" "[]"] by simp
  ultimately show "a_path_escaping_the_bundle_is_refused L fs dir"
    unfolding a_path_escaping_the_bundle_is_refused_def directory_artifact_def test_art_def by simp
  assume none: "fs (dir @ [''manifest.json'']) = None"
  then have real: "real_path fs [] (dir @ [''manifest.json''])"
    using assms by (simp add: real_path_snoc real_path_Cons) (simp add: real_path_def)
  then have "''..'' \<notin> set (components ''manifest.json'')"
    by (simp add: test_paths)
  from walk_inside [OF this, of dir] have "directory_manifest parse fs (source_new dir)
      = Inl (UpIo (dir @ [''manifest.json'']) ''no such file or directory'')"
    using resolve_real [OF real] none
    by (simp add: directory_manifest_def source_new_def path_join_def test_paths read_file_def)
  moreover have "update_error_display (UpIo (dir @ [''manifest.json'']) e)
      = (''update io error at '' @ show_path dir @ ''/'') @ ''manifest.json'' @ '': '' @ e" for e
    by (simp add: show_path_def)
  ultimately show "a_missing_manifest_reports_the_path parse fs dir"
    by (simp only: a_missing_manifest_reports_the_path_def sum.case contains_middle)
qed

end
