(* ===== verification/ConformDevice.thy ===== *)
theory ConformDevice
  imports ConformCore Registry
begin

text \<open>
  The device layer against the program's own unit tests: the \<open>tests\<close> modules of \<open>driver.rs\<close>, \<open>retry.rs\<close>,
  \<open>simulator.rs\<close>, \<open>manual.rs\<close>, \<open>tcp.rs\<close> and \<open>registry.rs\<close> of \<open>crates/trace-devices/src/\<close>.  What the outside does
  during a call is the \<open>surroundings\<close> of the call; the sockets of the tests are what their fake instrument sends.
\<close>

section \<open>Drivers\<close>

definition transient_errors_are_distinguished_from_permanent_ones :: bool where
  "transient_errors_are_distinguished_from_permanent_ones \<longleftrightarrow>
     is_transient (Timeout ''DEV-1'' ''torque'' 5000) \<and> \<not> is_transient (BadConfig ''DEV-1'' ''no host'')"

definition an_unparseable_response_keeps_the_raw_bytes :: bool where
  "an_unparseable_response_keeps_the_raw_bytes \<longleftrightarrow>
     contains ''GARBAGE'' (device_error_display (Unparseable ''DEV-1'' (''T:'' @ [CHR 0x01, CHR 0x02] @ ''GARBAGE'')))"

definition health_tracks_consecutive_failures_and_clears_on_success :: "utc \<Rightarrow> bool" where
  "health_tracks_consecutive_failures_and_clears_on_success now \<longleftrightarrow>
     (let err = NotConnected ''D'' ''refused'';
          h2 = record_failure err (record_failure err default_health);
          h3 = record_success now h2
      in \<not> dh_connected default_health \<and> dh_failures h2 = 2 \<and> dh_last_error h2 \<noteq> None
         \<and> dh_connected h3 \<and> dh_failures h3 = 0 \<and> dh_last_error h3 = None)"

definition test_config :: "string \<Rightarrow> string \<Rightarrow> json \<Rightarrow> u64 \<Rightarrow> device_config" where
  "test_config code kind settings timeout =
     \<lparr>dc_code = code, dc_kind = kind, dc_settings = settings, dc_timeout_ms = timeout\<rparr>"

definition missing_configuration_is_reported_with_the_key_name :: bool where
  "missing_configuration_is_reported_with_the_key_name =
     (case require_str (test_config ''DEV-1'' ''TCP_LINE'' (JObject []) 1000) ''host'' of
        Inl err \<Rightarrow> contains ''host'' (device_error_display err)
      | Inr _ \<Rightarrow> False)"

lemma driver_tests:
  "transient_errors_are_distinguished_from_permanent_ones" "an_unparseable_response_keeps_the_raw_bytes"
  "health_tracks_consecutive_failures_and_clears_on_success now"
  "missing_configuration_is_reported_with_the_key_name"
  by code_simp+

section \<open>Backoff\<close>

definition ms :: "nat \<Rightarrow> nat" where
  "ms n = n * 1000000"

text \<open>The backoff after a number of delays, each drawn with the clock's seed of that moment.\<close>

definition delayed :: "128 word list \<Rightarrow> backoff \<Rightarrow> backoff" where
  "delayed seeds b = fold (\<lambda>seed b. snd (next_delay seed b)) seeds b"

definition the_ceiling_grows_exponentially_then_stops_at_max :: "128 word list \<Rightarrow> bool" where
  "the_ceiling_grows_exponentially_then_stops_at_max seeds \<longleftrightarrow>
     (let b = backoff_new (ms 100) (ms 10000) 2;
          seen = map (\<lambda>k. backoff_ceiling (delayed (take k seeds) b)) [0..<13]
      in seen ! 0 = ms 100 \<and> seen ! 1 = ms 200 \<and> seen ! 2 = ms 400 \<and> last seen = ms 10000)"

definition jitter_keeps_every_delay_inside_the_ceiling :: "128 word list \<Rightarrow> bool" where
  "jitter_keeps_every_delay_inside_the_ceiling seeds \<longleftrightarrow>
     (let b = backoff_new (ms 50) (ms 5000) 2 in
      list_all (\<lambda>k. let b' = delayed (take k seeds) b in fst (next_delay (seeds ! k) b') \<le> backoff_ceiling b')
        [0..<50])"

definition a_success_resets_the_sequence :: "128 word list \<Rightarrow> bool" where
  "a_success_resets_the_sequence seeds \<longleftrightarrow>
     (let b = delayed seeds default_backoff; r = backoff_reset b in
      bo_attempt b = 5 \<and> bo_attempt r = 0 \<and> backoff_ceiling r = bo_initial r)"

definition a_zero_factor_does_not_stall_the_sequence :: "128 word \<Rightarrow> bool" where
  "a_zero_factor_does_not_stall_the_sequence seed \<longleftrightarrow>
     ms 10 \<le> backoff_ceiling (delayed [seed] (backoff_new (ms 10) (ms 1000) 0))"

definition overflow_does_not_panic_after_many_attempts :: "128 word list \<Rightarrow> bool" where
  "overflow_does_not_panic_after_many_attempts seeds \<longleftrightarrow>
     backoff_ceiling (delayed seeds (backoff_new (ms 1000) (ms 60000) 10)) = ms 60000"

lemma delayed_attempts:
  assumes "unat (bo_attempt b) + length seeds < 2 ^ 32"
  shows "delayed seeds b = b\<lparr>bo_attempt := of_nat (unat (bo_attempt b) + length seeds)\<rparr>"
  using assms
proof (induction seeds arbitrary: b)
  case (Cons seed seeds)
  have "unat (- 1 :: u32) = 2 ^ 32 - 1"
    by (simp add: unsigned_minus_1_eq_mask mask_eq_exp_minus_1)
  then have "bo_attempt b \<noteq> - 1"
    using Cons.prems by auto
  then have n: "unat (bo_attempt (snd (next_delay seed b))) = Suc (unat (bo_attempt b))"
    by (simp add: next_delay_def unat_sat_inc)
  have "delayed (seed # seeds) b = delayed seeds (snd (next_delay seed b))"
    by (simp add: delayed_def)
  also have "\<dots> = (snd (next_delay seed b))\<lparr>bo_attempt :=
      of_nat (unat (bo_attempt (snd (next_delay seed b))) + length seeds)\<rparr>"
    using Cons.prems n by (intro Cons.IH) simp
  finally show ?case
    unfolding n by (simp add: next_delay_def)
qed (simp add: delayed_def)

lemma delayed_ceiling:
  assumes "mx \<le> DURATION_MAX" and "length seeds < 2 ^ 32"
  shows "backoff_ceiling (delayed seeds (backoff_new d mx factor)) = min mx (d * unat (max factor 1) ^ length seeds)"
proof -
  have "1 \<le> unat (max factor 1)"
    using word_le_nat_alt [of 1 "max factor 1"] by simp
  then show ?thesis
    using assms delayed_attempts [of "backoff_new d mx factor" seeds]
    by (simp add: backoff_ceiling_def backoff_new_def ceiling_loop_power unat_of_nat_small)
qed

lemma backoff_tests:
  "length seeds = 12 \<Longrightarrow> the_ceiling_grows_exponentially_then_stops_at_max seeds"
  "jitter_keeps_every_delay_inside_the_ceiling seeds"
  "length seeds = 5 \<Longrightarrow> a_success_resets_the_sequence seeds"
  "a_zero_factor_does_not_stall_the_sequence seed"
  "length seeds = 200 \<Longrightarrow> overflow_does_not_panic_after_many_attempts seeds"
proof -
  note ceil = delayed_ceiling DURATION_MAX_def ms_def
  show "length seeds = 12 \<Longrightarrow> the_ceiling_grows_exponentially_then_stops_at_max seeds"
    by (simp add: the_ceiling_grows_exponentially_then_stops_at_max_def ceil Let_def last_conv_nth)
  show "jitter_keeps_every_delay_inside_the_ceiling seeds"
    by (simp add: jitter_keeps_every_delay_inside_the_ceiling_def next_delay_def jitter_le list_all_iff Let_def)
  show "length seeds = 5 \<Longrightarrow> a_success_resets_the_sequence seeds"
    using delayed_attempts [of default_backoff seeds]
    by (simp add: a_success_resets_the_sequence_def default_backoff_def backoff_new_def backoff_reset_def
        backoff_ceiling_def Let_def)
  show "a_zero_factor_does_not_stall_the_sequence seed"
    by (simp add: a_zero_factor_does_not_stall_the_sequence_def ceil)
  show "length seeds = 200 \<Longrightarrow> overflow_does_not_panic_after_many_attempts seeds"
    by (simp add: overflow_does_not_panic_after_many_attempts_def ceil)
qed

section \<open>The simulator\<close>

text \<open>Nothing happens outside but the time passing.\<close>

definition quiet :: "utc \<Rightarrow> surroundings" where
  "quiet now = \<lparr>sur_now = now, sur_entered = [], sur_dial = (\<lambda>_. Dialled), sur_send = (\<lambda>_. None),
     sur_line = LineTimeout\<rparr>"

definition sim_cfg :: device_config where
  "sim_cfg = test_config ''SIM-1'' ''SIMULATED'' (JObject []) 100"

text \<open>Connect, unwrapping the result.\<close>

definition sim_connected :: "utc \<Rightarrow> simulated_driver \<Rightarrow> simulated_driver" where
  "sim_connected now d = snd (simulated_connect (quiet now) sim_cfg d)"

definition reads :: "(device_error + raw_sample) \<times> 'd \<Rightarrow> val \<Rightarrow> bool" where
  "reads r v \<longleftrightarrow> map_sum id rs_value (fst r) = Inr v"

definition a_scripted_sequence_plays_in_order_then_falls_back_to_the_default :: "externals \<Rightarrow> utc \<Rightarrow> bool" where
  "a_scripted_sequence_plays_in_order_then_falls_back_to_the_default x now \<longleftrightarrow>
     (let d0 = sim_connected now (with_default ''torque'' (V_Numeric (F_Fin 12))
            (with_script ''torque'' (SValue (V_Numeric (F_Fin (125 / 10))))
              (with_script ''torque'' (SValue (V_Numeric (F_Fin 11))) (simulated_new ''SIM-1''))));
          r1 = simulated_read x (quiet now) (PointRef ''torque'') d0;
          r2 = simulated_read x (quiet now) (PointRef ''torque'') (snd r1);
          r3 = simulated_read x (quiet now) (PointRef ''torque'') (snd r2)
      in reads r1 (V_Numeric (F_Fin 11)) \<and> reads r2 (V_Numeric (F_Fin (125 / 10)))
         \<and> reads r3 (V_Numeric (F_Fin 12)))"

definition a_simulated_cable_pull_is_how_offline_paths_get_tested :: "externals \<Rightarrow> utc \<Rightarrow> bool" where
  "a_simulated_cable_pull_is_how_offline_paths_get_tested x now \<longleftrightarrow>
     (let d0 = sim_connected now (with_script ''torque'' SDisconnect
            (with_script ''torque'' (SValue (V_Numeric (F_Fin 12))) (simulated_new ''SIM-1'')));
          r1 = simulated_read x (quiet now) (PointRef ''torque'') d0;
          r2 = simulated_read x (quiet now) (PointRef ''torque'') (snd r1);
          r3 = simulated_read x (quiet now) (PointRef ''torque'') (snd r2)
      in is_ok (fst r1) \<and> \<not> is_ok (fst r2) \<and> \<not> dh_connected (sd_health (snd r2))
         \<and> \<not> is_ok (fst r3) \<and> dh_connected (sd_health (sim_connected now (snd r3))))"

definition a_forced_bad_reading_is_how_the_quarantine_path_gets_tested :: "externals \<Rightarrow> utc \<Rightarrow> bool" where
  "a_forced_bad_reading_is_how_the_quarantine_path_gets_tested x now \<longleftrightarrow>
     reads (simulated_read x (quiet now) (PointRef ''torque'') (sim_connected now
       (with_script ''torque'' (SValue (V_Numeric (F_Fin 18))) (simulated_new ''SIM-1'')))) (V_Numeric (F_Fin 18))"

definition torque_line :: string where
  "torque_line = ''T: 12.1 NM'' @ [CHR 0x0D, CHR 0x0A]"

definition raw_payloads_can_be_scripted_independently_of_the_parsed_value :: "externals \<Rightarrow> utc \<Rightarrow> bool" where
  "raw_payloads_can_be_scripted_independently_of_the_parsed_value x now =
     (case fst (simulated_read x (quiet now) (PointRef ''torque'') (sim_connected now
         (with_script ''torque'' (SRaw (V_Numeric (F_Fin (121 / 10))) torque_line) (simulated_new ''SIM-1'')))) of
        Inl _ \<Rightarrow> False
      | Inr s \<Rightarrow> rs_raw s = torque_line \<and> rs_value s = V_Numeric (F_Fin (121 / 10)))"

definition interlock_writes_are_recorded_so_tests_can_assert_them :: "utc \<Rightarrow> bool" where
  "interlock_writes_are_recorded_so_tests_can_assert_them now \<longleftrightarrow>
     (case simulated_write (quiet now) (PointRef ''interlock'') (V_Boolean True)
         (sim_connected now (simulated_new ''SIM-1'')) of
        (res, d) \<Rightarrow> is_ok res \<and> sd_writes d = [(''interlock'', V_Boolean True)])"

definition an_unscripted_point_is_reported_rather_than_guessed :: "externals \<Rightarrow> utc \<Rightarrow> bool" where
  "an_unscripted_point_is_reported_rather_than_guessed x now =
     (case fst (simulated_read x (quiet now) (PointRef ''nothing_here'')
         (sim_connected now (simulated_new ''SIM-1''))) of
        Inl (UnknownPoint _ _) \<Rightarrow> True
      | _ \<Rightarrow> False)"

lemma simulator_tests:
  "a_scripted_sequence_plays_in_order_then_falls_back_to_the_default x now"
  "a_simulated_cable_pull_is_how_offline_paths_get_tested x now"
  "a_forced_bad_reading_is_how_the_quarantine_path_gets_tested x now"
  "raw_payloads_can_be_scripted_independently_of_the_parsed_value x now"
  "interlock_writes_are_recorded_so_tests_can_assert_them now"
  "an_unscripted_point_is_reported_rather_than_guessed x now"
  by code_simp+

section \<open>Operator entry\<close>

text \<open>What the operator submitted through the channel since the last call.\<close>

definition entering :: "utc \<Rightarrow> (string \<times> val) list \<Rightarrow> surroundings" where
  "entering now entered = (quiet now)\<lparr>sur_entered := entered\<rparr>"

definition manual_connected :: "utc \<Rightarrow> string \<Rightarrow> manual_driver" where
  "manual_connected now code =
     snd (manual_connect (quiet now) (test_config ''ST-01-MANUAL'' ''MANUAL'' (JObject []) 0) (manual_new code))"

definition an_operator_entry_reads_back_like_any_device_value :: "externals \<Rightarrow> utc \<Rightarrow> bool" where
  "an_operator_entry_reads_back_like_any_device_value x now =
     (case manual_read x (entering now [(''final_torque'', V_Numeric (F_Fin (121 / 10)))])
         (PointRef ''final_torque'') (manual_connected now ''ST-01-MANUAL'') of
        (Inl _, _) \<Rightarrow> False
      | (Inr sample, d) \<Rightarrow> rs_value sample = V_Numeric (F_Fin (121 / 10)) \<and> rs_raw sample = ''12.1''
          \<and> op_kind (manual_ops x) d = ''MANUAL'')"

definition reading_before_the_operator_types_is_a_wait_not_a_fault :: "externals \<Rightarrow> utc \<Rightarrow> bool" where
  "reading_before_the_operator_types_is_a_wait_not_a_fault x now =
     (case fst (manual_read x (entering now []) (PointRef ''final_torque'') (manual_connected now ''ST-01'')) of
        Inl err \<Rightarrow> is_transient err
      | Inr _ \<Rightarrow> False)"

definition each_entry_is_consumed_once :: "externals \<Rightarrow> utc \<Rightarrow> bool" where
  "each_entry_is_consumed_once x now \<longleftrightarrow>
     (let r1 = manual_read x (entering now [(''t'', V_Numeric (F_Fin 1))]) (PointRef ''t'')
            (manual_connected now ''ST-01'');
          r2 = manual_read x (entering now []) (PointRef ''t'') (snd r1)
      in is_ok (fst r1) \<and> \<not> is_ok (fst r2))"

definition a_corrected_entry_replaces_an_uncollected_one :: "externals \<Rightarrow> utc \<Rightarrow> bool" where
  "a_corrected_entry_replaces_an_uncollected_one x now \<longleftrightarrow>
     reads (manual_read x (entering now [(''t'', V_Numeric (F_Fin 11)), (''t'', V_Numeric (F_Fin (121 / 10)))])
       (PointRef ''t'') (manual_connected now ''ST-01'')) (V_Numeric (F_Fin (121 / 10)))"

definition a_manual_station_cannot_drive_an_interlock :: "utc \<Rightarrow> bool" where
  "a_manual_station_cannot_drive_an_interlock now =
     (case fst (manual_write (quiet now) (PointRef ''interlock'') (V_Boolean True) (manual_new ''ST-01'')) of
        Inl (Unsupported _ _ _) \<Rightarrow> True
      | _ \<Rightarrow> False)"

lemma manual_tests:
  "reading_before_the_operator_types_is_a_wait_not_a_fault x now" "each_entry_is_consumed_once x now"
  "a_corrected_entry_replaces_an_uncollected_one x now" "a_manual_station_cannot_drive_an_interlock now"
  by code_simp+

lemma manual_entry_test:
  "dbg_f64 x (F_Fin (121 / 10)) = ''12.1'' \<Longrightarrow> an_operator_entry_reads_back_like_any_device_value x now"
  by (simp add: an_operator_entry_reads_back_like_any_device_value_def manual_read_def manual_drain_def entering_def
      manual_connected_def manual_connect_def manual_new_def quiet_def manual_ops_def Let_def)

section \<open>The line protocol\<close>

text \<open>\<open>nearest\<close> rounds a decimal number to a double, in the tests' literals as in what the driver reads.\<close>

type_synonym rounding = "bool \<Rightarrow> rat \<Rightarrow> f64"

definition readings_are_extracted_from_the_formats_instruments_actually_emit :: "rounding \<Rightarrow> bool" where
  "readings_are_extracted_from_the_formats_instruments_actually_emit nearest \<longleftrightarrow>
     parse_line nearest ''12.1'' = Some (nearest False (121 / 10))
     \<and> parse_line nearest ''T: 12.1 NM'' = Some (nearest False (121 / 10))
     \<and> parse_line nearest ''+0012.1 kg'' = Some (nearest False (121 / 10))
     \<and> parse_line nearest ''ST,GS,+  12.1 g'' = Some (nearest False (121 / 10))
     \<and> parse_line nearest ''-3.5'' = Some (nearest True (35 / 10))"

definition a_line_with_no_number_is_not_invented :: "rounding \<Rightarrow> bool" where
  "a_line_with_no_number_is_not_invented nearest \<longleftrightarrow>
     parse_line nearest ''ERROR'' = None \<and> parse_line nearest [] = None \<and> parse_line nearest ''---'' = None"

text \<open>
  The fake instrument sends its lines to the one connection it accepts and then closes it, so that every later read
  is at the end of the stream.
\<close>

definition instrument_line :: "utc \<Rightarrow> string list \<Rightarrow> nat \<Rightarrow> surroundings" where
  "instrument_line now ls k = (quiet now)\<lparr>sur_line := LineRead (if k < length ls then ls ! k else [])\<rparr>"

definition cfg_for :: "string \<Rightarrow> u64 \<Rightarrow> device_config" where
  "cfg_for host port = test_config ''TORQUE-1'' ''TCP_LINE''
     (JObject [(''host'', JString host), (''port'', JNumber (show_word port))]) 2000"

definition tcp_connected :: "utc \<Rightarrow> string \<Rightarrow> u64 \<Rightarrow> (device_error + unit) \<times> tcp_driver" where
  "tcp_connected now host port = tcp_connect (quiet now) (cfg_for host port) (tcp_new ''TORQUE-1'')"

definition a_real_socket_reading_round_trips_with_its_raw_bytes :: "rounding \<Rightarrow> utc \<Rightarrow> string \<Rightarrow> u64 \<Rightarrow> bool" where
  "a_real_socket_reading_round_trips_with_its_raw_bytes nearest now host port =
     (case tcp_connected now host port of (res, d) \<Rightarrow> is_ok res
        \<and> (case tcp_read nearest (instrument_line now [torque_line] 0) (PointRef ''final_torque'') d of
             (Inl _, _) \<Rightarrow> False
           | (Inr sample, d') \<Rightarrow> rs_value sample = V_Numeric (nearest False (121 / 10))
               \<and> rs_raw sample = torque_line \<and> dh_connected (td_health d')))"

definition successive_readings_are_distinct :: "rounding \<Rightarrow> utc \<Rightarrow> string \<Rightarrow> u64 \<Rightarrow> bool" where
  "successive_readings_are_distinct nearest now host port =
     (case tcp_connected now host port of (res, d) \<Rightarrow> is_ok res
        \<and> (let ls = [''11.0'' @ [CHR 0x0A], ''12.5'' @ [CHR 0x0A]];
               r1 = tcp_read nearest (instrument_line now ls 0) (PointRef ''t'') d;
               r2 = tcp_read nearest (instrument_line now ls 1) (PointRef ''t'') (snd r1)
           in reads r1 (V_Numeric (nearest False 11)) \<and> reads r2 (V_Numeric (nearest False (125 / 10)))))"

definition an_unparseable_line_keeps_the_connection_and_the_bytes ::
  "rounding \<Rightarrow> utc \<Rightarrow> string \<Rightarrow> u64 \<Rightarrow> bool" where
  "an_unparseable_line_keeps_the_connection_and_the_bytes nearest now host port =
     (case tcp_connected now host port of (res, d) \<Rightarrow> is_ok res
        \<and> (let ls = [''ERR CAL'' @ [CHR 0x0A], ''12.1'' @ [CHR 0x0A]];
               r1 = tcp_read nearest (instrument_line now ls 0) (PointRef ''t'') d;
               r2 = tcp_read nearest (instrument_line now ls 1) (PointRef ''t'') (snd r1)
           in (case fst r1 of Inl (Unparseable _ raw) \<Rightarrow> contains ''ERR CAL'' raw | _ \<Rightarrow> False)
              \<and> reads r2 (V_Numeric (nearest False (121 / 10)))))"

definition refusing :: "utc \<Rightarrow> string \<Rightarrow> surroundings" where
  "refusing now e = (quiet now)\<lparr>sur_dial := (\<lambda>_. DialFailed e)\<rparr>"

definition a_refused_connection_is_reported_not_panicked :: "utc \<Rightarrow> string \<Rightarrow> bool" where
  "a_refused_connection_is_reported_not_panicked now e =
     (case tcp_connect (refusing now e) (test_config ''TORQUE-1'' ''TCP_LINE''
         (JObject [(''host'', JString ''127.0.0.1''), (''port'', JNumber ''1'')]) 1000) (tcp_new ''TORQUE-1'') of
        (Inl err, d) \<Rightarrow> is_transient err \<and> \<not> dh_connected (td_health d)
      | (Inr _, _) \<Rightarrow> False)"

definition a_device_that_hangs_up_forces_a_reconnect :: "rounding \<Rightarrow> utc \<Rightarrow> string \<Rightarrow> u64 \<Rightarrow> bool" where
  "a_device_that_hangs_up_forces_a_reconnect nearest now host port =
     (case tcp_connected now host port of (res, d) \<Rightarrow> is_ok res
        \<and> (let r1 = tcp_read nearest (instrument_line now [] 0) (PointRef ''t'') d;
               r2 = tcp_read nearest (instrument_line now [] 1) (PointRef ''t'') (snd r1)
           in (case fst r1 of Inl err \<Rightarrow> is_transient err | Inr _ \<Rightarrow> False)
              \<and> (case fst r2 of Inl (NotConnected _ _) \<Rightarrow> True | _ \<Rightarrow> False)))"

definition reading_before_connecting_is_an_error_not_a_panic :: "rounding \<Rightarrow> surroundings \<Rightarrow> bool" where
  "reading_before_connecting_is_an_error_not_a_panic nearest e \<longleftrightarrow>
     \<not> is_ok (fst (tcp_read nearest e (PointRef ''t'') (tcp_new ''TORQUE-1'')))"

definition missing_port_configuration_names_the_setting :: "surroundings \<Rightarrow> bool" where
  "missing_port_configuration_names_the_setting e =
     (case fst (tcp_connect e (test_config ''TORQUE-1'' ''TCP_LINE''
         (JObject [(''host'', JString ''127.0.0.1'')]) 500) (tcp_new ''TORQUE-1'')) of
        Inl err \<Rightarrow> contains ''port'' (device_error_display err)
      | Inr _ \<Rightarrow> False)"

lemma parse_u64_show [simp]: "parse_u64 (show_word w) = Some w"
proof -
  have "list_all is_digit_char (show_nat (unat w))"
    by (auto simp: list_all_iff dest: show_nat_digits)
  moreover have "\<not> 2 ^ 64 \<le> unat w"
    using unsigned_less [of w] by (simp add: not_le)
  ultimately show ?thesis
    by (simp add: parse_u64_def show_word_def)
qed

lemma tcp_opens:
  "tcp_connected now host port = (Inr (), \<lparr>td_code = ''TORQUE-1'', td_addr = host @ '':'' @ show_word port,
     td_timeout_ms = 2000, td_poll = None, td_stream = True, td_health = record_success now default_health\<rparr>)"
  by (simp add: tcp_connected_def tcp_connect_def cfg_for_def test_config_def require_str_def str_field_def
      quiet_def tcp_new_def)

lemmas line_eval = parse_line_def flush_token_def parse_f64_def decimal_token_def decimal_magnitude_def
  is_digit_char_def read_nat_def digit_val_def trim_def is_space_def

lemma test_lines:
  "parse_line nearest (trim torque_line) = Some (nearest False (121 / 10))"
  "parse_line nearest (trim (''11.0'' @ [CHR 0x0A])) = Some (nearest False 11)"
  "parse_line nearest (trim (''12.5'' @ [CHR 0x0A])) = Some (nearest False (125 / 10))"
  "parse_line nearest (trim (''12.1'' @ [CHR 0x0A])) = Some (nearest False (121 / 10))"
  "parse_line nearest (trim (''ERR CAL'' @ [CHR 0x0A])) = None"
  by (simp_all add: line_eval torque_line_def)

lemma line_tests:
  "readings_are_extracted_from_the_formats_instruments_actually_emit nearest"
  "a_line_with_no_number_is_not_invented nearest"
  by (simp_all add: readings_are_extracted_from_the_formats_instruments_actually_emit_def
      a_line_with_no_number_is_not_invented_def line_eval)

lemma parse_u64_one: "parse_u64 ''1'' = Some 1"
  by (simp add: parse_u64_def is_digit_char_def read_nat_def digit_val_def)

lemma tcp_error_tests:
  "a_refused_connection_is_reported_not_panicked now e"
  "reading_before_connecting_is_an_error_not_a_panic nearest s" "missing_port_configuration_names_the_setting s"
proof -
  show "a_refused_connection_is_reported_not_panicked now e"
    by (simp add: a_refused_connection_is_reported_not_panicked_def tcp_connect_def test_config_def
        require_str_def str_field_def refusing_def tcp_new_def default_health_def parse_u64_one)
  show "reading_before_connecting_is_an_error_not_a_panic nearest s" "missing_port_configuration_names_the_setting s"
    by code_simp+
qed

lemma tcp_reading_tests:
  "a_real_socket_reading_round_trips_with_its_raw_bytes nearest now host port"
  "successive_readings_are_distinct nearest now host port"
  "an_unparseable_line_keeps_the_connection_and_the_bytes nearest now host port"
  "a_device_that_hangs_up_forces_a_reconnect nearest now host port"
proof -
  have "torque_line \<noteq> []" "contains ''ERR CAL'' (''ERR CAL'' @ [CHR 0x0A])"
    by code_simp+
  note eval = tcp_opens tcp_read_def tcp_exchange_def instrument_line_def quiet_def reads_def record_success_def
    record_failure_def test_lines this
  show "a_real_socket_reading_round_trips_with_its_raw_bytes nearest now host port"
    by (simp add: a_real_socket_reading_round_trips_with_its_raw_bytes_def eval)
  show "successive_readings_are_distinct nearest now host port"
    using test_lines(2,3) by (simp add: successive_readings_are_distinct_def eval Let_def)
  show "an_unparseable_line_keeps_the_connection_and_the_bytes nearest now host port"
    using test_lines(4,5) eval(11)
    by (simp add: an_unparseable_line_keeps_the_connection_and_the_bytes_def eval Let_def)
  show "a_device_that_hangs_up_forces_a_reconnect nearest now host port"
    by (simp add: a_device_that_hangs_up_forces_a_reconnect_def eval Let_def)
qed

section \<open>The registry\<close>

text \<open>
  The device that is dead is a TCP device pointed at a port that refuses the connection with the message \<open>e\<close>; what
  happens outside is the same whichever device is called and however often.
\<close>

definition test_cfg :: "string \<Rightarrow> device_config" where
  "test_cfg code = test_config code ''SIMULATED'' (JObject []) 50"

definition a_registry_serves_reads_by_device_code :: "externals \<Rightarrow> rounding \<Rightarrow> utc \<Rightarrow> 128 word \<Rightarrow> bool" where
  "a_registry_serves_reads_by_device_code x nearest now seed \<longleftrightarrow>
     (let D = boxed_ops x nearest;
          r0 = registry_insert (test_cfg ''TORQUE-1'')
            (SimulatedBox (with_default ''t'' (V_Numeric (F_Fin 12)) (simulated_new ''TORQUE-1''))) registry_new;
          r1 = snd (connect_all D (\<lambda>_. quiet now) r0);
          s = registry_read D (\<lambda>_. quiet now) seed ''TORQUE-1'' (PointRef ''t'') r1
      in reads s (V_Numeric (F_Fin 12)) \<and> registry_codes (snd s) = [''TORQUE-1''])"

definition a_dropped_device_is_reconnected_transparently :: "externals \<Rightarrow> rounding \<Rightarrow> utc \<Rightarrow> 128 word \<Rightarrow> bool" where
  "a_dropped_device_is_reconnected_transparently x nearest now seed \<longleftrightarrow>
     (let D = boxed_ops x nearest;
          r0 = registry_insert (test_cfg ''TORQUE-1'') (SimulatedBox (with_default ''t'' (V_Numeric (F_Fin 12))
            (with_script ''t'' SDisconnect (simulated_new ''TORQUE-1'')))) registry_new;
          r1 = snd (connect_all D (\<lambda>_. quiet now) r0)
      in reads (registry_read D (\<lambda>_. quiet now) seed ''TORQUE-1'' (PointRef ''t'') r1) (V_Numeric (F_Fin 12)))"

definition one_dead_device_does_not_stop_the_others_coming_up ::
  "externals \<Rightarrow> rounding \<Rightarrow> utc \<Rightarrow> string \<Rightarrow> 128 word \<Rightarrow> bool" where
  "one_dead_device_does_not_stop_the_others_coming_up x nearest now e seed \<longleftrightarrow>
     (let D = boxed_ops x nearest;
          r0 = registry_insert (test_cfg ''GOOD'')
            (SimulatedBox (with_default ''t'' (V_Numeric (F_Fin 1)) (simulated_new ''GOOD''))) registry_new;
          bad = (test_cfg ''BAD'')\<lparr>dc_kind := ''TCP_LINE'',
            dc_settings := JObject [(''host'', JString ''127.0.0.1''), (''port'', JNumber ''1'')],
            dc_timeout_ms := 500\<rparr>;
          r1 = registry_insert bad (TcpBox (tcp_new ''BAD'')) r0;
          (failures, r2) = connect_all D (\<lambda>_. refusing now e) r1
      in length failures = 1
         \<and> is_ok (fst (registry_read D (\<lambda>_. refusing now e) seed ''GOOD'' (PointRef ''t'') r2)))"

definition an_unregistered_device_is_an_error_not_a_panic ::
  "externals \<Rightarrow> rounding \<Rightarrow> (nat \<Rightarrow> surroundings) \<Rightarrow> 128 word \<Rightarrow> bool" where
  "an_unregistered_device_is_an_error_not_a_panic x nearest w seed \<longleftrightarrow>
     \<not> is_ok (fst (registry_read (boxed_ops x nearest) w seed ''NOPE'' (PointRef ''t'') registry_new))"

definition interlock_writes_reach_the_driver :: "externals \<Rightarrow> rounding \<Rightarrow> utc \<Rightarrow> bool" where
  "interlock_writes_reach_the_driver x nearest now \<longleftrightarrow>
     (let D = boxed_ops x nearest;
          r0 = registry_insert (test_cfg ''PLC-1'') (SimulatedBox (simulated_new ''PLC-1'')) registry_new;
          r1 = snd (connect_all D (\<lambda>_. quiet now) r0)
      in is_ok (fst (registry_write D (quiet now) ''PLC-1'' (PointRef ''interlock'') (V_Boolean True) r1)))"

lemma registry_tests:
  "a_registry_serves_reads_by_device_code x nearest now seed"
  "a_dropped_device_is_reconnected_transparently x nearest now seed"
  "one_dead_device_does_not_stop_the_others_coming_up x nearest now e seed"
  "an_unregistered_device_is_an_error_not_a_panic x nearest w seed"
  "interlock_writes_reach_the_driver x nearest now"
proof -
  have "''BAD'' < ''GOOD''"
    by code_simp
  note eval = this parse_u64_one registry_new_def registry_insert_def registry_read_def registry_write_def registry_codes_def
    entry_read_def test_cfg_def test_config_def quiet_def refusing_def boxed_ops_def simulated_ops_def tcp_ops_def
    simulated_connect_def simulated_read_def simulated_result_def simulated_write_def pop_script_def
    simulated_new_def with_default_def with_script_def tcp_connect_def tcp_new_def require_str_def str_field_def
    reads_def Let_def bt_get_def bt_keys_def
  show "a_registry_serves_reads_by_device_code x nearest now seed"
    by (simp add: a_registry_serves_reads_by_device_code_def eval)
  show "a_dropped_device_is_reconnected_transparently x nearest now seed"
    by (simp add: a_dropped_device_is_reconnected_transparently_def eval)
  show "one_dead_device_does_not_stop_the_others_coming_up x nearest now e seed"
    by (simp add: one_dead_device_does_not_stop_the_others_coming_up_def eval)
  show "an_unregistered_device_is_an_error_not_a_panic x nearest w seed"
    by (simp add: an_unregistered_device_is_an_error_not_a_panic_def eval)
  show "interlock_writes_reach_the_driver x nearest now"
    by (simp add: interlock_writes_reach_the_driver_def eval)
qed

end
