(* ===== verification/Dots.thy ===== *)
theory Dots
  imports Instrument
begin

text \<open>
  From millimetres to printer dots, \<open>mm_to_dots\<close> of \<open>crates/trace-mark/src/template.rs\<close>: the argument \<open>to_dots\<close>
  of the label theory, on doubles that are exact arithmetic rounded by \<open>nearest\<close>.  What is relied on of the
  rounding is that it is close to the number.
\<close>

section \<open>Doubles\<close>

definition f64_div :: "(bool \<Rightarrow> rat \<Rightarrow> f64) \<Rightarrow> f64 \<Rightarrow> f64 \<Rightarrow> f64" where
  "f64_div nearest a b =
     (let neg = (f64_negative a \<noteq> f64_negative b) in
      if is_nan a \<or> is_nan b \<or> f64_infinite a \<and> f64_infinite b then F_NaN
      else if f64_infinite a then (if neg then F_NegInf else F_PosInf)
      else if f64_infinite b then (if neg then F_NegZero else F_Fin 0)
      else if f64_val b = 0 then (if f64_val a = 0 then F_NaN else if neg then F_NegInf else F_PosInf)
      else if f64_val a = 0 then (if neg then F_NegZero else F_Fin 0)
      else f64_round nearest (f64_val a / f64_val b))"

text \<open>\<open>f64::round\<close>: to the nearest integer, halves away from zero; exact, the sign of zero kept.\<close>

definition f64_integer :: "f64 \<Rightarrow> f64" where
  "f64_integer a =
     (case a of
        F_Fin q \<Rightarrow>
          (let n = \<lfloor>\<bar>q\<bar> + 1 / 2\<rfloor> in
           if q < 0 then (if n = 0 then F_NegZero else F_Fin (- of_int n)) else F_Fin (of_int n))
      | _ \<Rightarrow> a)"

text \<open>The cast \<open>as u32\<close>: it saturates, and not a number is zero.\<close>

definition f64_as_u32 :: "f64 \<Rightarrow> u32" where
  "f64_as_u32 a =
     (case a of
        F_PosInf \<Rightarrow> - 1
      | F_Fin q \<Rightarrow> if q \<le> 0 then 0 else if 2 ^ 32 \<le> q then - 1 else of_int \<lfloor>q\<rfloor>
      | _ \<Rightarrow> 0)"

definition mm_to_dots :: "(bool \<Rightarrow> rat \<Rightarrow> f64) \<Rightarrow> f64 \<Rightarrow> u32 \<Rightarrow> u32" where
  "mm_to_dots nearest mm dpi =
     f64_as_u32 (f64_integer (f64_mul nearest (f64_div nearest mm (nearest False (254 / 10)))
       (F_Fin (of_nat (unat dpi)))))"

text \<open>What is relied on of the rounding: in a middle range, an error below a millionth of the number.\<close>

definition rounds_closely :: "(bool \<Rightarrow> rat \<Rightarrow> f64) \<Rightarrow> bool" where
  "rounds_closely nearest \<longleftrightarrow> (\<forall>neg q. 1 / 1000 \<le> q \<and> q \<le> 1000000 \<longrightarrow>
     (\<exists>r. nearest neg q = F_Fin r \<and> \<bar>r - (if neg then - q else q)\<bar> \<le> q / 1000000))"

lemma demo_rounds_closely: "rounds_closely demo_nearest"
  by (simp add: rounds_closely_def demo_nearest_def)

lemma rounds_closelyD:
  assumes "rounds_closely nearest" and "1 / 1000 \<le> q" and "q \<le> 1000000"
  obtains r where "nearest neg q = F_Fin r" and "\<bar>r - (if neg then - q else q)\<bar> \<le> q / 1000000"
  using assms unfolding rounds_closely_def by blast

lemma f64_fin_mul:
  assumes "0 < a" and "0 < b"
  shows "f64_mul nearest (F_Fin a) (F_Fin b) = nearest False (a * b)"
    and "f64_div nearest (F_Fin a) (F_Fin b) = nearest False (a / b)"
proof -
  have "0 < a * b" "0 < a / b"
    using assms by simp_all
  then have "\<not> a * b < 0" "\<not> a / b < 0" "\<bar>a * b\<bar> = a * b" "\<bar>a / b\<bar> = a / b"
    by linarith+
  then show "f64_mul nearest (F_Fin a) (F_Fin b) = nearest False (a * b)"
      "f64_div nearest (F_Fin a) (F_Fin b) = nearest False (a / b)"
    using assms by (simp_all add: f64_mul_def f64_div_def f64_round_def f64_negative_def f64_infinite_def
        is_nan_def Let_def)
qed

text \<open>
  How many dots a length has: exact division and a rounding at each step give the integer that is clearly
  nearest to the exact number of dots.
\<close>

lemma dots_of_length:
  assumes law: "rounds_closely nearest" and m: "1 \<le> m" "m \<le> 500" and dpi: "1 \<le> unat dpi" "unat dpi \<le> 1000"
    and n: "\<bar>m * of_nat (unat dpi) * 10 / 254 - of_int n\<bar> \<le> 2 / 5" "0 < n"
  shows "mm_to_dots nearest (F_Fin m) dpi = of_int n"
proof -
  define d where "d = (of_nat (unat dpi) :: rat)"
  have d: "1 \<le> d" "d \<le> 1000"
    using dpi unfolding d_def by (simp_all flip: of_nat_le_iff [where ?'a = rat])
  obtain c where c: "nearest False (254 / 10) = F_Fin c" "\<bar>c - 254 / 10\<bar> \<le> 254 / 10 / 1000000"
    using rounds_closelyD [OF law, of "254 / 10" False] by auto
  then have c': "254 / 10 - 254 / 10000000 \<le> c" "c \<le> 254 / 10 + 254 / 10000000"
    unfolding abs_le_iff by linarith+
  then have pos: "25 < c" "c < 26"
    by linarith+
  define q where "q = m / c"
  have q: "1 / 26 \<le> q" "q \<le> 20"
    using m pos by (simp_all add: q_def field_simps)
  obtain r where r: "nearest False q = F_Fin r" "\<bar>r - q\<bar> \<le> q / 1000000"
    using rounds_closelyD [OF law, of q False] q by auto
  define x where "x = m * d * 10 / 254"
  define y where "y = q * d"
  have "m * d \<le> 500 * 1000"
    using m d by (intro mult_mono) simp_all
  then have x: "x \<le> 19700"
    unfolding x_def by linarith
  have "y * c = 254 / 10 * x"
    using pos by (simp add: y_def q_def x_def field_simps)
  moreover have "0 \<le> y"
    using q d by (simp add: y_def)
  then have "y * (254 / 10 - 254 / 10000000) \<le> y * c" "y * c \<le> y * (254 / 10 + 254 / 10000000)"
    using c' by (intro mult_left_mono; simp)+
  ultimately have y: "y * (1 - 1 / 1000000) \<le> x" "x \<le> y * (1 + 1 / 1000000)"
    by (simp_all add: field_simps)
  have "\<bar>r * d - y\<bar> = \<bar>r - q\<bar> * d"
    using d by (simp add: y_def abs_mult flip: left_diff_distrib)
  also have "\<dots> \<le> y / 1000000"
    using mult_right_mono [OF r(2), of d] d by (simp add: y_def)
  finally have z: "r * d - y \<le> y / 1000000" "y - r * d \<le> y / 1000000"
    unfolding abs_le_iff by linarith+
  have y': "1 / 30 \<le> y" "y \<le> 20000"
    using mult_mono [OF q(1) d(1)] q x y by (simp_all add: y_def)
  then have range: "1 / 1000 \<le> r * d" "r * d \<le> 1000000"
    using z by linarith+
  then obtain s where s: "nearest False (r * d) = F_Fin s" "\<bar>s - r * d\<bar> \<le> r * d / 1000000"
    using rounds_closelyD [OF law, of "r * d" False] by auto
  have "s - r * d \<le> r * d / 1000000" "r * d - s \<le> r * d / 1000000"
    using s(2) unfolding abs_le_iff by linarith+
  moreover have "x - of_int n \<le> 2 / 5" "of_int n - x \<le> 2 / 5"
    using n(1) unfolding x_def d_def abs_le_iff by linarith+
  moreover have "y - x \<le> y / 1000000" "x - y \<le> y / 1000000"
    using y by (simp_all add: field_simps)
  moreover define w where "w = r * d"
  ultimately have near: "s - of_int n < 1 / 2" "of_int n - s < 1 / 2"
    using x y' z unfolding w_def [symmetric] by linarith+
  have "1 \<le> (of_int n :: rat)" "(of_int n :: rat) \<le> 20000"
    using n(2) near x \<open>of_int n - x \<le> 2 / 5\<close> by simp_all
  then have "0 < s"
    using near by linarith
  then have "\<lfloor>\<bar>s\<bar> + 1 / 2\<rfloor> = n"
    using near by (simp add: floor_eq_iff)
  moreover have "0 < r"
    using q r(2) unfolding abs_le_iff by linarith
  then have "f64_mul nearest (F_Fin r) (F_Fin (of_nat (unat dpi))) = F_Fin s"
    using s(1) d unfolding d_def [symmetric] by (simp add: f64_fin_mul)
  moreover have "f64_div nearest (F_Fin m) (F_Fin c) = F_Fin r"
    using m pos r(1) by (simp add: f64_fin_mul q_def)
  ultimately show ?thesis
    using \<open>0 < s\<close> \<open>1 \<le> of_int n\<close> \<open>of_int n \<le> 20000\<close> c(1)
    unfolding mm_to_dots_def c(1) by (simp only:) (simp add: f64_integer_def f64_as_u32_def Let_def)
qed

end
