(* ===== verification/ConformMark.thy ===== *)
theory ConformMark
  imports ConformDevice Printer Dots
begin

text \<open>
  Labels and marks against the program's own unit tests: the \<open>tests\<close> modules of \<open>binding.rs\<close>, \<open>template.rs\<close>,
  \<open>zpl.rs\<close>, \<open>marker.rs\<close> and \<open>sink.rs\<close> of \<open>crates/trace-mark/src/\<close> and of \<open>tools/device-sim/src/main.rs\<close>.  The
  conversions that \<open>chrono\<close> prints for the instants of the tests are a hypothesis.
\<close>

section \<open>Bindings\<close>

text \<open>2026-09-03, at 14:30:05 and at midnight.\<close>

definition afternoon :: utc where
  "afternoon = 1788445805 * nanos_per_sec"

definition midnight :: utc where
  "midnight = 1788393600 * nanos_per_sec"

definition binding_ctx :: binding_context where
  "binding_ctx =
     binding_at afternoon
      (binding_with ''measurement.final_torque'' ''12.1''
        (binding_with ''job.number'' ''JC-2026-0912''
          (binding_with ''product.model'' ''EX-VLV-2200''
            (binding_with ''unit.serial'' ''EX24A0001537''
              (binding_with ''unit.uid'' ''01JX8P2K7F3QW9ABCDEFGHJKMN'' binding_new)))))"

text \<open>What \<open>chrono\<close> prints for an instant, conversion by conversion.\<close>

definition prints_as :: "(utc \<Rightarrow> string \<Rightarrow> string) \<Rightarrow> utc \<Rightarrow> (string \<times> string) list \<Rightarrow> bool" where
  "prints_as strftime t shown \<longleftrightarrow> list_all (\<lambda>(conv, s). strftime t conv = s) shown"

definition third_of_september :: "string \<Rightarrow> string \<Rightarrow> string \<Rightarrow> (string \<times> string) list" where
  "third_of_september h m s = [(''%Y'', ''2026''), (''%m'', ''09''), (''%d'', ''03''), (''%H'', h), (''%M'', m),
     (''%S'', s), (''%y'', ''26'')]"

definition bindings_are_substituted :: "(utc \<Rightarrow> string \<Rightarrow> string) \<Rightarrow> utc \<Rightarrow> bool" where
  "bindings_are_substituted strftime clock \<longleftrightarrow>
     render_expression strftime clock ''SR NO : {{unit.serial}}'' binding_ctx = Inr ''SR NO : EX24A0001537''"

definition multiple_bindings_in_one_string :: "(utc \<Rightarrow> string \<Rightarrow> string) \<Rightarrow> utc \<Rightarrow> bool" where
  "multiple_bindings_in_one_string strftime clock \<longleftrightarrow>
     render_expression strftime clock ''{{product.model}}/{{unit.serial}}'' binding_ctx
       = Inr ''EX-VLV-2200/EX24A0001537''"

definition text_with_no_bindings_passes_through :: "(utc \<Rightarrow> string \<Rightarrow> string) \<Rightarrow> utc \<Rightarrow> bool" where
  "text_with_no_bindings_passes_through strftime clock \<longleftrightarrow>
     render_expression strftime clock ''MADE IN INDIA'' binding_ctx = Inr ''MADE IN INDIA''"

definition whitespace_inside_the_braces_is_tolerated :: "(utc \<Rightarrow> string \<Rightarrow> string) \<Rightarrow> utc \<Rightarrow> bool" where
  "whitespace_inside_the_braces_is_tolerated strftime clock \<longleftrightarrow>
     render_expression strftime clock ''{{ unit.serial }}'' binding_ctx = Inr ''EX24A0001537''"

definition date_patterns_format_as_integrators_expect :: "(utc \<Rightarrow> string \<Rightarrow> string) \<Rightarrow> utc \<Rightarrow> bool" where
  "date_patterns_format_as_integrators_expect strftime clock \<longleftrightarrow>
     render_expression strftime clock ''{{now:dd-MM-yyyy}}'' binding_ctx = Inr ''03-09-2026''
     \<and> render_expression strftime clock ''{{now:yyyy-MM-dd}}'' binding_ctx = Inr ''2026-09-03''
     \<and> render_expression strftime clock ''{{now:HH:mm:ss}}'' binding_ctx = Inr ''14:30:05''"

definition a_four_digit_year_is_not_eaten_by_the_two_digit_token :: "(utc \<Rightarrow> string \<Rightarrow> string) \<Rightarrow> utc \<Rightarrow> bool" where
  "a_four_digit_year_is_not_eaten_by_the_two_digit_token strftime clock \<longleftrightarrow>
     render_expression strftime clock ''{{now:yyyy}}'' binding_ctx = Inr ''2026''
     \<and> render_expression strftime clock ''{{now:yy}}'' binding_ctx = Inr ''26''"

definition an_unknown_binding_refuses_to_print_rather_than_printing_a_blank ::
  "(utc \<Rightarrow> string \<Rightarrow> string) \<Rightarrow> utc \<Rightarrow> bool" where
  "an_unknown_binding_refuses_to_print_rather_than_printing_a_blank strftime clock \<longleftrightarrow>
     render_expression strftime clock ''{{unit.nonexistent}}'' binding_ctx = Inl (UnknownBinding ''unit.nonexistent'')"

definition an_unterminated_binding_is_rejected :: "(utc \<Rightarrow> string \<Rightarrow> string) \<Rightarrow> utc \<Rightarrow> bool" where
  "an_unterminated_binding_is_rejected strftime clock =
     (case render_expression strftime clock ''{{unit.serial'' binding_ctx of
        Inl (Unterminated _) \<Rightarrow> True
      | _ \<Rightarrow> False)"

text \<open>The two renders happen at two readings of the wall clock.\<close>

definition the_rendered_time_is_injected_so_labels_are_reproducible ::
  "(utc \<Rightarrow> string \<Rightarrow> string) \<Rightarrow> utc \<Rightarrow> utc \<Rightarrow> bool" where
  "the_rendered_time_is_injected_so_labels_are_reproducible strftime clock clock' \<longleftrightarrow>
     is_ok (render_expression strftime clock ''{{now:HH:mm:ss}}'' binding_ctx)
     \<and> render_expression strftime clock ''{{now:HH:mm:ss}}'' binding_ctx
       = render_expression strftime clock' ''{{now:HH:mm:ss}}'' binding_ctx"

lemma binding_tests:
  "bindings_are_substituted strftime clock" "multiple_bindings_in_one_string strftime clock"
  "text_with_no_bindings_passes_through strftime clock" "whitespace_inside_the_braces_is_tolerated strftime clock"
  "an_unknown_binding_refuses_to_print_rather_than_printing_a_blank strftime clock"
  "an_unterminated_binding_is_rejected strftime clock"
  by code_simp+

text \<open>With the time injected, an expression depends on no clock and on the seven conversions only.\<close>

definition shown_as :: "(string \<times> string) list \<Rightarrow> utc \<Rightarrow> string \<Rightarrow> string" where
  "shown_as shown t conv = (case map_of shown conv of None \<Rightarrow> [] | Some s \<Rightarrow> s)"

lemma render_shown:
  assumes "prints_as strftime t (third_of_september h m s)" and "bc_now ctx = Some t"
  shows "render_expression strftime clock e ctx
    = render_expression (shown_as (third_of_september h m s)) clock' e ctx"
proof -
  have "resolve strftime clock ctx = resolve (shown_as (third_of_september h m s)) clock' ctx"
    using assms by (intro ext) (simp add: resolve_def format_datetime_def prints_as_def shown_as_def
        third_of_september_def)
  then show ?thesis
    by (simp add: render_expression_def)
qed

lemma date_tests:
  assumes "prints_as strftime afternoon (third_of_september ''14'' ''30'' ''05'')"
  shows "date_patterns_format_as_integrators_expect strftime clock"
    and "a_four_digit_year_is_not_eaten_by_the_two_digit_token strftime clock"
    and "the_rendered_time_is_injected_so_labels_are_reproducible strftime clock clock'"
proof -
  let ?shown = "shown_as (third_of_september ''14'' ''30'' ''05'')"
  have now: "bc_now binding_ctx = Some afternoon"
    by (simp add: binding_ctx_def binding_at_def)
  note shown = render_shown [OF assms now, of clock _ 0] render_shown [OF assms now, of clock' _ 0]
  have "date_patterns_format_as_integrators_expect ?shown 0"
      "a_four_digit_year_is_not_eaten_by_the_two_digit_token ?shown 0"
      "the_rendered_time_is_injected_so_labels_are_reproducible ?shown 0 0"
    by code_simp+
  then show "date_patterns_format_as_integrators_expect strftime clock"
      "a_four_digit_year_is_not_eaten_by_the_two_digit_token strftime clock"
      "the_rendered_time_is_injected_so_labels_are_reproducible strftime clock clock'"
    unfolding date_patterns_format_as_integrators_expect_def a_four_digit_year_is_not_eaten_by_the_two_digit_token_def
      the_rendered_time_is_injected_so_labels_are_reproducible_def shown .
qed

section \<open>Templates\<close>

definition label_ctx :: binding_context where
  "label_ctx =
     binding_at midnight
      (binding_with ''unit.trace_url'' ''http://trace.plant.local/t/01JX8P2K7F3QW9ABCDEFGHJKMN''
        (binding_with ''job.number'' ''JC-2026-0912''
          (binding_with ''product.model'' ''EX-VLV-2200''
            (binding_with ''unit.serial'' ''EX24A0001537'' binding_new))))"

definition millimetres_convert_to_dots_at_203_dpi :: "rounding \<Rightarrow> bool" where
  "millimetres_convert_to_dots_at_203_dpi nearest \<longleftrightarrow>
     mm_to_dots nearest (F_Fin 50) 203 = 400 \<and> mm_to_dots nearest (F_Fin 25) 203 = 200
     \<and> mm_to_dots nearest (nearest False (254 / 10)) 203 = 203"

definition the_demo_sticker_is_a_valid_400x200_dot_canvas :: "rounding \<Rightarrow> bool" where
  "the_demo_sticker_is_a_valid_400x200_dot_canvas nearest \<longleftrightarrow>
     (let to_dots = mm_to_dots nearest in
      is_ok (template_validate to_dots demo_sticker)
      \<and> (width_dots to_dots demo_sticker, height_dots to_dots demo_sticker) = (400, 200))"

definition binding_a_template_resolves_every_element :: "(utc \<Rightarrow> string \<Rightarrow> string) \<Rightarrow> utc \<Rightarrow> bool" where
  "binding_a_template_resolves_every_element strftime clock =
     (case template_bind strftime clock demo_sticker label_ctx of
        Inl _ \<Rightarrow> False
      | Inr bound \<Rightarrow>
          (let texts = List.map_filter element_value (lt_elements bound) in
           ''MODEL : EX-VLV-2200'' \<in> set texts \<and> ''SR NO : EX24A0001537'' \<in> set texts
           \<and> ''DATE  : 03-09-2026'' \<in> set texts
           \<and> list_ex (contains ''http://trace.plant.local/t/'') texts
           \<and> list_all (\<lambda>t. \<not> contains ''{{'' t) texts))"

definition a_missing_binding_stops_the_print :: "(utc \<Rightarrow> string \<Rightarrow> string) \<Rightarrow> utc \<Rightarrow> bool" where
  "a_missing_binding_stops_the_print strftime clock \<longleftrightarrow>
     \<not> is_ok (template_bind strftime clock demo_sticker (binding_with ''unit.serial'' ''X'' binding_new))"

definition an_element_off_the_media_is_caught_before_printing :: "rounding \<Rightarrow> bool" where
  "an_element_off_the_media_is_caught_before_printing nearest =
     (case template_validate (mm_to_dots nearest) (demo_sticker\<lparr>lt_elements :=
         lt_elements demo_sticker @ [TextEl 9999 10 20 20 ''off the edge'' AlignLeft]\<rparr>) of
        Inl (Invalid e) \<Rightarrow> contains ''outside'' e
      | _ \<Rightarrow> False)"

definition degenerate_canvases_are_rejected :: "rounding \<Rightarrow> bool" where
  "degenerate_canvases_are_rejected nearest \<longleftrightarrow>
     \<not> is_ok (template_validate (mm_to_dots nearest) (demo_sticker\<lparr>lt_width_mm := F_Fin 0\<rparr>))
     \<and> \<not> is_ok (template_validate (mm_to_dots nearest) (demo_sticker\<lparr>lt_dpi := 0\<rparr>))
     \<and> \<not> is_ok (template_validate (mm_to_dots nearest) (demo_sticker\<lparr>lt_elements := []\<rparr>))"

text \<open>The two lengths of the demo sticker, converted.\<close>

definition demo_dots :: "f64 \<Rightarrow> u32 \<Rightarrow> u32" where
  "demo_dots mm dpi = (if mm = F_Fin 50 then 400 else if mm = F_Fin 25 then 200 else 0)"

lemma dots_tests:
  assumes "rounds_closely nearest"
  shows "mm_to_dots nearest (F_Fin 50) 203 = 400" and "mm_to_dots nearest (F_Fin 25) 203 = 200"
    and "mm_to_dots nearest (nearest False (254 / 10)) 203 = 203"
proof -
  show "mm_to_dots nearest (F_Fin 50) 203 = 400" "mm_to_dots nearest (F_Fin 25) 203 = 200"
    using dots_of_length [OF assms, of 50 203 400] dots_of_length [OF assms, of 25 203 200] by simp_all
  obtain c where c: "nearest False (254 / 10) = F_Fin c" "\<bar>c - 254 / 10\<bar> \<le> 254 / 10 / 1000000"
    using rounds_closelyD [OF assms, of "254 / 10" False] by auto
  then have "253 / 10 \<le> c" "c \<le> 255 / 10" "c - 254 / 10 \<le> 1 / 1000" "254 / 10 - c \<le> 1 / 1000"
    unfolding abs_le_iff by linarith+
  then have "\<bar>c * 203 * 10 / 254 - 203\<bar> \<le> 2 / 5" "1 \<le> c" "c \<le> 500"
    unfolding abs_le_iff by linarith+
  then show "mm_to_dots nearest (nearest False (254 / 10)) 203 = 203"
    using dots_of_length [OF assms, of c 203 203] unfolding c(1) by simp
qed

lemma template_dots:
  assumes "width_dots f t = width_dots g t" and "height_dots f t = height_dots g t"
  shows "template_validate f t = template_validate g t" and "render_zpl f t = render_zpl g t"
proof -
  show valid: "template_validate f t = template_validate g t"
    by (simp only: template_validate_def assms)
  have "zpl_header f t = zpl_header g t"
    by (simp only: zpl_header_def assms)
  then show "render_zpl f t = render_zpl g t"
    by (simp only: render_zpl_def valid)
qed

lemma demo_dots:
  assumes "rounds_closely nearest" and "lt_width_mm t = F_Fin 50" and "lt_height_mm t = F_Fin 25" and "lt_dpi t = 203"
  shows "template_validate (mm_to_dots nearest) t = template_validate demo_dots t"
    and "render_zpl (mm_to_dots nearest) t = render_zpl demo_dots t"
    and "width_dots (mm_to_dots nearest) t = 400" and "height_dots (mm_to_dots nearest) t = 200"
  using template_dots [of "mm_to_dots nearest" t demo_dots] dots_tests [OF assms(1)] assms(2-4)
  by (simp_all add: width_dots_def height_dots_def demo_dots_def)

lemma template_tests:
  assumes "rounds_closely nearest"
  shows "millimetres_convert_to_dots_at_203_dpi nearest" and "the_demo_sticker_is_a_valid_400x200_dot_canvas nearest"
    and "an_element_off_the_media_is_caught_before_printing nearest" and "degenerate_canvases_are_rejected nearest"
proof -
  show "millimetres_convert_to_dots_at_203_dpi nearest"
    using dots_tests [OF assms] by (simp add: millimetres_convert_to_dots_at_203_dpi_def)
  have "is_ok (template_validate demo_dots demo_sticker)"
    by code_simp
  moreover have "lt_width_mm demo_sticker = F_Fin 50" "lt_height_mm demo_sticker = F_Fin 25" "lt_dpi demo_sticker = 203"
    by (simp_all add: demo_sticker_def)
  note demo = demo_dots [OF assms this]
  ultimately show "the_demo_sticker_is_a_valid_400x200_dot_canvas nearest"
    by (simp only: the_demo_sticker_is_a_valid_400x200_dot_canvas_def Let_def demo(1,3,4) simp_thms)
  let ?off = "demo_sticker\<lparr>lt_elements := lt_elements demo_sticker @ [TextEl 9999 10 20 20 ''off the edge'' AlignLeft]\<rparr>"
  have off: "template_validate (mm_to_dots nearest) ?off = template_validate demo_dots ?off"
    by (rule demo_dots [OF assms]) (simp_all add: demo_sticker_def)
  have "template_validate demo_dots ?off = Inl (Invalid (''element '' @ show_nat 8 @ '' at ('' @ show_word (9999 :: u32)
      @ '','' @ show_word (10 :: u32) @ '') is outside the '' @ show_word (400 :: u32) @ ''x'' @ show_word (200 :: u32)
      @ '' dot canvas''))"
    by (simp add: template_validate_def demo_sticker_def width_dots_def height_dots_def demo_dots_def)
  also have "\<dots> = Inl (Invalid ((''element '' @ show_nat 8 @ '' at ('' @ show_word (9999 :: u32) @ '','' @ show_word (10 :: u32)
      @ '') is '') @ ''outside'' @ '' the '' @ show_word (400 :: u32) @ ''x'' @ show_word (200 :: u32) @ '' dot canvas''))"
    by simp
  finally show "an_element_off_the_media_is_caught_before_printing nearest"
    unfolding an_element_off_the_media_is_caught_before_printing_def off
    by (simp only: sum.case template_error.case contains_middle)
  show "degenerate_canvases_are_rejected nearest"
    by (simp add: degenerate_canvases_are_rejected_def template_validate_def demo_sticker_def)
qed

lemma missing_binding_test: "a_missing_binding_stops_the_print strftime clock"
  by code_simp

lemma bind_shown:
  assumes "prints_as strftime t (third_of_september h m s)" and "bc_now ctx = Some t"
  shows "template_bind strftime clock tmpl ctx = template_bind (shown_as (third_of_september h m s)) 0 tmpl ctx"
  by (simp add: template_bind_def render_shown [OF assms, of clock _ 0])

lemma binding_test:
  assumes "prints_as strftime midnight (third_of_september ''00'' ''00'' ''00'')"
  shows "binding_a_template_resolves_every_element strftime clock"
proof -
  have now: "bc_now label_ctx = Some midnight"
    by (simp add: label_ctx_def binding_at_def)
  have "binding_a_template_resolves_every_element (shown_as (third_of_september ''00'' ''00'' ''00'')) 0"
    by code_simp
  then show ?thesis
    unfolding binding_a_template_resolves_every_element_def bind_shown [OF assms now, where clock = clock] .
qed

section \<open>ZPL\<close>

definition demo_zpl ::
  "(utc \<Rightarrow> string \<Rightarrow> string) \<Rightarrow> utc \<Rightarrow> (f64 \<Rightarrow> u32 \<Rightarrow> u32) \<Rightarrow> binding_context \<Rightarrow> template_error + string" where
  "demo_zpl strftime clock to_dots ctx =
     and_then (template_bind strftime clock demo_sticker ctx) (render_zpl to_dots)"

text \<open>What a test asserts of the text it unwraps.\<close>

definition printed :: "(string \<Rightarrow> bool) \<Rightarrow> template_error + string \<Rightarrow> bool" where
  "printed P r = (case r of Inl _ \<Rightarrow> False | Inr z \<Rightarrow> P z)"

definition the_demo_sticker_produces_the_expected_zpl_structure ::
  "(utc \<Rightarrow> string \<Rightarrow> string) \<Rightarrow> utc \<Rightarrow> (f64 \<Rightarrow> u32 \<Rightarrow> u32) \<Rightarrow> bool" where
  "the_demo_sticker_produces_the_expected_zpl_structure strftime clock to_dots =
     printed (\<lambda>z. prefix ''^XA'' z \<and> suffix ''^XZ'' (rev (dropWhile is_space (rev z))) \<and> contains ''^PW400'' z
       \<and> contains ''^LL200'' z \<and> contains ''^MD10'' z) (demo_zpl strftime clock to_dots label_ctx)"

definition every_field_is_terminated ::
  "(utc \<Rightarrow> string \<Rightarrow> string) \<Rightarrow> utc \<Rightarrow> (f64 \<Rightarrow> u32 \<Rightarrow> u32) \<Rightarrow> bool" where
  "every_field_is_terminated strftime clock to_dots =
     printed (\<lambda>z. count_matches ''^FO'' z = count_matches ''^FS'' z) (demo_zpl strftime clock to_dots label_ctx)"

definition resolved_values_reach_the_output ::
  "(utc \<Rightarrow> string \<Rightarrow> string) \<Rightarrow> utc \<Rightarrow> (f64 \<Rightarrow> u32 \<Rightarrow> u32) \<Rightarrow> bool" where
  "resolved_values_reach_the_output strftime clock to_dots =
     printed (\<lambda>z. contains ''MODEL : EX-VLV-2200'' z \<and> contains ''SR NO : EX24A0001537'' z
       \<and> contains ''JOB   : JC-2026-0912'' z \<and> contains ''DATE  : 03-09-2026'' z \<and> contains ''MADE IN INDIA'' z)
       (demo_zpl strftime clock to_dots label_ctx)"

definition the_qr_carries_the_full_trace_url ::
  "(utc \<Rightarrow> string \<Rightarrow> string) \<Rightarrow> utc \<Rightarrow> (f64 \<Rightarrow> u32 \<Rightarrow> u32) \<Rightarrow> bool" where
  "the_qr_carries_the_full_trace_url strftime clock to_dots =
     printed (\<lambda>z. contains ''^BQN,2,5'' z
       \<and> contains ''QA,http://trace.plant.local/t/01JX8P2K7F3QW9ABCDEFGHJKMN'' z)
       (demo_zpl strftime clock to_dots label_ctx)"

definition the_serial_is_also_a_code128_so_a_1d_scanner_still_works ::
  "(utc \<Rightarrow> string \<Rightarrow> string) \<Rightarrow> utc \<Rightarrow> (f64 \<Rightarrow> u32 \<Rightarrow> u32) \<Rightarrow> bool" where
  "the_serial_is_also_a_code128_so_a_1d_scanner_still_works strftime clock to_dots =
     printed (\<lambda>z. contains ''^BCN,34'' z \<and> contains ''^BY2,2.0,34'' z) (demo_zpl strftime clock to_dots label_ctx)"

definition control_characters_in_field_data_are_escaped :: bool where
  "control_characters_in_field_data_are_escaped \<longleftrightarrow>
     escape_field ''ABC^XZ'' = ''ABC_5EXZ'' \<and> escape_field ''A~B'' = ''A_7EB''
     \<and> escape_field [CHR ''A'', CHR 0x5C, CHR ''B''] = ''A_5CB''
     \<and> escape_field (''line1'' @ [CHR 0x0A] @ ''line2'') = ''line1 line2''"

definition a_hostile_serial_cannot_inject_zpl_commands ::
  "(utc \<Rightarrow> string \<Rightarrow> string) \<Rightarrow> utc \<Rightarrow> (f64 \<Rightarrow> u32 \<Rightarrow> u32) \<Rightarrow> bool" where
  "a_hostile_serial_cannot_inject_zpl_commands strftime clock to_dots =
     printed (\<lambda>z. count_matches ''^XA'' z = 1 \<and> count_matches ''^XZ'' z = 1 \<and> contains ''_5EXZ_5EXA'' z)
       (demo_zpl strftime clock to_dots (binding_with ''unit.serial'' ''EX1^XZ^XA^FO0,0^FDGOTCHA'' label_ctx))"

definition rendering_an_unbound_template_is_refused :: "(f64 \<Rightarrow> u32 \<Rightarrow> u32) \<Rightarrow> bool" where
  "rendering_an_unbound_template_is_refused to_dots =
     (case render_zpl to_dots demo_sticker of Inl (Invalid e) \<Rightarrow> contains ''unresolved binding'' e | _ \<Rightarrow> False)"

definition an_invalid_template_never_reaches_the_printer ::
  "(utc \<Rightarrow> string \<Rightarrow> string) \<Rightarrow> utc \<Rightarrow> (f64 \<Rightarrow> u32 \<Rightarrow> u32) \<Rightarrow> bool" where
  "an_invalid_template_never_reaches_the_printer strftime clock to_dots =
     (case template_bind strftime clock demo_sticker label_ctx of
        Inl _ \<Rightarrow> False
      | Inr t \<Rightarrow> \<not> is_ok (render_zpl to_dots (t\<lparr>lt_dpi := 0\<rparr>)))"

definition rendering_is_deterministic ::
  "(utc \<Rightarrow> string \<Rightarrow> string) \<Rightarrow> utc \<Rightarrow> utc \<Rightarrow> (f64 \<Rightarrow> u32 \<Rightarrow> u32) \<Rightarrow> bool" where
  "rendering_is_deterministic strftime clock clock' to_dots \<longleftrightarrow>
     demo_zpl strftime clock to_dots label_ctx = demo_zpl strftime clock' to_dots label_ctx"

lemma bind_keeps_canvas:
  assumes "template_bind strftime clock t ctx = Inr t'"
  shows "lt_width_mm t' = lt_width_mm t" "lt_height_mm t' = lt_height_mm t" "lt_dpi t' = lt_dpi t"
  using assms by (auto simp: template_bind_def outcome)

text \<open>The label of a test is the one printed with the date's text and the sticker's dots.\<close>

lemma demo_printed:
  assumes "rounds_closely nearest" and "prints_as strftime midnight (third_of_september ''00'' ''00'' ''00'')"
    and "bc_now ctx = Some midnight"
  shows "demo_zpl strftime clock (mm_to_dots nearest) ctx
    = demo_zpl (shown_as (third_of_september ''00'' ''00'' ''00'')) 0 demo_dots ctx"
proof -
  let ?bound = "template_bind (shown_as (third_of_september ''00'' ''00'' ''00'')) 0 demo_sticker ctx"
  have "and_then ?bound (render_zpl (mm_to_dots nearest)) = and_then ?bound (render_zpl demo_dots)"
  proof (cases ?bound)
    case (Inr b)
    have "lt_width_mm b = F_Fin 50" "lt_height_mm b = F_Fin 25" "lt_dpi b = 203"
      using bind_keeps_canvas [OF Inr] by (simp_all add: demo_sticker_def)
    then show ?thesis
      using demo_dots(2) [OF assms(1)] Inr by simp
  qed simp
  then show ?thesis
    by (simp only: demo_zpl_def bind_shown [OF assms(2,3), where clock = clock])
qed

text \<open>The label of the tests, line by line; what precedes and follows what a test looks for.\<close>

definition label_lines :: "string list" where
  "label_lines = [''^XA'', ''^PW400^LL200^LH0,0^MD10'', ''^FO12,12^A0N,26,26^FDElectronIx^FS'',
     ''^FO12,48^A0N,20,20^FDMODEL : EX-VLV-2200^FS'', ''^FO12,74^A0N,20,20^FDSR NO : EX24A0001537^FS'',
     ''^FO12,100^A0N,20,20^FDJOB   : JC-2026-0912^FS'', ''^FO12,126^A0N,20,20^FDDATE  : 03-09-2026^FS'',
     ''^FO250,20^BQN,2,5^FDQA,http://trace.plant.local/t/01JX8P2K7F3QW9ABCDEFGHJKMN^FS'',
     ''^FO12,152^BY2,2.0,34^BCN,34,N,N,N^FDEX24A0001537^FS'', ''^FO300,168^A0N,16,16^FDMADE IN INDIA^FS'', ''^XZ'']"

definition lines_text :: "string list \<Rightarrow> string" where
  "lines_text ls = concat (map (\<lambda>l. l @ [CHR 0x0A]) ls)"

lemma contains_parts: "contains s t \<Longrightarrow> \<exists>a b. t = a @ s @ b"
proof (induction t)
  case (Cons c t)
  show ?case
  proof (cases "take (length s) (c # t) = s")
    case True
    then have "c # t = [] @ s @ drop (length s) (c # t)"
      using append_take_drop_id [of "length s" "c # t"] by simp
    then show ?thesis
      by blast
  next
    case False
    then obtain a b where "t = a @ s @ b"
      using Cons by auto
    then have "c # t = (c # a) @ s @ b"
      by simp
    then show ?thesis
      by blast
  qed
qed simp

lemma contains_inside: "contains s t \<Longrightarrow> contains s (a @ t @ b)"
proof -
  assume "contains s t"
  then obtain u v where "t = u @ s @ v"
    using contains_parts by blast
  then show "contains s (a @ t @ b)"
    using contains_middle [of s "a @ u" "v @ b"] by simp
qed

lemma contains_line: "list_ex (contains s) ls \<Longrightarrow> contains s (lines_text ls)"
proof (induction ls)
  case (Cons l ls)
  then show ?case
    using contains_inside [of s l "[]" "CHR 0x0A # lines_text ls"]
      contains_inside [of s "lines_text ls" "l @ [CHR 0x0A]" "[]"]
    by (auto simp: lines_text_def)
qed simp

lemma rendered_counts:
  assumes "render_zpl to_dots t = Inr zpl"
  shows "count_matches ''^XA'' zpl = 1" and "count_matches ''^XZ'' zpl = 1"
    and "count_matches ''^FO'' zpl = count_matches ''^FS'' zpl"
proof -
  have count: "count_matches (CHR ''^'' # p) zpl = length (filter (prefix p) (label_program to_dots t))"
    if "CHR ''^'' \<notin> set p" for p
    unfolding render_program(1) [OF assms] by (rule count_program [OF that label_program_plain])
  have "filter (prefix p) (element_commands el) = []" if "p = ''XA'' \<or> p = ''XZ''" for p el
    using that by (cases el rule: barcodes_counted.cases; auto split: align.splits)
  then have "filter (prefix p) (concat (map element_commands els)) = []" if "p = ''XA'' \<or> p = ''XZ''" for p els
    using that by (induction els) simp_all
  then show "count_matches ''^XA'' zpl = 1" "count_matches ''^XZ'' zpl = 1"
    using count [of "''XA''"] count [of "''XZ''"] by (simp_all add: label_program_def split: option.splits)
  show "count_matches ''^FO'' zpl = count_matches ''^FS'' zpl"
    using count [of "''FO''"] count [of "''FS''"] by (simp add: label_program_counts)
qed

lemma zpl_tests:
  assumes "rounds_closely nearest" and "prints_as strftime midnight (third_of_september ''00'' ''00'' ''00'')"
  shows "the_demo_sticker_produces_the_expected_zpl_structure strftime clock (mm_to_dots nearest)"
    and "every_field_is_terminated strftime clock (mm_to_dots nearest)"
    and "resolved_values_reach_the_output strftime clock (mm_to_dots nearest)"
    and "the_qr_carries_the_full_trace_url strftime clock (mm_to_dots nearest)"
    and "the_serial_is_also_a_code128_so_a_1d_scanner_still_works strftime clock (mm_to_dots nearest)"
    and "rendering_is_deterministic strftime clock clock' (mm_to_dots nearest)"
proof -
  have now: "bc_now label_ctx = Some midnight"
    by (simp add: label_ctx_def binding_at_def)
  have shown: "demo_zpl (shown_as (third_of_september ''00'' ''00'' ''00'')) 0 demo_dots label_ctx
      = Inr (lines_text label_lines)"
    by code_simp
  then have zpl: "demo_zpl strftime c (mm_to_dots nearest) label_ctx = Inr (lines_text label_lines)" for c
    unfolding demo_printed [OF assms now, where clock = c] .
  have ends: "prefix ''^XA'' (lines_text label_lines)"
      "suffix ''^XZ'' (rev (dropWhile is_space (rev (lines_text label_lines))))"
    by code_simp+
  have "list_all (\<lambda>s. list_ex (contains s) label_lines)
      [''^PW400'', ''^LL200'', ''^MD10'', ''MODEL : EX-VLV-2200'', ''SR NO : EX24A0001537'', ''JOB   : JC-2026-0912'',
       ''DATE  : 03-09-2026'', ''MADE IN INDIA'', ''^BQN,2,5'', ''^BCN,34'', ''^BY2,2.0,34'',
       ''QA,http://trace.plant.local/t/01JX8P2K7F3QW9ABCDEFGHJKMN'']"
    by code_simp
  then have parts: "list_all (\<lambda>s. contains s (lines_text label_lines))
      [''^PW400'', ''^LL200'', ''^MD10'', ''MODEL : EX-VLV-2200'', ''SR NO : EX24A0001537'', ''JOB   : JC-2026-0912'',
       ''DATE  : 03-09-2026'', ''MADE IN INDIA'', ''^BQN,2,5'', ''^BCN,34'', ''^BY2,2.0,34'',
       ''QA,http://trace.plant.local/t/01JX8P2K7F3QW9ABCDEFGHJKMN'']"
    by (rule list.pred_mono_strong) (rule contains_line)
  show "the_demo_sticker_produces_the_expected_zpl_structure strftime clock (mm_to_dots nearest)"
      "resolved_values_reach_the_output strftime clock (mm_to_dots nearest)"
      "the_qr_carries_the_full_trace_url strftime clock (mm_to_dots nearest)"
      "the_serial_is_also_a_code128_so_a_1d_scanner_still_works strftime clock (mm_to_dots nearest)"
    using ends parts unfolding the_demo_sticker_produces_the_expected_zpl_structure_def
      resolved_values_reach_the_output_def the_qr_carries_the_full_trace_url_def
      the_serial_is_also_a_code128_so_a_1d_scanner_still_works_def zpl printed_def sum.case list.pred_inject
    by blast+
  obtain t where "render_zpl demo_dots t = Inr (lines_text label_lines)"
    using shown by (auto simp: demo_zpl_def outcome)
  then show "every_field_is_terminated strftime clock (mm_to_dots nearest)"
    unfolding every_field_is_terminated_def zpl printed_def sum.case by (rule rendered_counts(3))
  show "rendering_is_deterministic strftime clock clock' (mm_to_dots nearest)"
    by (simp only: rendering_is_deterministic_def zpl)
qed

lemma hostile_serial_test:
  assumes "rounds_closely nearest" and "prints_as strftime midnight (third_of_september ''00'' ''00'' ''00'')"
  shows "a_hostile_serial_cannot_inject_zpl_commands strftime clock (mm_to_dots nearest)"
proof -
  let ?ctx = "binding_with ''unit.serial'' ''EX1^XZ^XA^FO0,0^FDGOTCHA'' label_ctx"
  have now: "bc_now ?ctx = Some midnight"
    by (simp add: label_ctx_def binding_at_def binding_with_def)
  have "printed (contains ''_5EXZ_5EXA'') (demo_zpl (shown_as (third_of_september ''00'' ''00'' ''00'')) 0 demo_dots ?ctx)"
    by code_simp
  then obtain z where z: "demo_zpl strftime clock (mm_to_dots nearest) ?ctx = Inr z" "contains ''_5EXZ_5EXA'' z"
    unfolding demo_printed [OF assms now, where clock = clock] by (auto simp: printed_def split: sum.splits)
  then obtain t where "render_zpl (mm_to_dots nearest) t = Inr z"
    by (auto simp: demo_zpl_def outcome)
  note counts = rendered_counts [OF this]
  show ?thesis
    by (simp only: a_hostile_serial_cannot_inject_zpl_commands_def z(1) printed_def sum.case counts z(2) simp_thms)
qed

lemma refused_tests:
  assumes "rounds_closely nearest" and "prints_as strftime midnight (third_of_september ''00'' ''00'' ''00'')"
  shows "control_characters_in_field_data_are_escaped"
    and "rendering_an_unbound_template_is_refused (mm_to_dots nearest)"
    and "an_invalid_template_never_reaches_the_printer strftime clock (mm_to_dots nearest)"
proof -
  show control_characters_in_field_data_are_escaped
    by code_simp
  have "rendering_an_unbound_template_is_refused demo_dots"
    by code_simp
  moreover have "render_zpl (mm_to_dots nearest) demo_sticker = render_zpl demo_dots demo_sticker"
    by (rule demo_dots(2) [OF assms(1)]) (simp_all add: demo_sticker_def)
  ultimately show "rendering_an_unbound_template_is_refused (mm_to_dots nearest)"
    by (simp only: rendering_an_unbound_template_is_refused_def)
  have now: "bc_now label_ctx = Some midnight"
    by (simp add: label_ctx_def binding_at_def)
  have "is_ok (template_bind (shown_as (third_of_september ''00'' ''00'' ''00'')) 0 demo_sticker label_ctx)"
    by code_simp
  then obtain t where "template_bind strftime clock demo_sticker label_ctx = Inr t"
    unfolding bind_shown [OF assms(2) now, where clock = clock] is_ok_iff by blast
  then show "an_invalid_template_never_reaches_the_printer strftime clock (mm_to_dots nearest)"
    by (simp add: an_invalid_template_never_reaches_the_printer_def render_zpl_def template_validate_def)
qed

section \<open>Markers\<close>

definition a_simulated_mark_reads_back_as_what_was_marked :: bool where
  "a_simulated_mark_reads_back_as_what_was_marked =
     (case marker_mark ''01JX8P2K7F3QW9ABCDEFGHJKMN'' (marker_new ''LASER-1'') of
        (Inl _, _) \<Rightarrow> False
      | (Inr applied, m) \<Rightarrow> ma_payload_sent applied = ''01JX8P2K7F3QW9ABCDEFGHJKMN''
          \<and> read_back m = Some ''01JX8P2K7F3QW9ABCDEFGHJKMN'')"

definition a_spoiled_mark_reads_back_as_something_else :: bool where
  "a_spoiled_mark_reads_back_as_something_else =
     (case marker_mark ''01JX8P2K7F3QW9ABCDEFGHJKMN''
         (corrupting_to ''WRONGUID0000000000000000AA'' (marker_new ''LASER-1'')) of
        (res, m) \<Rightarrow> is_ok res \<and> read_back m \<noteq> Some ''01JX8P2K7F3QW9ABCDEFGHJKMN'')"

definition a_device_fault_is_reported_not_silently_swallowed :: bool where
  "a_device_fault_is_reported_not_silently_swallowed =
     (case marker_mark ''X'' (faulting (marker_new ''LASER-1'')) of
        (Inl (DeviceFault _ _), m) \<Rightarrow> is_ok (fst (marker_mark ''X'' m))
      | _ \<Rightarrow> False)"

definition the_deferred_file_drop_strategy_says_so_rather_than_pretending :: bool where
  "the_deferred_file_drop_strategy_says_so_rather_than_pretending \<longleftrightarrow>
     fst (driver_mark ''X'' FileDropMarker) = Inl (NotImplemented ''FILE_DROP'')
     \<and> driver_strategy FileDropMarker = ''FILE_DROP''"

definition markers_are_interchangeable_behind_the_trait :: bool where
  "markers_are_interchangeable_behind_the_trait \<longleftrightarrow>
     map driver_strategy [SimulatedMarker (marker_new ''SIM''), FileDropMarker] = [''SIMULATED'', ''FILE_DROP'']"

lemma marker_tests:
  "a_simulated_mark_reads_back_as_what_was_marked" "a_spoiled_mark_reads_back_as_something_else"
  "a_device_fault_is_reported_not_silently_swallowed"
  "the_deferred_file_drop_strategy_says_so_rather_than_pretending" "markers_are_interchangeable_behind_the_trait"
  by code_simp+

section \<open>Sinks\<close>

text \<open>A printer that listens, and one that cannot be reached, refusing or silent.\<close>

definition listening :: sink_event where
  "listening = \<lparr>ev_open = InTime, ev_write = InTime, ev_flush = None, ev_arrived = 0\<rparr>"

definition a_label_reaches_a_listening_printer_byte_for_byte :: "16 word \<Rightarrow> bool" where
  "a_label_reaches_a_listening_printer_byte_for_byte port \<longleftrightarrow>
     (let sink = tcp_sink_new ''127.0.0.1'' port in
      tcp_send sink listening ''^XA^FO0,0^FDtest^FS^XZ'' [] = (Inr (), ''^XA^FO0,0^FDtest^FS^XZ'')
      \<and> prefix ''tcp'' (tcp_describe sink))"

definition an_unreachable_printer_reports_rather_than_hangs :: "sink_event \<Rightarrow> bool" where
  "an_unreachable_printer_reports_rather_than_hangs e \<longleftrightarrow>
     \<not> is_ok (fst (tcp_send (tcp_with_timeout (tcp_sink_new ''127.0.0.1'' 1) (ms 500)) e ''^XA^XZ'' []))"

definition the_file_sink_captures_what_was_sent :: "string \<Rightarrow> bool" where
  "the_file_sink_captures_what_was_sent path \<longleftrightarrow>
     (let r1 = file_send path listening ''^XA1^XZ'' []; r2 = file_send path listening ''^XA2^XZ'' (snd r1) in
      is_ok (fst r1) \<and> is_ok (fst r2) \<and> snd r2 = ''^XA1^XZ^XA2^XZ'')"

definition the_default_port_is_zebras_raw_port :: bool where
  "the_default_port_is_zebras_raw_port \<longleftrightarrow> DEFAULT_PORT = 9100"

lemma sink_tests:
  "a_label_reaches_a_listening_printer_byte_for_byte port"
  "ev_open e \<noteq> InTime \<Longrightarrow> an_unreachable_printer_reports_rather_than_hangs e"
  "the_file_sink_captures_what_was_sent path" "the_default_port_is_zebras_raw_port"
proof -
  show "a_label_reaches_a_listening_printer_byte_for_byte port"
    by (simp add: a_label_reaches_a_listening_printer_byte_for_byte_def tcp_send_def listening_def tcp_describe_def Let_def)
  show "an_unreachable_printer_reports_rather_than_hangs e" if "ev_open e \<noteq> InTime"
    using that by (auto simp: an_unreachable_printer_reports_rather_than_hangs_def tcp_send_def split: awaited.splits)
  show "the_file_sink_captures_what_was_sent path"
    by (simp add: the_file_sink_captures_what_was_sent_def file_send_def listening_def Let_def)
  show the_default_port_is_zebras_raw_port
    by (simp add: the_default_port_is_zebras_raw_port_def DEFAULT_PORT_def)
qed

section \<open>The virtual instrument\<close>

text \<open>Printing with two places rounds to a nearest hundredth.\<close>

definition rounds_to_hundredths :: "(rat \<Rightarrow> nat) \<Rightarrow> bool" where
  "rounds_to_hundredths cents \<longleftrightarrow> (\<forall>q. 0 \<le> q \<longrightarrow> \<bar>of_nat (cents q) - 100 * q\<bar> \<le> 1 / 2)"

definition readings_are_deterministic_so_a_failure_can_be_reproduced :: "rounding \<Rightarrow> bool" where
  "readings_are_deterministic_so_a_failure_can_be_reproduced nearest \<longleftrightarrow>
     (let tol = nearest False (4 / 10) in
      reading_for nearest 3 (F_Fin 12) tol = reading_for nearest 3 (F_Fin 12) tol
      \<and> reading_for nearest 1 (F_Fin 12) tol \<noteq> reading_for nearest 3 (F_Fin 12) tol)"

definition the_line_format_matches_what_instruments_emit :: "rounding \<Rightarrow> (rat \<Rightarrow> nat) \<Rightarrow> bool" where
  "the_line_format_matches_what_instruments_emit nearest cents \<longleftrightarrow>
     format_reading cents ''T: {v} NM'' (nearest False (121 / 10)) = ''T: 12.10 NM'' @ [CHR 0x0D, CHR 0x0A]
     \<and> format_reading cents ''{v}'' (F_Fin 9) = ''9.00'' @ [CHR 0x0D, CHR 0x0A]"

text \<open>The first line of the only connection.\<close>

definition first_line :: "rounding \<Rightarrow> (rat \<Rightarrow> nat) \<Rightarrow> u64 \<Rightarrow> string \<Rightarrow> string" where
  "first_line nearest cents bad_every template =
     snd (hd (instrument_sessions nearest cents \<lparr>in_nominal = F_Fin 12, in_tolerance = nearest False (3 / 10),
       in_bad_every = bad_every, in_format = template\<rparr> [()] 0))"

definition a_station_can_read_from_the_virtual_instrument :: "rounding \<Rightarrow> (rat \<Rightarrow> nat) \<Rightarrow> bool" where
  "a_station_can_read_from_the_virtual_instrument nearest cents \<longleftrightarrow>
     (let line = first_line nearest cents 0 ''T: {v} NM'' in
      prefix ''T: '' line \<and> suffix (''NM'' @ [CHR 0x0D, CHR 0x0A]) line)"

definition the_bad_every_switch_produces_a_failing_reading :: "rounding \<Rightarrow> (rat \<Rightarrow> nat) \<Rightarrow> bool" where
  "the_bad_every_switch_produces_a_failing_reading nearest cents =
     (case parse_f64 nearest (trim (first_line nearest cents 1 ''{v}'')) of
        None \<Rightarrow> False
      | Some v \<Rightarrow> \<not> is_nan v \<and> \<not> f64_le v (F_Fin 14))"

lemma hundredths:
  assumes "rounds_to_hundredths cents" and "0 \<le> q" and "\<bar>100 * q - of_nat n\<bar> < 1 / 2"
  shows "cents q = n"
proof -
  have "\<bar>of_nat (cents q) - 100 * q\<bar> \<le> 1 / 2"
    using assms(1,2) by (simp add: rounds_to_hundredths_def)
  then have "\<bar>of_nat (cents q) - of_nat n :: rat\<bar> < 1"
    using assms(3) by linarith
  then have "\<bar>of_int (int (cents q) - int n) :: rat\<bar> < of_int 1"
    by simp
  then have "\<bar>int (cents q) - int n\<bar> < 1"
    unfolding of_int_abs [symmetric] of_int_less_iff .
  then show ?thesis
    by simp
qed

lemma repeatable_test:
  assumes near: "rounds_closely nearest"
  shows "readings_are_deterministic_so_a_failure_can_be_reproduced nearest"
proof -
  obtain t where t: "nearest False (4 / 10) = F_Fin t" "\<bar>t - 4 / 10\<bar> \<le> 4 / 10 / 1000000"
    using rounds_closelyD [OF near, of "4 / 10" False] by auto
  have reading: "\<exists>v. reading_for nearest n (F_Fin 12) (F_Fin t) = F_Fin v \<and> \<bar>v - (12 - k * 4 / 10)\<bar> \<le> 1 / 1000"
    if n: "reading_phase n = - k" and k: "1 / 4 \<le> k" "k \<le> 3 / 4" for n k
  proof -
    have t': "399 / 1000 \<le> t" "t \<le> 401 / 1000" "t - 4 / 10 \<le> 1 / 1000000" "4 / 10 - t \<le> 1 / 1000000"
      using t(2) unfolding abs_le_iff by linarith+
    define q where "q = k * t"
    have q: "q \<le> k * (400001 / 1000000)" "k * (399999 / 1000000) \<le> q"
      unfolding q_def using t' k by (intro mult_left_mono; linarith)+
    have range: "1 / 1000 \<le> q" "q \<le> 1"
      using q k by linarith+
    obtain s where s: "nearest True q = F_Fin s" "\<bar>s + q\<bar> \<le> q / 1000000"
      using rounds_closelyD [OF near, of q True] range by auto
    have s': "s + q \<le> 1 / 1000000" "- s - q \<le> 1 / 1000000"
      using s(2) range unfolding abs_le_iff by linarith+
    have sum: "1 / 1000 \<le> 12 + s" "12 + s \<le> 12"
      using s' range s(2) unfolding abs_le_iff by linarith+
    obtain v where v: "nearest False (12 + s) = F_Fin v" "\<bar>v - (12 + s)\<bar> \<le> (12 + s) / 1000000"
      using rounds_closelyD [OF near, of "12 + s" False] sum by auto
    have "v - (12 + s) \<le> 1 / 10000" "12 + s - v \<le> 1 / 10000"
      using v(2) sum unfolding abs_le_iff by (simp_all add: field_simps)
    moreover have "q - k * 4 / 10 \<le> 1 / 10000" "k * 4 / 10 - q \<le> 1 / 10000"
      using q k by simp_all
    ultimately have "\<bar>v - (12 - k * 4 / 10)\<bar> \<le> 1 / 1000"
      using s' unfolding abs_le_iff by (intro conjI; linarith)
    moreover have "f64_mul nearest (F_Fin (- k)) (F_Fin t) = F_Fin s"
      using k t' s(1) range
      by (simp add: f64_mul_def f64_round_def f64_negative_def f64_infinite_def is_nan_def Let_def q_def)
    moreover have "f64_add nearest (F_Fin 12) (F_Fin s) = F_Fin v"
      using v(1) sum by (simp add: f64_add_def f64_round_def f64_infinite_def is_nan_def)
    ultimately show ?thesis
      by (simp add: reading_for_def n)
  qed
  have "reading_phase 1 = - (3 / 4)" "reading_phase 3 = - (1 / 4)"
    by (simp_all add: reading_phase_def)
  then obtain v w where "reading_for nearest 1 (F_Fin 12) (F_Fin t) = F_Fin v" "\<bar>v - (12 - 3 / 4 * 4 / 10)\<bar> \<le> 1 / 1000"
      "reading_for nearest 3 (F_Fin 12) (F_Fin t) = F_Fin w" "\<bar>w - (12 - 1 / 4 * 4 / 10)\<bar> \<le> 1 / 1000"
    using reading [of 1 "3 / 4"] reading [of 3 "1 / 4"] by auto
  moreover from this have "v \<noteq> w"
    unfolding abs_le_iff by linarith
  ultimately show ?thesis
    unfolding readings_are_deterministic_so_a_failure_can_be_reproduced_def Let_def t(1) by simp
qed

lemma format_test:
  assumes near: "rounds_closely nearest" and cents: "rounds_to_hundredths cents"
  shows "the_line_format_matches_what_instruments_emit nearest cents"
proof -
  obtain t where t: "nearest False (121 / 10) = F_Fin t" "\<bar>t - 121 / 10\<bar> \<le> 121 / 10 / 1000000"
    using rounds_closelyD [OF near, of "121 / 10" False] by auto
  then have t': "0 < t" "\<bar>100 * t - of_nat 1210\<bar> < 1 / 2"
    unfolding abs_le_iff abs_less_iff by simp_all
  then have "cents t = 1210" "cents 9 = 900"
    using hundredths [OF cents, of t 1210] hundredths [OF cents, of 9 900] by simp_all
  moreover have "show_nat 12 = ''12''" "show_nat 9 = ''9''" "show_nat 1 = ''1''" "show_nat 0 = ''0''"
    by code_simp+
  ultimately show ?thesis
    using t' by (simp add: the_line_format_matches_what_instruments_emit_def t(1) format_reading_def two_places_def
        f64_negative_def Let_def)
qed

lemma session_test: "a_station_can_read_from_the_virtual_instrument nearest cents"
proof -
  obtain v where "first_line nearest cents 0 ''T: {v} NM'' = (''T: '' @ v @ '' '') @ ''NM'' @ [CHR 0x0D, CHR 0x0A]"
    by (simp add: first_line_def format_reading_def Let_def)
  then show ?thesis
    by (simp only: a_station_can_read_from_the_virtual_instrument_def Let_def suffixI) simp
qed

lemma bad_reading_test:
  assumes near: "rounds_closely nearest" and cents: "rounds_to_hundredths cents"
  shows "the_bad_every_switch_produces_a_failing_reading nearest cents"
proof -
  obtain t where t: "nearest False (3 / 10) = F_Fin t" "\<bar>t - 3 / 10\<bar> \<le> 3 / 10 / 1000000"
    using rounds_closelyD [OF near, of "3 / 10" False] by auto
  then have t': "0 < t" "t * 20 - 6 \<le> 1 / 10000" "6 - t * 20 \<le> 1 / 10000"
    unfolding abs_le_iff by linarith+
  obtain s where s: "nearest False (t * 20) = F_Fin s" "\<bar>s - t * 20\<bar> \<le> t * 20 / 1000000"
    using rounds_closelyD [OF near, of "t * 20" False] t' by auto
  then have s': "0 < s" "s - 6 \<le> 2 / 10000" "6 - s \<le> 2 / 10000"
    using t' unfolding abs_le_iff by linarith+
  obtain v where v: "nearest False (12 + s) = F_Fin v" "\<bar>v - (12 + s)\<bar> \<le> (12 + s) / 1000000"
    using rounds_closelyD [OF near, of "12 + s" False] s' by auto
  then have v': "0 < v" "\<bar>100 * v - of_nat 1800\<bar> < 1 / 2"
    using s' unfolding abs_le_iff abs_less_iff by simp_all
  then have "cents v = 1800"
    using hundredths [OF cents, of v 1800] by simp
  moreover have "emitted nearest \<lparr>in_nominal = F_Fin 12, in_tolerance = F_Fin t, in_bad_every = 1, in_format = ''{v}''\<rparr> 1
      = F_Fin v"
    using t'(1) s s' v(1)
    by (simp add: emitted_def is_multiple_of_def f64_fin_mul f64_add_def f64_round_def f64_infinite_def is_nan_def)
  moreover have "show_nat 18 = ''18''" "show_nat 0 = ''0''"
    by code_simp+
  ultimately have "first_line nearest cents 1 ''{v}'' = ''18.00'' @ [CHR 0x0D, CHR 0x0A]"
    using v'(1) by (simp add: first_line_def t(1) format_reading_def two_places_def f64_negative_def Let_def)
  moreover obtain w where w: "nearest False 18 = F_Fin w" "\<bar>w - 18\<bar> \<le> 18 / 1000000"
    using rounds_closelyD [OF near, of 18 False] by auto
  then have "14 < w"
    unfolding abs_le_iff by linarith
  ultimately show ?thesis
    using w(1) by (simp add: the_bad_every_switch_produces_a_failing_reading_def line_eval is_nan_def)
qed

end
