(* ===== verification/Spec2Isabelle.thy ===== *)
theory Spec2Isabelle
  imports Clock Dcp Config JobCard RouteSim HashChain License Install Billing Registry
    Label Spool Store Edge Example Sources Printer StripeApi Station Service Instrument
    ConformEngine ConformBilling ConformUpdate ConformDevice ConformMark
begin

text \<open>
  ElectronIx Trace, a traceability system for factories: a model of its Rust code, and what makes it
  correct.

  \<^bold>\<open>The program.\<close>  One edge box per plant keeps the evidence of every unit built: its birth, the
  operations it passed, what was measured and which parts went into it, one hash chain per unit.
  Stations read devices, print labels and spool what they capture while the box cannot be reached.  The
  route engine says which operation a unit may take next and whether its gates hold.  A control plane sells
  subscriptions and signs licences; a box checks its licence against a public key, offline, and lets it
  restrict configuration but never production.  Releases reach a box as signed bundles, from a server or on
  a stick.  The parts meet in data: identifiers and domain types (\<open>trace-core\<close>) are used by all; a licence
  and an update manifest are both documents under \<open>trace-sign\<close>; the edge's handlers call \<open>trace-store\<close> and
  \<open>trace-license\<close>; the label of a unit carries the URL that the edge's trace page answers.

  \<^bold>\<open>Theories and sources\<close> (paths under \<open>src/\<close>; a definition has the name of the Rust item where HOL
  leaves it free, with a prefix for its type where it does not, such as \<open>spool_append\<close> for \<open>Spool::append\<close>).

  \<^item> \<open>Prelude\<close>: words, doubles, instants, text, the error sum with its collection \<open>outcome\<close>, and two locales for
    escaping text, \<open>text_escape\<close> and \<open>text_code\<close>; \<open>BTree\<close>: \<open>BTreeMap\<close>, with its interface as a locale.
  \<^item> \<open>Ident\<close>, \<open>Clock\<close>, \<open>Dcp\<close>, \<open>Config\<close>, \<open>JobCard\<close>, \<open>Route\<close>, \<open>UnitModel\<close>, \<open>HashChain\<close>, \<open>Engine\<close>:
    \<open>crates/trace-core/src\<close>, one theory per file (\<open>id.rs\<close> and \<open>error.rs\<close> share \<open>Ident\<close>).  The life of a unit is
    an inductive step relation; validating a route is Kahn's algorithm with its counters.
  \<^item> \<open>RouteSim\<close>, \<open>Example\<close>: \<open>tools/route-sim\<close>, the run of a scenario and the scenario it ships.
  \<^item> \<open>Sign\<close>: \<open>crates/trace-sign\<close>; \<open>License\<close>: \<open>crates/trace-license\<close>; \<open>Billing\<close>, \<open>StripeApi\<close>:
    \<open>crates/trace-billing\<close>.
  \<^item> \<open>Manifest\<close>, \<open>Install\<close>, \<open>Sources\<close>: \<open>crates/trace-updater\<close>.  Installing is a program of file system
    steps, of which the environment may fail each or cut the power at it.
  \<^item> \<open>Device\<close>, \<open>Drivers\<close>, \<open>Registry\<close>: \<open>crates/trace-devices\<close>.  The driver trait is a record of operations
    and a locale; the registry is proved from the locale.
  \<^item> \<open>Label\<close>, \<open>Printer\<close>: \<open>crates/trace-mark\<close> and the virtual printer of \<open>tools/device-sim\<close>; \<open>Instrument\<close>: its
    virtual instrument, against the TCP driver; \<open>Dots\<close>: millimetres to printer dots, on doubles.
  \<^item> \<open>Store\<close>, \<open>Plant\<close>, \<open>History\<close>: \<open>crates/trace-store\<close>.  Tables are lists of rows and each SQL statement
    is what it does to them within one tenant, with the triggers and constraints of the migrations;
    a statement, the begin or the commit may fail.
  \<^item> \<open>Page\<close>, \<open>Edge\<close>, \<open>Service\<close>: \<open>apps/trace-edge\<close>, the page, the handlers from a parsed request to
    a reply value, and the program around them; \<open>Spool\<close>, \<open>Station\<close>: \<open>apps/trace-station\<close>.
  \<^item> \<open>ConformCore\<close>, \<open>ConformEngine\<close>, \<open>ConformTrust\<close>, \<open>ConformBilling\<close>, \<open>ConformUpdate\<close>, \<open>ConformDevice\<close>,
    \<open>ConformMark\<close>: the unit tests of the program and \<open>crates/trace-core/tests/engine.rs\<close>.  A test is a definition with
    the name of its Rust function, of what it asserts, and a lemma says that the model passes it; random identities
    and the behaviour of packages are arguments and hypotheses.  They tie the definitions to what the authors
    expect of the code.

  \<^bold>\<open>What the lemmas show.\<close>  Evidence: any interleaving of appends and failures keeps one verified chain per
  unit (\<open>Store\<close>), a verified chain cannot be changed under its tip (\<open>HashChain\<close>), histories show exactly the
  chain and agree with recalls (\<open>History\<close>), identities are permanent (\<open>Plant\<close>).  Routes: validation is exact
  and a valid route always has a next operation and a station for it (\<open>Route\<close>, \<open>Engine\<close>); a unit advances iff
  its gates hold, stated without the order in which the code looks.  Licences: signing, what is in
  force at each instant, the clock guard's bound, the way from a subscription to an enforcement,
  and that none of it reaches production (\<open>Sign\<close>, \<open>License\<close>, \<open>Billing\<close>, \<open>StripeApi\<close>, \<open>Edge\<close>, \<open>Service\<close>).
  Updates: no interruption leaves a box without a complete release, versions go down only on purpose, and
  the transports agree (\<open>Install\<close>, \<open>Manifest\<close>, \<open>Sources\<close>).  Data cannot change commands or markup
  (\<open>Label\<close>, \<open>Page\<close>).  Stations: the spool is a queue, drivers and registry report what was read
  (\<open>Spool\<close>, \<open>Station\<close>, \<open>Drivers\<close>, \<open>Registry\<close>, \<open>Instrument\<close>).  This theory holds the property that runs
  through three parts: a printed label leads back to its unit.

  \<^bold>\<open>Parameters and hypotheses.\<close>  Packages are arguments: \<open>externals\<close> (ULID text, \<open>chrono\<close> and formatting),
  \<open>sign_lib\<close> (Ed25519, SHA-256, base64, hex), \<open>billing_lib\<close>, \<open>semver_lib\<close>, \<open>calendar\<close>, \<open>spool_json\<close>, the readers
  of \<open>serde_json\<close>, the rounding of doubles (\<open>nearest\<close>, \<open>cents\<close>), the HTTP servers.  What is relied on of them
  is named: \<open>sign_laws\<close>, \<open>compact_laws\<close>, \<open>serde_laws\<close>, \<open>hex_laws\<close>, \<open>day_laws\<close>, \<open>calendar_laws\<close>, \<open>spool_json_laws\<close>,
  \<open>ulid_text_parses\<close>, \<open>version_text_parses\<close>, \<open>lengths_checked\<close>, \<open>whole_seconds\<close>, \<open>rounds_closely\<close>, and \<open>publishes\<close> for a
  server of releases.  \<open>serde_laws\<close> is about the text that \<open>serde_json\<close> itself writes, its fields in any order: that
  \<open>write_canonical\<close> of this program writes such a text is proved.  The digest is only ever assumed to
  be a function: tamper evidence gives the collision it would take.  Nothing is assumed of Ed25519 beyond
  \<open>sign_laws\<close> (a signature verifies): where a document was not signed, the theorem gives the forged signature in
  the envelope.  What surroundings do (faults of a
  statement, of a write, of a connection, the clock, fresh identities) is an argument of each operation, so
  a theorem holds for all of it.  Conditions on data are named as well: \<open>references_owned\<close> and \<open>joins_ok\<close> (what a
  row refers to is the tenant's own), \<open>manifests_safe\<close> (artifact names are plain names), \<open>rows_typed\<close>.  The schema enforces
  \<open>rows_typed\<close>; it does not enforce \<open>references_owned\<close> (\<open>foreign_job_card_is_not_found\<close>) nor that a measurement's
  collection point exists, which is a part of \<open>joins_ok\<close> (\<open>unknown_point_is_dropped\<close>).

  \<^bold>\<open>Bounds and fuel.\<close>  There is no fuel but the source's: the simulator's convergence guard, four turns per
  operation, is never reached (\<open>simulation_converges\<close>); recall and history walk 32 levels, the depth in the SQL,
  and are exact up to it; links are followed 40 deep, as the kernel does; polling for health is a partial
  function that returns on a clock that moves.  Sequence numbers are 64 bits wide: the chain theorem is for fewer
  than \<open>2 ^ 63\<close> records of a unit.  Other integers wrap, saturate or panic as they do in the source.

  \<^bold>\<open>Not modelled.\<close>  \<open>apps/trace-cloud\<close> and \<open>crates/trace-sync\<close> are empty stubs.  Parsing of command lines, JSON and
  HTTP framing, sockets, the asynchronous runtime, shutdown signals, logging and the connection pool are
  packages around the modelled functions.  The SQL migrations are another language: what the Rust code relies on
  of them is in \<open>Plant\<close>, \<open>History\<close> and \<open>Store\<close>.  Transactions are serial; requests are a sequence.  Of the tests, those
  that run a database, a file system or a server are left out, and the unit tests of what packages do
  (\<open>serde\<close> round trips, the order of ULID texts, the floating-point bound on simulated readings).
\<close>

section \<open>From the part back to its unit\<close>

text \<open>The trace URL of a unit has no character a printer interprets, if the base URL has none.\<close>

lemma trace_url_plain:
  assumes "is_ulid_text uid" and "filter control base = []"
  shows "filter control (trace_url base uid) = []"
proof -
  let ?digits = "''0123456789ABCDEFGHJKMNPQRSTVWXYZ''"
  have digits: "\<forall>c \<in> set ?digits. \<not> control c" and slash: "\<not> control CHR ''/''" "\<not> control CHR ''t''"
    by code_simp+
  have "\<forall>c \<in> set uid. c \<in> set ?digits"
    using assms(1) unfolding is_ulid_text_def list_all_iff by (rule conjunct2)
  then have "filter control uid = []"
    unfolding filter_empty_conv using digits by blast
  moreover have "filter control (trim_end_slashes base) = []"
    using assms(2) set_dropWhileD [of _ _ "rev base"] by (fastforce simp: trim_end_slashes_def filter_empty_conv)
  ultimately show ?thesis
    using slash by (simp add: trace_url_def)
qed

text \<open>
  C2: What is printed on a part leads home.  A unit is born, a label with a QR symbol of the trace URL is bound to
  the URL the birth answered, rendered and sent to a printer; then the printer has received a QR command with
  exactly that URL, and scanning it shows the page of this unit, as born, with its serial.  The base URL of the
  plant must be free of the five characters a printer interprets, and what the birth refers to its tenant's own.
\<close>

theorem printed_label_leads_home:
  assumes "rows_typed db" and "references_owned db (as_config st) req" and "calm oc'"
    and "handle pk oc st (PostUnit req) db = (Inr (BornReply uid unit_id url), db')"
    and "filter control (cfg_trace_base_url (as_config st)) = []"
    and "bt_ok (bc_values ctx)"
    and "BarcodeEl x y Qr cell height ''{{unit.trace_url}}'' hr \<in> set (lt_elements t)"
    and "template_bind strftime clock t (binding_with ''unit.trace_url'' url ctx) = Inr bound"
    and "render_zpl to_dots bound = Inr zpl" and "tcp_send sink e zpl [] = (Inr (), got)"
  shows "\<exists>before after h.
      got = before @ ''^BQN,2,'' @ show_word cell @ ''^FDQA,'' @ url @ ''^FS'' @ after
      \<and> handle pk oc' st (GetTrace url) db' = (Inr (PageReply (render_page (pk_ext pk) (pk_show_f64 pk) h)), db')
      \<and> uh_uid h = uid \<and> uh_serial h = br_serial req \<and> uh_state h = ''BORN''"
proof -
  have born: "birth_unit pk oc st req db = (Inr (BornReply uid unit_id url), db')"
    using assms(4) by simp
  note ok = birth_unit_ok [OF born]
  have "is_ulid_text uid"
    using admit_unit_new(3) [OF ok(1)] ok(2) by simp
  note plain = ulid_text_plain [OF this]
  obtain h where h: "unit_history_of (\<lambda>_. None) (cfg_tenant (as_config st)) uid db' = Inr (Some h)"
      "uh_uid h = uid" "uh_serial h = br_serial req" "uh_state h = ''BORN''"
    using born_history [OF assms(1,2) born] by blast
  have "scanned_form uid [] (trim_end_slashes (cfg_trace_base_url (as_config st)) @ ''/t/'') uid [] []"
    using plain(4) by (simp add: scanned_form_def)
  then have "normalise_scanned_code url = uid"
    using normalise_scanned [OF _ plain(1-3)] ok(4) by (fastforce simp: trace_url_def)
  then have page: "handle pk oc' st (GetTrace url) db'
      = (Inr (PageReply (render_page (pk_ext pk) (pk_show_f64 pk) h)), db')"
    using trace_page_calm [OF assms(3), of st url db' "Some h" pk] h(1) by simp
  have "filter control url = []"
    unfolding ok(4) by (rule trace_url_plain [OF \<open>is_ulid_text uid\<close> assms(5)])
  moreover have "BarcodeEl x y Qr cell height url hr \<in> set (lt_elements bound)"
  proof -
    have "trim ''unit.trace_url'' = ''unit.trace_url''" "\<not> prefix ''now:'' ''unit.trace_url''"
      by code_simp+
    then have "render_expression strftime clock ''{{unit.trace_url}}'' (binding_with ''unit.trace_url'' url ctx) = Inr url"
      using bound_reference [of "''unit.trace_url''" ctx strftime clock url] assms(6) by simp
    then show ?thesis
      using assms(7,8) bind_elements_member by (fastforce simp: template_bind_def outcome)
  qed
  ultimately show ?thesis
    using rendered_qr [OF assms(9)] to_printer.sent [OF assms(10)] page h(2-4) by auto
qed

definition demo_qr_label :: label_template where
  "demo_qr_label = (one_field [])\<lparr>lt_elements := [BarcodeEl 250 20 Qr 5 0 ''{{unit.trace_url}}'' False]\<rparr>"

lemma printed_label_leads_home_witness:
  "\<exists>db' got before after h.
      handle demo_packages demo_occasion demo_box (PostUnit demo_birth) demo_plant
        = (Inr (BornReply ''01JX8P2K7F3QW9ABCDEFGHJKMN'' 7 ''http://trace/t/01JX8P2K7F3QW9ABCDEFGHJKMN''), db')
      \<and> got = before @ ''^BQN,2,'' @ show_word (5 :: u32) @ ''^FDQA,'' @ ''http://trace/t/01JX8P2K7F3QW9ABCDEFGHJKMN'' @ ''^FS'' @ after
      \<and> handle demo_packages demo_occasion demo_box (GetTrace ''http://trace/t/01JX8P2K7F3QW9ABCDEFGHJKMN'') db'
        = (Inr (PageReply (render_page (pk_ext demo_packages) (pk_show_f64 demo_packages) h)), db')
      \<and> uh_serial h = ''S1''"
proof -
  let ?url = "''http://trace/t/01JX8P2K7F3QW9ABCDEFGHJKMN''"
  let ?bound = "(one_field [])\<lparr>lt_elements := [BarcodeEl 250 20 Qr 5 0 ?url False]\<rparr>"
  let ?fine = "\<lparr>ev_open = InTime, ev_write = InTime, ev_flush = None, ev_arrived = 0\<rparr>"
  obtain db' where born: "handle demo_packages demo_occasion demo_box (PostUnit demo_birth) demo_plant
      = (Inr (BornReply ''01JX8P2K7F3QW9ABCDEFGHJKMN'' 7 ?url), db')"
    using demo_born by blast
  have typed: "rows_typed demo_plant"
    by (simp add: rows_typed_def demo_plant_def no_evidence_def)
  have owned: "references_owned demo_plant (as_config demo_box) demo_birth"
    by (simp add: references_owned_def demo_plant_def app_state_new_def demo_config_def demo_birth_def)
  have calm: "calm demo_occasion"
    by (simp add: calm_def demo_occasion_def)
  have base: "filter control (cfg_trace_base_url (as_config demo_box)) = []"
    by code_simp
  have bt: "bt_ok (bc_values binding_new)"
    by (simp add: binding_new_def bt_ok_def)
  have member: "BarcodeEl 250 20 Qr 5 0 ''{{unit.trace_url}}'' False \<in> set (lt_elements demo_qr_label)"
    by (simp add: demo_qr_label_def)
  have bound: "template_bind (\<lambda>_ f. f) 0 demo_qr_label (binding_with ''unit.trace_url'' ?url binding_new) = Inr ?bound"
    by code_simp
  have "\<exists>zpl. render_zpl (\<lambda>_ _. 400) ?bound = Inr zpl"
    by (rule exI [of _ "projr (render_zpl (\<lambda>_ _. 400) ?bound)"]) code_simp
  then obtain zpl where zpl: "render_zpl (\<lambda>_ _. 400) ?bound = Inr zpl" ..
  have sent: "tcp_send (tcp_sink_new ''zebra'' DEFAULT_PORT) ?fine zpl [] = (Inr (), zpl)"
    by (simp add: tcp_send_def)
  from printed_label_leads_home [OF typed owned calm born base bt member bound zpl sent] born show ?thesis
    by (fastforce simp: demo_birth_def)
qed

end
